(* ===== verification/Prelude.thy ===== *)
theory Prelude
  imports Main "HOL-Library.Sublist"
begin

text \<open>
  The vocabulary every other theory shares: Python's unicode strings as lists of code
  points, the literal wrapper for source strings, the outcomes of a Python call
  (a value, a raised exception, a loop that never returns), the calls a check makes of its
  \<open>error\<close> argument, the combinators that put checks in sequence, and the collections
  of rewrite rules the component theories fill.
\<close>

section \<open>Collections of rules\<close>

named_theorems compiled \<open>the regular expressions the patterns of the program parse to\<close>
named_theorems chk_simps \<open>how the check combinators compute\<close>
named_theorems pystr_simps \<open>how the string methods compute\<close>

section \<open>Unicode strings\<close>

text \<open>
  A character is its code point, a string the list of its code points: the lines of a file
  are Python 2 \<open>unicode\<close> objects (\<open>codecs.open(filename, 'r', 'utf8', 'replace')\<close>).
\<close>

type_synonym uchar = int
type_synonym ustr = "uchar list"

text \<open>
  A literal of the source is written \<open>u ''...''\<close>. A HOL string literal cannot hold a
  backslash and cannot hold a single quote everywhere, so the backquote stands for the one
  and the at sign for the other (no literal of the modelled files holds either of the two):
  the Python literal \<open>r'\bNOLINT\b'\<close> is \<open>u ''`bNOLINT`b''\<close>.
\<close>

definition uchar_of :: "char \<Rightarrow> uchar" where
  "uchar_of c = (if c = CHR 0x60 then 92 else if c = CHR 0x40 then 39 else of_char c)"

definition u :: "string \<Rightarrow> ustr" where
  "u s = map uchar_of s"

lemma u_Nil [simp]: "u [] = []"
  by (simp add: u_def)

lemma u_Cons: "u (c # s) = uchar_of c # u s"
  by (simp add: u_def)

lemma length_u [simp]: "length (u s) = length s"
  by (simp add: u_def)

lemma u_append: "u (s @ t) = u s @ u t"
  by (simp add: u_def)

lemma u_eq_Nil [simp]: "u s = [] \<longleftrightarrow> s = []"
  by (simp add: u_def)

text \<open>Decimal rendering, for the \<open>%d\<close> and \<open>%s\<close> directives of the messages.\<close>

fun digits_of :: "nat \<Rightarrow> ustr" where
  "digits_of n = (if n < 10 then [48 + int n]
                  else digits_of (n div 10) @ [48 + int (n mod 10)])"

declare digits_of.simps [simp del]

definition show_int :: "int \<Rightarrow> ustr" where
  "show_int n = (if n < 0 then 45 # digits_of (nat (- n)) else digits_of (nat n))"

lemma digits_of_not_Nil [simp]: "digits_of n \<noteq> []"
  by (subst digits_of.simps) simp

section \<open>Outcomes of a call\<close>

text \<open>The argument of \<open>sys.exit\<close>: a status or a message.\<close>

datatype exit_arg = Code int | Message ustr

datatype exn =
    IndexError
  | ValueError ustr
  | UnboundLocalError ustr
  | AssertionError ustr
  | ReError ustr
  | KeyError ustr
  | AttributeError ustr
  | GetoptError ustr
  | TypeError ustr
  | SystemExit exit_arg

datatype 'a outcome = Ret 'a | Raise exn | Diverge

fun bind_out :: "'a outcome \<Rightarrow> ('a \<Rightarrow> 'b outcome) \<Rightarrow> 'b outcome" where
  "bind_out (Ret x) f = f x"
| "bind_out (Raise e) f = Raise e"
| "bind_out Diverge f = Diverge"

definition returns :: "'a outcome \<Rightarrow> bool" where
  "returns r \<longleftrightarrow> (case r of Ret x \<Rightarrow> True | _ \<Rightarrow> False)"

lemma returns_simps [simp]:
  "returns (Ret x)" "\<not> returns (Raise e)" "\<not> returns Diverge"
  by (simp_all add: returns_def)

lemma returnsE:
  assumes "returns r"
  obtains x where "r = Ret x"
  using assms by (cases r) auto

lemma bind_out_Ret [simp]: "bind_out m Ret = m"
  by (cases m) auto

lemma bind_out_assoc: "bind_out (bind_out m f) g = bind_out m (\<lambda>x. bind_out (f x) g)"
  by (cases m) auto

lemma returns_bind_out:
  "returns (bind_out m f) \<longleftrightarrow> (\<exists>x. m = Ret x \<and> returns (f x))"
  by (cases m) auto

section \<open>What a check does\<close>

text \<open>
  Every check receives a callable \<open>error(filename, linenum, category, confidence, message)\<close>
  and reports through it; two helpers also write the module's table of suppressed errors.
  The model of a check is the sequence of these effects, in order, together with the outcome
  of the check itself: what was done before an exception stays done. No check reads what it
  writes this way; the driver applies the effects to the module's state.
\<close>

record diag =
  d_file :: ustr
  d_line :: int
  d_cat :: ustr
  d_conf :: int
  d_msg :: ustr

datatype effect =
    Report diag
  | Suppress "ustr option" int     \<comment> \<open>\<open>_error_suppressions.setdefault(key, set()).add(linenum)\<close>\<close>
  | ClearSuppressions

abbreviation call :: "ustr \<Rightarrow> int \<Rightarrow> ustr \<Rightarrow> int \<Rightarrow> ustr \<Rightarrow> effect" where
  "call f n c k m \<equiv> Report \<lparr>d_file = f, d_line = n, d_cat = c, d_conf = k, d_msg = m\<rparr>"

type_synonym 'a chk = "effect list \<times> 'a outcome"

definition ok :: "'a \<Rightarrow> 'a chk" where
  "ok x = ([], Ret x)"

definition skip :: "unit chk" where
  "skip = ok ()"

definition raise :: "exn \<Rightarrow> 'a chk" where
  "raise e = ([], Raise e)"

definition lift :: "'a outcome \<Rightarrow> 'a chk" where
  "lift r = ([], r)"

definition error :: "ustr \<Rightarrow> int \<Rightarrow> ustr \<Rightarrow> int \<Rightarrow> ustr \<Rightarrow> unit chk" where
  "error f n c k m = ([call f n c k m], Ret ())"

definition effect :: "effect \<Rightarrow> unit chk" where
  "effect e = ([e], Ret ())"

definition bnd :: "'a chk \<Rightarrow> ('a \<Rightarrow> 'b chk) \<Rightarrow> 'b chk" where
  "bnd m f = (case snd m of
      Ret x \<Rightarrow> (fst m @ fst (f x), snd (f x))
    | Raise e \<Rightarrow> (fst m, Raise e)
    | Diverge \<Rightarrow> (fst m, Diverge))"

text \<open>For evaluation: the continuation is run once.\<close>

lemma bnd_code [code]:
  "bnd m f = (case m of (es, r) \<Rightarrow>
     (case r of
        Ret x \<Rightarrow> (case f x of (es', r') \<Rightarrow> (es @ es', r'))
      | Raise e \<Rightarrow> (es, Raise e)
      | Diverge \<Rightarrow> (es, Diverge)))"
  by (cases m; cases "snd m") (auto simp: bnd_def split: prod.split)

definition andthen :: "unit chk \<Rightarrow> 'b chk \<Rightarrow> 'b chk" where
  "andthen m k = bnd m (\<lambda>_. k)"

definition guard :: "bool \<Rightarrow> unit chk \<Rightarrow> unit chk" where
  "guard b m = (if b then m else skip)"

text \<open>\<open>in_order\<close> runs a list of statements one after the other.\<close>

fun in_order :: "unit chk list \<Rightarrow> unit chk" where
  "in_order [] = skip"
| "in_order (m # ms) = andthen m (in_order ms)"

text \<open>\<open>for_each\<close> is a \<open>for\<close> loop whose body keeps no state.\<close>

fun for_each :: "'a list \<Rightarrow> ('a \<Rightarrow> unit chk) \<Rightarrow> unit chk" where
  "for_each [] f = skip"
| "for_each (x # xs) f = andthen (f x) (for_each xs f)"

lemma bnd_ok [simp, chk_simps]: "bnd (ok x) f = f x"
  by (simp add: bnd_def ok_def)

lemma bnd_raise [simp, chk_simps]: "bnd (raise e) f = raise e"
  by (simp add: bnd_def raise_def)

lemma bnd_ok_right [simp]: "bnd m ok = m"
  by (cases m; cases "snd m") (auto simp: bnd_def ok_def)

lemma bnd_assoc: "bnd (bnd m f) g = bnd m (\<lambda>x. bnd (f x) g)"
  by (cases "snd m") (auto simp: bnd_def split: outcome.splits)

lemma andthen_skip [simp, chk_simps]: "andthen skip k = k"
  by (simp add: andthen_def skip_def)

lemma andthen_error [chk_simps]:
  "andthen (error f n c k m) r = (call f n c k m # fst r, snd r)"
  by (simp add: andthen_def bnd_def error_def)

lemma guard_simps [simp, chk_simps]: "guard True m = m" "guard False m = skip"
  by (simp_all add: guard_def)

lemma fst_skip [simp, chk_simps]: "fst skip = []"
  and snd_skip [simp, chk_simps]: "snd skip = Ret ()"
  by (simp_all add: skip_def ok_def)

lemma fst_error [simp, chk_simps]: "fst (error f n c k m) = [call f n c k m]"
  and snd_error [simp, chk_simps]: "snd (error f n c k m) = Ret ()"
  by (simp_all add: error_def)

lemma fst_ok [simp, chk_simps]: "fst (ok x) = []"
  and snd_ok [simp, chk_simps]: "snd (ok x) = Ret x"
  by (simp_all add: ok_def)

lemma fst_effect [simp, chk_simps]: "fst (effect e) = [e]"
  and snd_effect [simp, chk_simps]: "snd (effect e) = Ret ()"
  by (simp_all add: effect_def)

text \<open>The steps of a sequence that returned.\<close>

lemma snd_bnd_Ret: "snd (bnd m f) = Ret y \<longleftrightarrow> (\<exists>x. snd m = Ret x \<and> snd (f x) = Ret y)"
  by (cases "snd m") (auto simp: bnd_def)

lemma snd_andthen_Ret: "snd (andthen m k) = Ret y \<longleftrightarrow> snd m = Ret () \<and> snd k = Ret y"
  by (auto simp: andthen_def snd_bnd_Ret)

lemma snd_lift [simp]: "snd (lift r) = r"
  and fst_lift [simp]: "fst (lift r) = []"
  by (simp_all add: lift_def)

lemma fst_bnd: "snd m = Ret x \<Longrightarrow> fst (bnd m f) = fst m @ fst (f x)"
  by (simp add: bnd_def)

lemma fst_bnd_subset: "set (fst m) \<subseteq> set (fst (bnd m f))"
  by (cases "snd m") (auto simp: bnd_def)

text \<open>A check that returns, whatever it reports: the calls of a sequence are concatenated.\<close>

definition total :: "'a chk \<Rightarrow> bool" where
  "total m \<longleftrightarrow> returns (snd m)"

lemma total_simps [simp]:
  "total (ok x)" "total skip" "total (error f n c k m)" "total (effect e)"
  by (simp_all add: total_def)

lemma total_guard [simp]: "total (guard b m) \<longleftrightarrow> (b \<longrightarrow> total m)"
  by (simp add: guard_def)

lemma total_unit: "total m \<Longrightarrow> snd m = Ret ()" for m :: "unit chk"
  by (cases "snd m") (auto simp: total_def)

lemma fst_andthen [simp]: "total m \<Longrightarrow> fst (andthen m k) = fst m @ fst k"
  and snd_andthen [simp]: "total m \<Longrightarrow> snd (andthen m k) = snd k"
  by (auto simp: andthen_def bnd_def total_def elim!: returnsE)

lemma total_andthen [simp]: "total (andthen m k) \<longleftrightarrow> total m \<and> total k"
  by (cases "snd m") (auto simp: andthen_def bnd_def total_def)

lemma total_in_order [simp]: "total (in_order ms) \<longleftrightarrow> (\<forall>m \<in> set ms. total m)"
  by (induction ms) auto

lemma fst_in_order:
  "\<forall>m \<in> set ms. total m \<Longrightarrow> fst (in_order ms) = concat (map fst ms)"
  by (induction ms) auto

lemma total_for_each [simp]: "total (for_each xs f) \<longleftrightarrow> (\<forall>x \<in> set xs. total (f x))"
  by (induction xs) auto

lemma fst_for_each:
  "\<forall>x \<in> set xs. total (f x) \<Longrightarrow> fst (for_each xs f) = concat (map (\<lambda>x. fst (f x)) xs)"
  by (induction xs) auto

text \<open>The effects of a check, whatever its outcome, all satisfy a predicate.\<close>

definition calls_ok :: "(effect \<Rightarrow> bool) \<Rightarrow> 'a chk \<Rightarrow> bool" where
  "calls_ok P m \<longleftrightarrow> (\<forall>d \<in> set (fst m). P d)"

lemma calls_ok_simps [simp]:
  "calls_ok P (ok x)" "calls_ok P skip" "calls_ok P (raise e)" "calls_ok P (lift r)"
  "calls_ok P (error f n c k m) \<longleftrightarrow> P (call f n c k m)"
  "calls_ok P (effect a) \<longleftrightarrow> P a"
  by (simp_all add: calls_ok_def ok_def skip_def raise_def lift_def error_def effect_def)

lemma calls_ok_bnd:
  "calls_ok P m \<Longrightarrow> (\<And>x. snd m = Ret x \<Longrightarrow> calls_ok P (f x)) \<Longrightarrow> calls_ok P (bnd m f)"
  by (auto simp: calls_ok_def bnd_def split: outcome.splits)

lemma calls_ok_andthen:
  "calls_ok P m \<Longrightarrow> calls_ok P k \<Longrightarrow> calls_ok P (andthen m k)"
  by (auto simp: andthen_def intro: calls_ok_bnd)

lemma calls_ok_guard [simp]: "calls_ok P (guard b m) \<longleftrightarrow> (b \<longrightarrow> calls_ok P m)"
  by (simp add: guard_def)

lemma calls_ok_in_order:
  "\<forall>m \<in> set ms. calls_ok P m \<Longrightarrow> calls_ok P (in_order ms)"
  by (induction ms) (auto intro: calls_ok_andthen)

lemma calls_ok_for_each:
  "\<forall>x \<in> set xs. calls_ok P (f x) \<Longrightarrow> calls_ok P (for_each xs f)"
  by (induction xs) (auto intro: calls_ok_andthen)

section \<open>Generic lemmas on lists\<close>

lemma list_all_takeWhile: "list_all P (takeWhile P xs)"
  by (auto simp: list_all_iff dest: set_takeWhileD)

end
