(* ===== verification/PyStr.thy ===== *)
theory PyStr
  imports Prelude
begin

text \<open>
  The methods of Python 2's \<open>unicode\<close> type the program calls: \<open>find\<close>, \<open>rfind\<close>,
  \<open>count\<close>, \<open>replace\<close>, \<open>startswith\<close>, \<open>endswith\<close>, the \<open>strip\<close> family,
  \<open>split\<close>, \<open>join\<close>, \<open>isspace\<close>, \<open>lower\<close>, \<open>upper\<close>, slicing with negative
  bounds; and the part of the Unicode character database that \<open>isalnum\<close>, \<open>lower\<close>,
  \<open>upper\<close> and \<open>unicodedata\<close> read, as a record of functions that agree with ASCII.
\<close>

section \<open>Character classes\<close>

definition is_digit :: "uchar \<Rightarrow> bool" where
  "is_digit c \<longleftrightarrow> 48 \<le> c \<and> c \<le> 57"

definition is_upper :: "uchar \<Rightarrow> bool" where
  "is_upper c \<longleftrightarrow> 65 \<le> c \<and> c \<le> 90"

definition is_lower :: "uchar \<Rightarrow> bool" where
  "is_lower c \<longleftrightarrow> 97 \<le> c \<and> c \<le> 122"

text \<open>\<open>\w\<close> and \<open>\s\<close> of \<open>re\<close> without the UNICODE flag.\<close>

definition is_word :: "uchar \<Rightarrow> bool" where
  "is_word c \<longleftrightarrow> is_digit c \<or> is_upper c \<or> is_lower c \<or> c = 95"

definition is_space :: "uchar \<Rightarrow> bool" where
  "is_space c \<longleftrightarrow> c = 32 \<or> 9 \<le> c \<and> c \<le> 13"

text \<open>White space of \<open>unicode.isspace\<close>, \<open>strip\<close> and \<open>split\<close> (Unicode 5.2, Python 2.7).\<close>

definition is_uspace :: "uchar \<Rightarrow> bool" where
  "is_uspace c \<longleftrightarrow> c = 32 \<or> 9 \<le> c \<and> c \<le> 13 \<or> 28 \<le> c \<and> c \<le> 31 \<or> c = 133 \<or> c = 160
     \<or> c = 5760 \<or> c = 6158 \<or> 8192 \<le> c \<and> c \<le> 8202 \<or> c = 8232 \<or> c = 8233
     \<or> c = 8239 \<or> c = 8287 \<or> c = 12288"

lemma is_space_is_uspace: "is_space c \<Longrightarrow> is_uspace c"
  by (auto simp: is_space_def is_uspace_def)

lemma is_word_not_space: "is_word c \<Longrightarrow> \<not> is_space c"
  by (auto simp: is_word_def is_space_def is_digit_def is_upper_def is_lower_def)

lemma is_word_not_uspace: "is_word c \<Longrightarrow> \<not> is_uspace c"
  by (auto simp: is_word_def is_uspace_def is_digit_def is_upper_def is_lower_def)

lemmas char_class_defs = is_digit_def is_upper_def is_lower_def is_word_def is_space_def

section \<open>The character database\<close>

record ucd =
  uc_alnum :: "uchar \<Rightarrow> bool"
  uc_lower :: "uchar \<Rightarrow> uchar"
  uc_upper :: "uchar \<Rightarrow> uchar"
  uc_nfc :: "ustr \<Rightarrow> ustr"
  uc_wide :: "uchar \<Rightarrow> bool"
  uc_combining :: "uchar \<Rightarrow> bool"

definition ascii_lower :: "uchar \<Rightarrow> uchar" where
  "ascii_lower c = (if is_upper c then c + 32 else c)"

definition ascii_upper :: "uchar \<Rightarrow> uchar" where
  "ascii_upper c = (if is_lower c then c - 32 else c)"

definition is_ascii :: "uchar \<Rightarrow> bool" where
  "is_ascii c \<longleftrightarrow> 0 \<le> c \<and> c < 128"

text \<open>What the Unicode standard fixes for the ASCII range.\<close>

definition ucd_ok :: "ucd \<Rightarrow> bool" where
  "ucd_ok db \<longleftrightarrow>
     (\<forall>c. is_ascii c \<longrightarrow> uc_alnum db c = (is_digit c \<or> is_upper c \<or> is_lower c)
        \<and> uc_lower db c = ascii_lower c \<and> uc_upper db c = ascii_upper c
        \<and> \<not> uc_wide db c \<and> \<not> uc_combining db c)
     \<and> (\<forall>s. list_all is_ascii s \<longrightarrow> uc_nfc db s = s)"

text \<open>A database that knows the ASCII characters only.\<close>

definition ascii_ucd :: ucd where
  "ascii_ucd = \<lparr>uc_alnum = (\<lambda>c. is_digit c \<or> is_upper c \<or> is_lower c),
     uc_lower = ascii_lower, uc_upper = ascii_upper, uc_nfc = (\<lambda>s. s),
     uc_wide = (\<lambda>c. False), uc_combining = (\<lambda>c. False)\<rparr>"

lemma ascii_ucd_ok: "ucd_ok ascii_ucd"
  by (simp add: ucd_ok_def ascii_ucd_def)

section \<open>Prefixes and suffixes\<close>

definition startswith :: "ustr \<Rightarrow> ustr \<Rightarrow> bool" where
  "startswith s p \<longleftrightarrow> take (length p) s = p"

definition endswith :: "ustr \<Rightarrow> ustr \<Rightarrow> bool" where
  "endswith s p \<longleftrightarrow> length p \<le> length s \<and> drop (length s - length p) s = p"

lemma startswith_iff_prefix: "startswith s p \<longleftrightarrow> prefix p s"
  by (metis append_eq_conv_conj append_take_drop_id prefix_def startswith_def)

lemma startswith_iff: "startswith s p \<longleftrightarrow> (\<exists>t. s = p @ t)"
  by (simp add: startswith_iff_prefix prefix_def)

lemma endswith_iff: "endswith s p \<longleftrightarrow> (\<exists>t. s = t @ p)"
proof
  assume "endswith s p"
  then have "s = take (length s - length p) s @ p"
    by (metis append_take_drop_id endswith_def)
  then show "\<exists>t. s = t @ p" ..
qed (auto simp: endswith_def)

lemma startswith_Nil [simp]: "startswith s []"
  by (simp add: startswith_def)

lemma Nil_startswith [simp]: "startswith [] p \<longleftrightarrow> p = []"
  by (auto simp: startswith_def)

lemma startswith_Cons [simp]:
  "startswith (c # s) (d # p) \<longleftrightarrow> c = d \<and> startswith s p"
  by (auto simp: startswith_def)

lemma startswith_append [simp]: "startswith (p @ s) p"
  by (simp add: startswith_def)

lemma endswith_Nil [simp]: "endswith s []"
  by (simp add: endswith_def)

lemma endswith_append [simp]: "endswith (s @ p) p"
  by (simp add: endswith_def)

section \<open>Searching\<close>

fun find_from :: "ustr \<Rightarrow> ustr \<Rightarrow> nat \<Rightarrow> int" where
  "find_from p [] k = (if p = [] then int k else - 1)"
| "find_from p (c # s) k =
     (if startswith (c # s) p then int k else find_from p s (Suc k))"

definition py_find :: "ustr \<Rightarrow> ustr \<Rightarrow> int" where
  "py_find s p = find_from p s 0"

definition clip :: "ustr \<Rightarrow> int \<Rightarrow> nat" where
  "clip s i = (if i < 0 then nat (int (length s) + i) else nat i)"

definition py_find_start :: "ustr \<Rightarrow> ustr \<Rightarrow> int \<Rightarrow> int" where
  "py_find_start s p i =
     (let k = clip s i in if length s < k then - 1 else find_from p (drop k s) k)"

fun rfind_upto :: "ustr \<Rightarrow> ustr \<Rightarrow> nat \<Rightarrow> int" where
  "rfind_upto s p 0 = (if startswith s p then 0 else - 1)"
| "rfind_upto s p (Suc k) =
     (if startswith (drop (Suc k) s) p then int (Suc k) else rfind_upto s p k)"

definition py_rfind :: "ustr \<Rightarrow> ustr \<Rightarrow> int" where
  "py_rfind s p = (if length s < length p then - 1
                   else rfind_upto s p (length s - length p))"

definition contains :: "ustr \<Rightarrow> ustr \<Rightarrow> bool" where
  "contains s p \<longleftrightarrow> py_find s p \<noteq> - 1"

text \<open>\<open>occurs_at s p k\<close>: the string \<open>p\<close> stands at position \<open>k\<close> of \<open>s\<close>.\<close>

definition occurs_at :: "ustr \<Rightarrow> ustr \<Rightarrow> nat \<Rightarrow> bool" where
  "occurs_at s p k \<longleftrightarrow> k \<le> length s \<and> startswith (drop k s) p"

lemma occurs_at_bound: "occurs_at s p k \<Longrightarrow> k + length p \<le> length s"
  by (auto simp: occurs_at_def startswith_iff) (metis le_diff_conv2 length_append length_drop le_add1 add.commute)

lemma occurs_at_iff: "occurs_at s p k \<longleftrightarrow> (\<exists>a b. s = a @ p @ b \<and> length a = k)"
  by (auto simp: occurs_at_def startswith_iff)
    (metis append_take_drop_id length_take min.absorb2)

lemma occurs_at_0: "occurs_at s p 0 \<longleftrightarrow> startswith s p"
  by (simp add: occurs_at_def)

lemma occurs_at_Cons_Suc: "occurs_at (c # s) p (Suc k) \<longleftrightarrow> occurs_at s p k"
  by (simp add: occurs_at_def)

lemma find_from_cases:
  "(find_from p s k = - 1 \<and> (\<forall>j. \<not> occurs_at s p j)) \<or>
   (\<exists>j. find_from p s k = int (k + j) \<and> occurs_at s p j \<and> (\<forall>i < j. \<not> occurs_at s p i))"
proof (induction s arbitrary: k)
  case Nil
  then show ?case by (auto simp: occurs_at_def)
next
  case (Cons c s)
  show ?case
  proof (cases "startswith (c # s) p")
    case True
    then show ?thesis by (auto simp: occurs_at_0 intro!: exI [of _ 0])
  next
    case False
    then have none: "\<not> occurs_at (c # s) p 0" by (simp add: occurs_at_0)
    have step: "occurs_at (c # s) p j \<longleftrightarrow> (\<exists>i. j = Suc i \<and> occurs_at s p i)" for j
      using none by (cases j) (auto simp: occurs_at_Cons_Suc)
    from Cons.IH [of "Suc k"] show ?thesis
    proof
      assume "find_from p s (Suc k) = - 1 \<and> (\<forall>j. \<not> occurs_at s p j)"
      with False step show ?thesis by auto
    next
      assume "\<exists>j. find_from p s (Suc k) = int (Suc k + j) \<and> occurs_at s p j
                \<and> (\<forall>i < j. \<not> occurs_at s p i)"
      then obtain j where j: "find_from p s (Suc k) = int (k + Suc j)" "occurs_at s p j"
        "\<forall>i < j. \<not> occurs_at s p i" by auto
      have "\<forall>i < Suc j. \<not> occurs_at (c # s) p i"
        using j(3) step by (metis Suc_less_eq)
      moreover have "occurs_at (c # s) p (Suc j)"
        using j(2) by (simp add: occurs_at_Cons_Suc)
      ultimately show ?thesis using j(1) False by (intro disjI2 exI [of _ "Suc j"]) simp
    qed
  qed
qed

lemma py_find_cases:
  obtains (none) "py_find s p = - 1" "\<And>j. \<not> occurs_at s p j"
  | (some) j where "py_find s p = int j" "occurs_at s p j" "\<And>i. i < j \<Longrightarrow> \<not> occurs_at s p i"
  using find_from_cases [of p s 0] unfolding py_find_def by auto

lemma py_find_none_iff: "py_find s p = - 1 \<longleftrightarrow> (\<forall>j. \<not> occurs_at s p j)"
  by (cases rule: py_find_cases [of s p]) auto

lemma contains_iff: "contains s p \<longleftrightarrow> (\<exists>a b. s = a @ p @ b)"
  by (auto simp: contains_def py_find_none_iff occurs_at_iff)

lemma py_find_ge: "- 1 \<le> py_find s p"
  by (cases rule: py_find_cases [of s p]) auto

lemma rfind_upto_cases:
  "(rfind_upto s p k = - 1 \<and> (\<forall>j \<le> k. \<not> startswith (drop j s) p)) \<or>
   (\<exists>j \<le> k. rfind_upto s p k = int j \<and> startswith (drop j s) p
      \<and> (\<forall>i. j < i \<longrightarrow> i \<le> k \<longrightarrow> \<not> startswith (drop i s) p))"
proof (induction k)
  case 0
  then show ?case by simp
next
  case (Suc k)
  show ?case
  proof (cases "startswith (drop (Suc k) s) p")
    case True
    then show ?thesis by (intro disjI2 exI [of _ "Suc k"]) simp
  next
    case False
    with Suc.IH show ?thesis by (auto simp: le_Suc_eq)
  qed
qed

lemma py_rfind_cases:
  obtains (none) "py_rfind s p = - 1" "\<And>j. \<not> occurs_at s p j"
  | (some) j where "py_rfind s p = int j" "occurs_at s p j"
      "\<And>i. j < i \<Longrightarrow> \<not> occurs_at s p i"
proof (cases "length s < length p")
  case True
  then have "py_rfind s p = - 1" by (simp add: py_rfind_def)
  moreover have "\<not> occurs_at s p j" for j
    using True occurs_at_bound [of s p j] by auto
  ultimately show ?thesis by (rule none)
next
  case False
  let ?k = "length s - length p"
  have eq: "py_rfind s p = rfind_upto s p ?k" using False by (simp add: py_rfind_def)
  have le: "j \<le> ?k" if "occurs_at s p j" for j
    using occurs_at_bound [OF that] False by linarith
  have sw: "startswith (drop j s) p \<longleftrightarrow> occurs_at s p j" if "j \<le> ?k" for j
    using that by (auto simp: occurs_at_def)
  from rfind_upto_cases [of s p ?k] show ?thesis
  proof
    assume a: "rfind_upto s p ?k = - 1 \<and> (\<forall>j \<le> ?k. \<not> startswith (drop j s) p)"
    have "\<not> occurs_at s p j" for j using a le [of j] by (auto simp: occurs_at_def)
    with a eq show ?thesis by (intro none) auto
  next
    assume "\<exists>j \<le> ?k. rfind_upto s p ?k = int j \<and> startswith (drop j s) p
        \<and> (\<forall>i. j < i \<longrightarrow> i \<le> ?k \<longrightarrow> \<not> startswith (drop i s) p)"
    then obtain j where j: "j \<le> ?k" "rfind_upto s p ?k = int j" "startswith (drop j s) p"
      "\<And>i. j < i \<Longrightarrow> i \<le> ?k \<Longrightarrow> \<not> startswith (drop i s) p" by blast
    have "\<not> occurs_at s p i" if "j < i" for i
      using j(4) [OF that] le [of i] by (auto simp: occurs_at_def)
    with j eq sw show ?thesis by (intro some [of j]) auto
  qed
qed

section \<open>Counting, replacing, stripping\<close>

text \<open>\<open>str.count\<close> of a non-empty needle: occurrences that do not overlap, from the left.\<close>

function py_count :: "ustr \<Rightarrow> ustr \<Rightarrow> nat" where
  "py_count [] p = (if p = [] then 1 else 0)"
| "py_count (c # s) p =
     (if p = [] then Suc (py_count s p)
      else if startswith (c # s) p then Suc (py_count (drop (length p) (c # s)) p)
      else py_count s p)"
  by pat_completeness auto
termination
  by (relation "measure (\<lambda>(s, p). length s)") auto

function py_replace :: "ustr \<Rightarrow> ustr \<Rightarrow> ustr \<Rightarrow> ustr" where
  "py_replace [] p r = (if p = [] then r else [])"
| "py_replace (c # s) p r =
     (if p = [] then r @ c # py_replace s p r
      else if startswith (c # s) p then r @ py_replace (drop (length p) (c # s)) p r
      else c # py_replace s p r)"
  by pat_completeness auto
termination
  by (relation "measure (\<lambda>(s, p, r). length s)") auto

text \<open>A needle of one character: the count is the number of its occurrences.\<close>

lemma py_count_char: "py_count s [c] = count_list s c"
  by (induction s) auto

definition lstrip_of :: "(uchar \<Rightarrow> bool) \<Rightarrow> ustr \<Rightarrow> ustr" where
  "lstrip_of P s = dropWhile P s"

definition rstrip_of :: "(uchar \<Rightarrow> bool) \<Rightarrow> ustr \<Rightarrow> ustr" where
  "rstrip_of P s = rev (dropWhile P (rev s))"

definition py_lstrip :: "ustr \<Rightarrow> ustr" where
  "py_lstrip s = lstrip_of is_uspace s"

definition py_rstrip :: "ustr \<Rightarrow> ustr" where
  "py_rstrip s = rstrip_of is_uspace s"

definition py_strip :: "ustr \<Rightarrow> ustr" where
  "py_strip s = py_rstrip (py_lstrip s)"

lemma rstrip_of_suffix: "\<exists>t. s = rstrip_of P s @ t \<and> list_all P t"
proof -
  have "rev s = takeWhile P (rev s) @ dropWhile P (rev s)" by simp
  then have "s = rev (dropWhile P (rev s)) @ rev (takeWhile P (rev s))"
    by (metis rev_append rev_rev_ident)
  moreover have "list_all P (rev (takeWhile P (rev s)))"
    by (simp add: list_all_takeWhile)
  ultimately show ?thesis unfolding rstrip_of_def by blast
qed

definition isspace :: "ustr \<Rightarrow> bool" where
  "isspace s \<longleftrightarrow> s \<noteq> [] \<and> list_all is_uspace s"

definition py_lower :: "ucd \<Rightarrow> ustr \<Rightarrow> ustr" where
  "py_lower db s = map (uc_lower db) s"

definition py_upper :: "ucd \<Rightarrow> ustr \<Rightarrow> ustr" where
  "py_upper db s = map (uc_upper db) s"

section \<open>Splitting and joining\<close>

text \<open>\<open>s.split(sep)\<close> for a separator of one character.\<close>

fun split_char :: "uchar \<Rightarrow> ustr \<Rightarrow> ustr list" where
  "split_char d [] = [[]]"
| "split_char d (c # s) =
     (if c = d then [] # split_char d s
      else (case split_char d s of [] \<Rightarrow> [[c]] | w # ws \<Rightarrow> (c # w) # ws))"

text \<open>\<open>s.split(sep)\<close> for any non-empty separator.\<close>

function split_on :: "ustr \<Rightarrow> ustr \<Rightarrow> ustr \<Rightarrow> ustr list" where
  "split_on p acc [] = [rev acc]"
| "split_on p acc (c # s) =
     (if p \<noteq> [] \<and> startswith (c # s) p
      then rev acc # split_on p [] (drop (length p) (c # s))
      else split_on p (c # acc) s)"
  by pat_completeness auto
termination
  by (relation "measure (\<lambda>(p, acc, s). length s)") auto

definition py_split :: "ustr \<Rightarrow> ustr \<Rightarrow> ustr list" where
  "py_split s p = split_on p [] s"

text \<open>\<open>s.split()\<close>: the maximal runs of characters that are not white space.\<close>

function py_words :: "ustr \<Rightarrow> ustr list" where
  "py_words s =
     (let t = dropWhile is_uspace s in
      if t = [] then []
      else takeWhile (\<lambda>c. \<not> is_uspace c) t # py_words (dropWhile (\<lambda>c. \<not> is_uspace c) t))"
  by pat_completeness auto
termination
proof (relation "measure length", goal_cases)
  case 1
  show ?case by simp
next
  case (2 s t)
  then have "\<not> is_uspace (hd t)" by (metis hd_dropWhile)
  moreover obtain c r where "t = c # r" using \<open>t \<noteq> []\<close> by (cases t) auto
  ultimately have "t = c # r" "\<not> is_uspace c" by simp_all
  then have "length (dropWhile (\<lambda>c. \<not> is_uspace c) t) \<le> length r"
    by (simp add: length_dropWhile_le)
  moreover have "length t \<le> length s" using 2(1) by (simp add: length_dropWhile_le)
  ultimately show ?case using \<open>t = c # r\<close> by (simp del: dropWhile.simps)
qed

declare py_words.simps [simp del]

fun join :: "ustr \<Rightarrow> ustr list \<Rightarrow> ustr" where
  "join p [] = []"
| "join p [w] = w"
| "join p (w # ws) = w @ p @ join p ws"

lemma split_char_not_Nil [simp]: "split_char d s \<noteq> []"
  by (induction s) (auto split: list.split)

text \<open>Splitting on a character and joining with it gives the string back.\<close>

lemma join_split_char: "join [d] (split_char d s) = s"
proof (induction s)
  case Nil
  show ?case by simp
next
  case (Cons c s)
  obtain w ws where w: "split_char d s = w # ws" by (cases "split_char d s") auto
  with Cons.IH show ?case by (cases ws) auto
qed

lemma split_char_no_sep: "w \<in> set (split_char d s) \<Longrightarrow> d \<notin> set w"
  by (induction s arbitrary: w) (auto split: if_splits list.splits)

lemma last_split_char:
  "last (split_char d s) = [] \<longleftrightarrow> s = [] \<or> last s = d"
proof (induction s)
  case Nil
  show ?case by simp
next
  case (Cons c s)
  obtain w ws where w: "split_char d s = w # ws" by (cases "split_char d s") auto
  show ?case
  proof (cases ws)
    case Nil
    with w Cons.IH show ?thesis
      by (cases s) (auto split: list.splits if_splits)
  next
    case (Cons v vs)
    then have "s \<noteq> []" using w by (cases s) auto
    with w Cons Cons.IH show ?thesis by auto
  qed
qed

section \<open>Indexing and slicing\<close>

text \<open>\<open>s[i]\<close> with Python's negative indices; out of range it raises.\<close>

definition py_index :: "'a list \<Rightarrow> int \<Rightarrow> 'a outcome" where
  "py_index xs i =
     (let n = int (length xs); j = (if i < 0 then n + i else i)
      in if 0 \<le> j \<and> j < n then Ret (xs ! nat j) else Raise IndexError)"

text \<open>A slice bound: negative counts from the end, and it is clipped to the string.\<close>

definition bound :: "'a list \<Rightarrow> int \<Rightarrow> nat" where
  "bound xs i = (if i < 0 then nat (int (length xs) + i) else min (length xs) (nat i))"

definition slice_from :: "'a list \<Rightarrow> int \<Rightarrow> 'a list" where
  "slice_from xs i = drop (bound xs i) xs"

definition slice_to :: "'a list \<Rightarrow> int \<Rightarrow> 'a list" where
  "slice_to xs j = take (bound xs j) xs"

definition slice :: "'a list \<Rightarrow> int \<Rightarrow> int \<Rightarrow> 'a list" where
  "slice xs i j = drop (bound xs i) (take (bound xs j) xs)"

lemma slice_from_nat [simp]: "slice_from xs (int i) = drop i xs"
  by (simp add: slice_from_def bound_def min_def)

lemma slice_to_nat [simp]: "slice_to xs (int i) = take i xs"
  by (simp add: slice_to_def bound_def min_def)

lemma slice_nat [simp]: "slice xs (int i) (int j) = drop i (take j xs)"
  by (auto simp: slice_def bound_def min_def)

lemma py_index_nat [simp]: "i < length xs \<Longrightarrow> py_index xs (int i) = Ret (xs ! i)"
  by (simp add: py_index_def)

lemma py_index_raises [simp]: "length xs \<le> i \<Longrightarrow> py_index xs (int i) = Raise IndexError"
  by (simp add: py_index_def)

end
