(* ===== verification/Regex.thy ===== *)
theory Regex
  imports PyStr
begin

text \<open>
  The regular expressions of Python's \<open>re\<close> module, as far as the program's patterns use
  them: the syntax trees \<open>sre_parse\<close> builds, the backtracking matcher as the list of all
  successful runs in the order the engine tries them, the operations \<open>match\<close>,
  \<open>search\<close>, \<open>findall\<close>, \<open>sub\<close> and \<open>split\<close>; and two reference meanings, the
  spans a tree can match and, for trees without context, its regular language.
\<close>

section \<open>Syntax trees\<close>

datatype catg = Digit | NotDigit | Space | NotSpace | Word | NotWord

datatype citem = CLit uchar | CRange uchar uchar | CCat catg

datatype re =
    REps
  | RSet bool "citem list"            \<comment> \<open>a character class; \<open>True\<close>: negated\<close>
  | RAny
  | RBol
  | REol
  | RWordB
  | RSeq re re
  | RAlt re re
  | RGroup nat re
  | RBack nat
  | RRep nat "nat option" bool re     \<comment> \<open>least, most, greedy, body\<close>
  | RLook bool re                     \<comment> \<open>lookahead; \<open>False\<close>: negative\<close>

record rflags =
  f_icase :: bool
  f_mline :: bool

abbreviation no_flags :: rflags where
  "no_flags \<equiv> \<lparr>f_icase = False, f_mline = False\<rparr>"

type_synonym cre = "rflags \<times> re"

abbreviation RLit :: "uchar \<Rightarrow> re" where
  "RLit c \<equiv> RSet False [CLit c]"

abbreviation RStar :: "re \<Rightarrow> re" where
  "RStar r \<equiv> RRep 0 None True r"

abbreviation RPlus :: "re \<Rightarrow> re" where
  "RPlus r \<equiv> RRep 1 None True r"

abbreviation ROpt :: "re \<Rightarrow> re" where
  "ROpt r \<equiv> RRep 0 (Some 1) True r"

section \<open>Characters against classes\<close>

fun cat_match :: "catg \<Rightarrow> uchar \<Rightarrow> bool" where
  "cat_match Digit c = is_digit c"
| "cat_match NotDigit c = (\<not> is_digit c)"
| "cat_match Space c = is_space c"
| "cat_match NotSpace c = (\<not> is_space c)"
| "cat_match Word c = is_word c"
| "cat_match NotWord c = (\<not> is_word c)"

fun item_match :: "citem \<Rightarrow> uchar \<Rightarrow> bool" where
  "item_match (CLit d) c = (c = d)"
| "item_match (CRange a b) c = (a \<le> c \<and> c \<le> b)"
| "item_match (CCat k) c = cat_match k c"

definition set_match :: "rflags \<Rightarrow> bool \<Rightarrow> citem list \<Rightarrow> uchar \<Rightarrow> bool" where
  "set_match fl neg its c \<longleftrightarrow>
     neg \<noteq> list_ex (\<lambda>it. item_match it c
       \<or> f_icase fl \<and> (item_match it (ascii_lower c) \<or> item_match it (ascii_upper c))) its"

definition word_boundary :: "ustr \<Rightarrow> nat \<Rightarrow> bool" where
  "word_boundary s i \<longleftrightarrow>
     (0 < i \<and> is_word (s ! (i - 1))) \<noteq> (i < length s \<and> is_word (s ! i))"

definition at_bol :: "rflags \<Rightarrow> ustr \<Rightarrow> nat \<Rightarrow> bool" where
  "at_bol fl s i \<longleftrightarrow> i = 0 \<or> f_mline fl \<and> s ! (i - 1) = 10"

definition at_eol :: "rflags \<Rightarrow> ustr \<Rightarrow> nat \<Rightarrow> bool" where
  "at_eol fl s i \<longleftrightarrow> i = length s \<or> Suc i = length s \<and> s ! i = 10
     \<or> f_mline fl \<and> i < length s \<and> s ! i = 10"

section \<open>The backtracking matcher\<close>

text \<open>
  A matcher state is a position and the spans of the groups set so far. \<open>runs fl s r st\<close>
  lists the states in which \<open>r\<close> can end when it starts in \<open>st\<close>, in the order in which
  the engine backtracks through them: the first is the one \<open>match\<close> takes.
\<close>

type_synonym groups = "nat \<Rightarrow> (nat \<times> nat) option"
type_synonym mst = "nat \<times> groups"

fun run_exactly :: "nat \<Rightarrow> (mst \<Rightarrow> mst list) \<Rightarrow> mst \<Rightarrow> mst list" where
  "run_exactly 0 f st = [st]"
| "run_exactly (Suc n) f st = concat (map (run_exactly n f) (f st))"

text \<open>
  Up to \<open>n\<close> more iterations. An iteration that consumed nothing is the last one
  (\<open>state->ptr != last_ptr\<close> in \<open>_sre.c\<close>).
\<close>

fun run_upto :: "nat \<Rightarrow> bool \<Rightarrow> (mst \<Rightarrow> mst list) \<Rightarrow> mst \<Rightarrow> mst list" where
  "run_upto 0 greedy f st = [st]"
| "run_upto (Suc n) greedy f st =
     (let more = concat (map (\<lambda>t. if fst t = fst st then [t] else run_upto n greedy f t) (f st))
      in if greedy then more @ [st] else st # more)"

definition iter_fuel :: "ustr \<Rightarrow> nat \<Rightarrow> nat option \<Rightarrow> mst \<Rightarrow> nat" where
  "iter_fuel s lo hi st =
     (case hi of None \<Rightarrow> Suc (length s - fst st)
      | Some h \<Rightarrow> min (h - lo) (Suc (length s - fst st)))"

primrec runs :: "rflags \<Rightarrow> ustr \<Rightarrow> re \<Rightarrow> mst \<Rightarrow> mst list" where
  "runs fl s REps st = [st]"
| "runs fl s (RSet neg its) st =
     (if fst st < length s \<and> set_match fl neg its (s ! fst st)
      then [(Suc (fst st), snd st)] else [])"
| "runs fl s RAny st =
     (if fst st < length s \<and> s ! fst st \<noteq> 10 then [(Suc (fst st), snd st)] else [])"
| "runs fl s RBol st = (if at_bol fl s (fst st) then [st] else [])"
| "runs fl s REol st = (if at_eol fl s (fst st) then [st] else [])"
| "runs fl s RWordB st = (if word_boundary s (fst st) then [st] else [])"
| "runs fl s (RSeq a b) st = concat (map (runs fl s b) (runs fl s a st))"
| "runs fl s (RAlt a b) st = runs fl s a st @ runs fl s b st"
| "runs fl s (RGroup n r) st =
     map (\<lambda>t. (fst t, (snd t)(n := Some (fst st, fst t)))) (runs fl s r st)"
| "runs fl s (RBack n) st =
     (case snd st n of None \<Rightarrow> []
      | Some (a, b) \<Rightarrow>
          (let w = drop a (take b s) in
           if startswith (drop (fst st) s) w then [(fst st + length w, snd st)] else []))"
| "runs fl s (RRep lo hi greedy r) st =
     concat (map (\<lambda>t. run_upto (iter_fuel s lo hi t) greedy (runs fl s r) t)
       (run_exactly lo (runs fl s r) st))"
| "runs fl s (RLook pos r) st =
     (case runs fl s r st of
        [] \<Rightarrow> (if pos then [] else [st])
      | t # _ \<Rightarrow> (if pos then [(fst st, snd t)] else []))"

section \<open>Match objects and the operations of the module\<close>

record mobj =
  mo_text :: ustr
  mo_start :: nat
  mo_end :: nat
  mo_groups :: groups

definition mk_mobj :: "ustr \<Rightarrow> nat \<Rightarrow> mst \<Rightarrow> mobj" where
  "mk_mobj s i st = \<lparr>mo_text = s, mo_start = i, mo_end = fst st, mo_groups = snd st\<rparr>"

text \<open>\<open>m.group(n)\<close>: None for a group that took no part in the match.\<close>

definition group :: "mobj \<Rightarrow> nat \<Rightarrow> ustr option" where
  "group m n =
     (if n = 0 then Some (drop (mo_start m) (take (mo_end m) (mo_text m)))
      else map_option (\<lambda>(a, b). drop a (take b (mo_text m))) (mo_groups m n))"

text \<open>A group of which the pattern is known to have set it; \<open>''\<close> stands for the error case.\<close>

definition group_str :: "mobj \<Rightarrow> nat \<Rightarrow> ustr" where
  "group_str m n = (case group m n of Some w \<Rightarrow> w | None \<Rightarrow> [])"

definition match_at :: "cre \<Rightarrow> ustr \<Rightarrow> nat \<Rightarrow> mobj option" where
  "match_at p s i =
     (case runs (fst p) s (snd p) (i, Map.empty) of
        [] \<Rightarrow> None | st # _ \<Rightarrow> Some (mk_mobj s i st))"

definition re_match :: "cre \<Rightarrow> ustr \<Rightarrow> mobj option" where
  "re_match p s = match_at p s 0"

text \<open>
  The first success of a partial function from \<open>i\<close> on, over \<open>n\<close> positions; and the
  successive successes of a scan: after an empty match it moves on by one character, after
  any other to the end of the match.
\<close>

fun first_hit :: "(nat \<Rightarrow> 'm option) \<Rightarrow> nat \<Rightarrow> nat \<Rightarrow> 'm option" where
  "first_hit at i 0 = None"
| "first_hit at i (Suc n) =
     (case at i of Some m \<Rightarrow> Some m | None \<Rightarrow> first_hit at (Suc i) n)"

definition search_from :: "cre \<Rightarrow> ustr \<Rightarrow> nat \<Rightarrow> mobj option" where
  "search_from p s i = first_hit (match_at p s) i (Suc (length s) - i)"

definition re_search :: "cre \<Rightarrow> ustr \<Rightarrow> mobj option" where
  "re_search p s = search_from p s 0"

definition resume :: "mobj \<Rightarrow> nat" where
  "resume m = (if mo_end m = mo_start m then Suc (mo_end m) else mo_end m)"

fun scan :: "nat \<Rightarrow> (nat \<Rightarrow> 'm option) \<Rightarrow> ('m \<Rightarrow> nat) \<Rightarrow> nat \<Rightarrow> 'm list" where
  "scan 0 next res i = []"
| "scan (Suc n) next res i =
     (case next i of None \<Rightarrow> [] | Some m \<Rightarrow> m # scan n next res (res m))"

definition finditer :: "cre \<Rightarrow> ustr \<Rightarrow> mobj list" where
  "finditer p s = scan (Suc (Suc (length s))) (search_from p s) resume 0"

text \<open>\<open>re.sub\<close> with a constant replacement; an empty match right after another is ignored.\<close>

fun sub_loop :: "ustr \<Rightarrow> ustr \<Rightarrow> nat \<Rightarrow> bool \<Rightarrow> mobj list \<Rightarrow> ustr" where
  "sub_loop r s i again [] = drop i s"
| "sub_loop r s i again (m # ms) =
     drop i (take (mo_start m) s) @
     (if i = mo_start m \<and> i = mo_end m \<and> again then sub_loop r s i again ms
      else r @ sub_loop r s (mo_end m) True ms)"

definition re_sub :: "cre \<Rightarrow> ustr \<Rightarrow> ustr \<Rightarrow> ustr" where
  "re_sub p r s = sub_loop r s 0 False (finditer p s)"

text \<open>\<open>re.split\<close> of a pattern without groups: only matches that are not empty split.\<close>

fun split_loop :: "ustr \<Rightarrow> nat \<Rightarrow> mobj list \<Rightarrow> ustr list" where
  "split_loop s i [] = [drop i s]"
| "split_loop s i (m # ms) =
     (if mo_end m = mo_start m then split_loop s i ms
      else drop i (take (mo_start m) s) # split_loop s (mo_end m) ms)"

definition re_split :: "cre \<Rightarrow> ustr \<Rightarrow> ustr list" where
  "re_split p s = split_loop s 0 (finditer p s)"

end
