(* ===== verification/ReParse.thy ===== *)
theory ReParse
  imports Regex
begin

text \<open>
  From a pattern string to its tree: the part of \<open>sre_parse\<close> (Python 2.7) that the
  patterns of the program use, as a recursive descent over the pattern. A pattern the
  parser rejects (\<open>sre_constants.error\<close>), or that uses a construct outside this part
  (octal and hexadecimal escapes, named groups, lookbehind), has no tree. Each recursive
  call spends one unit of fuel; every call but the entry of a group consumes a character,
  so the fuel \<open>re_compile\<close> provides is never used up, and that each pattern of the
  program compiles is proved where it is used.
\<close>

record pst =
  p_rest :: ustr
  p_groups :: nat
  p_icase :: bool

text \<open>An item of a sequence, with whether a repetition may follow it.\<close>

type_synonym item = "bool \<times> re"

fun seq_of :: "item list \<Rightarrow> re" where
  "seq_of [] = REps"
| "seq_of [(b, r)] = r"
| "seq_of ((b, r) # rs) = RSeq r (seq_of rs)"

definition cat_of :: "uchar \<Rightarrow> catg option" where
  "cat_of c =
     (if c = 100 then Some Digit else if c = 68 then Some NotDigit
      else if c = 115 then Some Space else if c = 83 then Some NotSpace
      else if c = 119 then Some Word else if c = 87 then Some NotWord else None)"

definition control_of :: "uchar \<Rightarrow> uchar option" where
  "control_of c =
     (if c = 97 then Some 7 else if c = 102 then Some 12 else if c = 110 then Some 10
      else if c = 114 then Some 13 else if c = 116 then Some 9 else if c = 118 then Some 11
      else None)"

text \<open>The character after a backslash inside a character class.\<close>

definition class_escape :: "uchar \<Rightarrow> citem option" where
  "class_escape c =
     (case cat_of c of Some k \<Rightarrow> Some (CCat k)
      | None \<Rightarrow>
        (case control_of c of Some d \<Rightarrow> Some (CLit d)
         | None \<Rightarrow> if c = 98 then Some (CLit 8)
                   else if c = 120 \<or> is_digit c then None
                   else Some (CLit c)))"

text \<open>One member of a class, a character or an escape.\<close>

definition class_member :: "ustr \<Rightarrow> (citem \<times> ustr) option" where
  "class_member s =
     (case s of
        [] \<Rightarrow> None
      | c # cs \<Rightarrow>
          if c = 92 then
            (case cs of [] \<Rightarrow> None
             | d # ds \<Rightarrow> map_option (\<lambda>it. (it, ds)) (class_escape d))
          else Some (CLit c, cs))"

text \<open>\<open>source.match(c)\<close>: eat a prefix if it is there.\<close>

definition eat :: "ustr \<Rightarrow> ustr \<Rightarrow> ustr option" where
  "eat p s = (if startswith s p then Some (drop (length p) s) else None)"

text \<open>The members up to the closing bracket; \<open>first\<close>: a bracket here is a member.\<close>

fun class_items :: "nat \<Rightarrow> bool \<Rightarrow> ustr \<Rightarrow> (citem list \<times> ustr) option" where
  "class_items 0 first s = None"
| "class_items (Suc n) first s =
     (case (if first then None else eat (u '']'') s) of
        Some cs \<Rightarrow> Some ([], cs)
      | None \<Rightarrow>
          (case class_member s of
             None \<Rightarrow> None
           | Some (it, rest) \<Rightarrow>
               (case eat (u ''-'') rest of
                  None \<Rightarrow> map_option (apfst ((#) it)) (class_items n False rest)
                | Some ds \<Rightarrow>
                    (case eat (u '']'') ds of
                       Some rest' \<Rightarrow> Some ([it, CLit 45], rest')
                     | None \<Rightarrow>
                         (case (it, class_member ds) of
                            (CLit lo, Some (CLit hi, rest')) \<Rightarrow>
                              if hi < lo then None
                              else map_option (apfst ((#) (CRange lo hi)))
                                (class_items n False rest')
                          | _ \<Rightarrow> None)))))"

definition parse_class :: "ustr \<Rightarrow> (re \<times> ustr) option" where
  "parse_class s =
     (case eat (u ''^'') s of
        Some cs \<Rightarrow> map_option (apfst (RSet True)) (class_items (length s) True cs)
      | None \<Rightarrow> map_option (apfst (RSet False)) (class_items (Suc (length s)) True s))"

definition take_number :: "ustr \<Rightarrow> nat option \<times> ustr" where
  "take_number s =
     (let ds = takeWhile is_digit s in
      (if ds = [] then None else Some (fold (\<lambda>d n. 10 * n + nat (d - 48)) ds 0),
       dropWhile is_digit s))"

text \<open>
  The bounds after an opening brace and the rest, \<open>None\<close> when the brace is a literal:
  \<open>source.seek(here)\<close> in \<open>sre_parse\<close>.
\<close>

definition braces :: "ustr \<Rightarrow> ((nat \<times> nat option) \<times> ustr) option" where
  "braces s =
     (if startswith s (u ''}'') then None
      else
        (let (lo, r1) = take_number s;
             (hi, r2) = (case eat (u '','') r1 of Some r \<Rightarrow> take_number r | None \<Rightarrow> (lo, r1))
         in map_option (Pair (case lo of None \<Rightarrow> 0 | Some l \<Rightarrow> l, hi)) (eat (u ''}'') r2)))"

text \<open>A repetition of the last item, greedy unless a question mark follows.\<close>

definition repeat :: "item list \<Rightarrow> nat \<Rightarrow> nat option \<Rightarrow> ustr \<Rightarrow> (item list \<times> ustr) option" where
  "repeat acc lo hi s =
     (case acc of
        [] \<Rightarrow> None
      | (may, r) # rs \<Rightarrow>
          if \<not> may \<or> (case hi of None \<Rightarrow> False | Some h \<Rightarrow> h < lo) then None
          else
            (case eat (u ''?'') s of
               Some t \<Rightarrow> Some ((False, RRep lo hi False r) # rs, t)
             | None \<Rightarrow> Some ((False, RRep lo hi True r) # rs, s)))"

definition escape_item :: "nat \<Rightarrow> uchar \<Rightarrow> ustr \<Rightarrow> item option" where
  "escape_item groups c rest =
     (if c = 98 then Some (False, RWordB)
      else
        (case cat_of c of
           Some k \<Rightarrow> Some (True, RSet False [CCat k])
         | None \<Rightarrow>
             (case control_of c of
                Some d \<Rightarrow> Some (True, RLit d)
              | None \<Rightarrow>
                  if is_digit c then
                    (if c = 48 \<or> groups \<le> nat (c - 48) \<or> (rest \<noteq> [] \<and> is_digit (hd rest)) then None
                     else Some (True, RBack (nat (c - 48))))
                  else if c = 65 \<or> c = 66 \<or> c = 90 \<or> c = 120 then None
                  else Some (True, RLit c))))"

fun parse_alt :: "nat \<Rightarrow> bool \<Rightarrow> pst \<Rightarrow> (re \<times> pst) option"
  and parse_seq :: "nat \<Rightarrow> bool \<Rightarrow> item list \<Rightarrow> pst \<Rightarrow> (re \<times> pst) option"
  and parse_group :: "nat \<Rightarrow> bool \<Rightarrow> item list \<Rightarrow> pst \<Rightarrow> (re \<times> pst) option" where
  "parse_alt 0 vb st = None"
| "parse_alt (Suc n) vb st =
     (case parse_seq n vb [] st of
        None \<Rightarrow> None
      | Some (r, st1) \<Rightarrow>
          (case eat (u ''|'') (p_rest st1) of
             Some cs \<Rightarrow>
               (case parse_alt n vb (st1\<lparr>p_rest := cs\<rparr>) of
                  None \<Rightarrow> None
                | Some (r2, st2) \<Rightarrow> Some (RAlt r r2, st2))
           | None \<Rightarrow> Some (r, st1)))"
| "parse_seq 0 vb acc st = None"
| "parse_seq (Suc n) vb acc st =
     (case p_rest st of
        [] \<Rightarrow> Some (seq_of (rev acc), st)
      | c # cs \<Rightarrow>
          let st1 = st\<lparr>p_rest := cs\<rparr>;
              again = (\<lambda>rp. case rp of None \<Rightarrow> None
                        | Some (acc', rest) \<Rightarrow> parse_seq n vb acc' (st\<lparr>p_rest := rest\<rparr>));
              push = (\<lambda>r. parse_seq n vb (r # acc) st1) in
          if c = 124 \<or> c = 41 then Some (seq_of (rev acc), st)
          else if vb \<and> is_space c then parse_seq n vb acc st1
          else if vb \<and> c = 35 then None
          else if c = 91 then again (map_option (apfst (\<lambda>r. (True, r) # acc)) (parse_class cs))
          else if c = 42 then again (repeat acc 0 None cs)
          else if c = 43 then again (repeat acc 1 None cs)
          else if c = 63 then again (repeat acc 0 (Some 1) cs)
          else if c = 123 then
            (case braces cs of
               None \<Rightarrow> push (True, RLit 123)
             | Some ((lo, hi), rest) \<Rightarrow> again (repeat acc lo hi rest))
          else if c = 46 then push (True, RAny)
          else if c = 94 then push (False, RBol)
          else if c = 36 then push (False, REol)
          else if c = 92 then
            (case cs of
               [] \<Rightarrow> None
             | d # ds \<Rightarrow>
                 (case escape_item (p_groups st) d ds of
                    None \<Rightarrow> None
                  | Some it \<Rightarrow> parse_seq n vb (it # acc) (st\<lparr>p_rest := ds\<rparr>)))
          else if c = 40 then parse_group n vb acc st1
          else push (True, RLit c))"
| "parse_group 0 vb acc st = None"
| "parse_group (Suc n) vb acc st =
     (let close = (\<lambda>st0 f.
            case parse_alt n vb st0 of
              None \<Rightarrow> None
            | Some (r, st1) \<Rightarrow>
                (case eat (u '')'') (p_rest st1) of
                   Some cs \<Rightarrow> parse_seq n vb ((True, f r) # acc) (st1\<lparr>p_rest := cs\<rparr>)
                 | None \<Rightarrow> None));
          s = p_rest st in
      if startswith s (u ''?:'') then close (st\<lparr>p_rest := drop 2 s\<rparr>) (\<lambda>r. r)
      else if startswith s (u ''?='') then close (st\<lparr>p_rest := drop 2 s\<rparr>) (RLook True)
      else if startswith s (u ''?!'') then close (st\<lparr>p_rest := drop 2 s\<rparr>) (RLook False)
      else if startswith s (u ''?i)'') then
        parse_seq n vb acc (st\<lparr>p_rest := drop 3 s, p_icase := True\<rparr>)
      else if startswith s (u ''?'') then None
      else close (st\<lparr>p_groups := Suc (p_groups st)\<rparr>) (RGroup (p_groups st)))"

text \<open>\<open>re.compile(pattern, flags)\<close> for the flags VERBOSE, IGNORECASE and MULTILINE.\<close>

definition re_compile :: "bool \<Rightarrow> bool \<Rightarrow> bool \<Rightarrow> ustr \<Rightarrow> cre option" where
  "re_compile verbose icase mline pattern =
     (case parse_alt (3 * length pattern + 3) verbose
         \<lparr>p_rest = pattern, p_groups = 1, p_icase = icase\<rparr> of
        None \<Rightarrow> None
      | Some (r, st) \<Rightarrow>
          if p_rest st = [] then Some (\<lparr>f_icase = p_icase st, f_mline = mline\<rparr>, r) else None)"

end
