(* ===== verification/RegexSem.thy ===== *)
theory RegexSem
  imports Regex
begin

text \<open>
  What the backtracking matcher computes. The spans of a tree are the pairs of positions a
  run can start and end at, given without an order of trial; for trees that look at nothing
  but the text they consume, a span is a slice of the text in the tree's regular language.
  The interface \<open>scanner\<close> collects what the operations of the module need of a matcher.
\<close>

section \<open>Bounds\<close>

definition in_bounds :: "ustr \<Rightarrow> (mst \<Rightarrow> mst list) \<Rightarrow> bool" where
  "in_bounds s f \<longleftrightarrow>
     (\<forall>st t. fst st \<le> length s \<longrightarrow> t \<in> set (f st) \<longrightarrow> fst st \<le> fst t \<and> fst t \<le> length s)"

lemma in_boundsD:
  "in_bounds s f \<Longrightarrow> fst st \<le> length s \<Longrightarrow> t \<in> set (f st) \<Longrightarrow> fst st \<le> fst t \<and> fst t \<le> length s"
  unfolding in_bounds_def by blast

lemma in_boundsI:
  assumes "\<And>st t. fst st \<le> length s \<Longrightarrow> t \<in> set (f st) \<Longrightarrow> fst st \<le> fst t \<and> fst t \<le> length s"
  shows "in_bounds s f"
  using assms unfolding in_bounds_def by blast

lemma in_bounds_trans:
  assumes "in_bounds s f" "in_bounds s g"
    and "fst st \<le> length s" "w \<in> set (f st)" "t \<in> set (g w)"
  shows "fst st \<le> fst t \<and> fst t \<le> length s"
proof -
  have w: "fst st \<le> fst w" "fst w \<le> length s" using in_boundsD [OF assms(1,3,4)] by auto
  have "fst w \<le> fst t" "fst t \<le> length s" using in_boundsD [OF assms(2) w(2) assms(5)] by auto
  with w show ?thesis by simp
qed

lemma in_bounds_comp:
  assumes "in_bounds s f" and "\<And>t. in_bounds s (g t)"
  shows "in_bounds s (\<lambda>st. concat (map (\<lambda>t. g t t) (f st)))"
proof (rule in_boundsI)
  fix st t assume le: "fst st \<le> length s" and "t \<in> set (concat (map (\<lambda>t. g t t) (f st)))"
  then obtain w where w: "w \<in> set (f st)" "t \<in> set (g w w)" by auto
  show "fst st \<le> fst t \<and> fst t \<le> length s"
    by (rule in_bounds_trans [OF assms(1) assms(2) [of w] le w])
qed

lemma in_bounds_exactly: "in_bounds s f \<Longrightarrow> in_bounds s (run_exactly n f)"
proof (induction n)
  case 0
  show ?case by (rule in_boundsI) simp
next
  case (Suc n)
  have eq: "run_exactly (Suc n) f = (\<lambda>st. concat (map (\<lambda>t. run_exactly n f t) (f st)))"
    by (rule ext) simp
  show ?case unfolding eq
    by (rule in_bounds_comp [OF Suc.prems, of "\<lambda>_. run_exactly n f"]) (rule Suc.IH [OF Suc.prems])
qed

lemma mem_concat_map: "t \<in> set (concat (map g xs)) \<longleftrightarrow> (\<exists>w \<in> set xs. t \<in> set (g w))"
  by simp

lemma run_upto_mem:
  "t \<in> set (run_upto (Suc n) greedy f st) \<longleftrightarrow>
     t = st \<or> (\<exists>w \<in> set (f st). if fst w = fst st then t = w else t \<in> set (run_upto n greedy f w))"
proof -
  let ?g = "\<lambda>w. if fst w = fst st then [w] else run_upto n greedy f w"
  have "t \<in> set (run_upto (Suc n) greedy f st) \<longleftrightarrow> t = st \<or> (\<exists>w \<in> set (f st). t \<in> set (?g w))"
    unfolding run_upto.simps Let_def
    by (cases greedy) (simp_all only: if_True if_False set_append Un_iff mem_concat_map
        list.set insert_iff empty_iff simp_thms disj_commute)
  also have "\<dots> \<longleftrightarrow> t = st \<or> (\<exists>w \<in> set (f st).
      if fst w = fst st then t = w else t \<in> set (run_upto n greedy f w))"
    by (intro arg_cong2 [of _ _ _ _ "(\<or>)"] bex_cong refl) simp
  finally show ?thesis .
qed

declare run_upto.simps(2) [simp del]

lemma in_bounds_upto: "in_bounds s f \<Longrightarrow> in_bounds s (run_upto n greedy f)"
proof (induction n)
  case 0
  show ?case by (rule in_boundsI) simp
next
  case (Suc n)
  then have IH: "in_bounds s (run_upto n greedy f)" by simp
  show ?case
  proof (rule in_boundsI)
    fix st t assume le: "fst st \<le> length s" and t: "t \<in> set (run_upto (Suc n) greedy f st)"
    from t consider "t = st" | "t \<in> set (f st)"
      | w where "w \<in> set (f st)" "t \<in> set (run_upto n greedy f w)"
      unfolding run_upto_mem by (metis (full_types))
    then show "fst st \<le> fst t \<and> fst t \<le> length s"
    proof cases
      case 1
      with le show ?thesis by simp
    next
      case 2
      then show ?thesis by (rule in_boundsD [OF Suc.prems le])
    next
      case 3
      then show ?thesis by (rule in_bounds_trans [OF Suc.prems IH le])
    qed
  qed
qed

lemma runs_in_bounds: "in_bounds s (runs fl s r)"
proof (induction r)
  case (RSeq a b)
  have eq: "runs fl s (RSeq a b) = (\<lambda>st. concat (map (\<lambda>t. runs fl s b t) (runs fl s a st)))"
    by (rule ext) simp
  show ?case unfolding eq
    by (rule in_bounds_comp [OF RSeq.IH(1), of "\<lambda>_. runs fl s b"]) (rule RSeq.IH(2))
next
  case (RAlt a b)
  show ?case
  proof (rule in_boundsI)
    fix st t assume le: "fst st \<le> length s" and "t \<in> set (runs fl s (RAlt a b) st)"
    then consider "t \<in> set (runs fl s a st)" | "t \<in> set (runs fl s b st)" by auto
    then show "fst st \<le> fst t \<and> fst t \<le> length s"
      by cases (rule in_boundsD [OF RAlt.IH(1) le] in_boundsD [OF RAlt.IH(2) le], assumption)+
  qed
next
  case (RGroup n r)
  show ?case
  proof (rule in_boundsI)
    fix st t assume le: "fst st \<le> length s" and "t \<in> set (runs fl s (RGroup n r) st)"
    then obtain w where "w \<in> set (runs fl s r st)" "fst t = fst w" by auto
    then show "fst st \<le> fst t \<and> fst t \<le> length s"
      using in_boundsD [OF RGroup.IH le] by simp
  qed
next
  case (RBack n)
  show ?case
  proof (rule in_boundsI)
    fix st t assume le: "fst st \<le> length s" and t: "t \<in> set (runs fl s (RBack n) st)"
    from t obtain w where w: "startswith (drop (fst st) s) w" "fst t = fst st + length w"
      by (auto simp: Let_def split: option.splits if_splits prod.splits)
    then have "length w \<le> length s - fst st"
      using occurs_at_bound [of "drop (fst st) s" w 0] by (simp add: occurs_at_0)
    with w(2) le show "fst st \<le> fst t \<and> fst t \<le> length s" by simp
  qed
next
  case (RRep lo hi greedy r)
  have eq: "runs fl s (RRep lo hi greedy r) = (\<lambda>st. concat (map
      (\<lambda>t. run_upto (iter_fuel s lo hi t) greedy (runs fl s r) t) (run_exactly lo (runs fl s r) st)))"
    by (rule ext) simp
  show ?case unfolding eq
    by (rule in_bounds_comp [OF in_bounds_exactly [OF RRep.IH],
          of "\<lambda>t. run_upto (iter_fuel s lo hi t) greedy (runs fl s r)"])
      (rule in_bounds_upto [OF RRep.IH])
next
  case (RLook pos r)
  show ?case by (rule in_boundsI) (auto split: list.splits if_splits)
qed (rule in_boundsI, auto split: if_splits)+

lemma runs_bounds:
  "t \<in> set (runs fl s r st) \<Longrightarrow> fst st \<le> length s \<Longrightarrow> fst st \<le> fst t \<and> fst t \<le> length s"
  using in_boundsD [OF runs_in_bounds] by blast

section \<open>Spans\<close>

primrec no_back :: "re \<Rightarrow> bool" where
  "no_back REps = True"
| "no_back (RSet neg its) = True"
| "no_back RAny = True"
| "no_back RBol = True"
| "no_back REol = True"
| "no_back RWordB = True"
| "no_back (RSeq a b) = (no_back a \<and> no_back b)"
| "no_back (RAlt a b) = (no_back a \<and> no_back b)"
| "no_back (RGroup n r) = no_back r"
| "no_back (RBack n) = False"
| "no_back (RRep lo hi greedy r) = no_back r"
| "no_back (RLook pos r) = no_back r"

definition count_ok :: "nat \<Rightarrow> nat option \<Rightarrow> nat \<Rightarrow> bool" where
  "count_ok lo hi n \<longleftrightarrow> lo \<le> n \<and> (case hi of None \<Rightarrow> True | Some h \<Rightarrow> n \<le> max lo h)"

primrec spans :: "rflags \<Rightarrow> ustr \<Rightarrow> re \<Rightarrow> (nat \<times> nat) set" where
  "spans fl s REps = Id"
| "spans fl s (RSet neg its) = {(i, j). j = Suc i \<and> i < length s \<and> set_match fl neg its (s ! i)}"
| "spans fl s RAny = {(i, j). j = Suc i \<and> i < length s \<and> s ! i \<noteq> 10}"
| "spans fl s RBol = {(i, j). j = i \<and> at_bol fl s i}"
| "spans fl s REol = {(i, j). j = i \<and> at_eol fl s i}"
| "spans fl s RWordB = {(i, j). j = i \<and> word_boundary s i}"
| "spans fl s (RSeq a b) = spans fl s a O spans fl s b"
| "spans fl s (RAlt a b) = spans fl s a \<union> spans fl s b"
| "spans fl s (RGroup n r) = spans fl s r"
| "spans fl s (RBack n) = {}"
| "spans fl s (RRep lo hi greedy r) = (\<Union>n \<in> {n. count_ok lo hi n}. spans fl s r ^^ n)"
| "spans fl s (RLook pos r) = {(i, j). j = i \<and> (i \<in> Domain (spans fl s r)) = pos}"

text \<open>A run function computes a relation when its end positions are the relation's image.\<close>

definition computes :: "ustr \<Rightarrow> (mst \<Rightarrow> mst list) \<Rightarrow> (nat \<times> nat) set \<Rightarrow> bool" where
  "computes s f R \<longleftrightarrow>
     (\<forall>st j. fst st \<le> length s \<longrightarrow> ((fst st, j) \<in> R) =  (\<exists>t \<in> set (f st). fst t = j))"

lemma computesD:
  "computes s f R \<Longrightarrow> fst st \<le> length s \<Longrightarrow> (fst st, j) \<in> R \<longleftrightarrow> (\<exists>t \<in> set (f st). fst t = j)"
  unfolding computes_def by blast

lemma computesI:
  assumes "\<And>st j. fst st \<le> length s \<Longrightarrow> (fst st, j) \<in> R \<longleftrightarrow> (\<exists>t \<in> set (f st). fst t = j)"
  shows "computes s f R"
  unfolding computes_def using assms by blast

lemma computes_comp:
  assumes f: "computes s f R" and bf: "in_bounds s f" and g: "\<And>t. computes s (g t) P"
  shows "computes s (\<lambda>st. concat (map (\<lambda>t. g t t) (f st))) (R O P)"
proof (rule computesI)
  fix st :: mst and j assume le: "fst st \<le> length s"
  have "(\<exists>t \<in> set (concat (map (\<lambda>t. g t t) (f st))). fst t = j) \<longleftrightarrow>
        (\<exists>w \<in> set (f st). \<exists>t \<in> set (g w w). fst t = j)" by auto
  also have "\<dots> \<longleftrightarrow> (\<exists>w \<in> set (f st). (fst w, j) \<in> P)"
  proof (rule bex_cong [OF refl])
    fix w assume "w \<in> set (f st)"
    then have "fst w \<le> length s" using in_boundsD [OF bf le] by blast
    then show "(\<exists>t \<in> set (g w w). fst t = j) \<longleftrightarrow> (fst w, j) \<in> P"
      using computesD [OF g] by blast
  qed
  also have "\<dots> \<longleftrightarrow> (\<exists>k. (fst st, k) \<in> R \<and> (k, j) \<in> P)"
    by (simp add: computesD [OF f le]) blast
  finally show "(fst st, j) \<in> R O P \<longleftrightarrow>
      (\<exists>t \<in> set (concat (map (\<lambda>t. g t t) (f st))). fst t = j)" by (simp add: relcomp_unfold)
qed

lemma computes_exactly:
  assumes "computes s f R" and "in_bounds s f"
  shows "computes s (run_exactly n f) (R ^^ n)"
proof (induction n)
  case 0
  show ?case by (rule computesI) auto
next
  case (Suc n)
  have eq: "run_exactly (Suc n) f = (\<lambda>st. concat (map (\<lambda>t. run_exactly n f t) (f st)))"
    by (rule ext) simp
  have "computes s (run_exactly (Suc n) f) (R O R ^^ n)" unfolding eq
    by (rule computes_comp [OF assms, of "\<lambda>_. run_exactly n f"]) (rule Suc.IH)
  then show ?case by (simp only: relpow.simps relpow_commute)
qed

lemma run_upto_sound:
  assumes f: "computes s f R" and b: "in_bounds s f"
  shows "fst st \<le> length s \<Longrightarrow> t \<in> set (run_upto n greedy f st) \<Longrightarrow>
    \<exists>k \<le> n. (fst st, fst t) \<in> R ^^ k"
proof (induction n arbitrary: st)
  case 0
  then show ?case by auto
next
  case (Suc n)
  have "t = st \<or> (\<exists>w \<in> set (f st). t = w \<or> t \<in> set (run_upto n greedy f w))"
    using Suc.prems(2) unfolding run_upto_mem by metis
  then consider "t = st" | w where "w \<in> set (f st)" "t = w \<or> t \<in> set (run_upto n greedy f w)"
    by blast
  then show ?case
  proof cases
    case 1
    then show ?thesis by (intro exI [of _ 0]) simp
  next
    case 2
    have R: "(fst st, fst w) \<in> R" using computesD [OF f Suc.prems(1)] 2(1) by blast
    have le: "fst w \<le> length s" using in_boundsD [OF b Suc.prems(1) 2(1)] by simp
    have "\<exists>k \<le> n. (fst w, fst t) \<in> R ^^ k"
      using 2(2)
    proof
      assume "t = w"
      then show ?thesis by (intro exI [of _ 0]) simp
    next
      assume "t \<in> set (run_upto n greedy f w)"
      then show ?thesis by (rule Suc.IH [OF le])
    qed
    then obtain k where "k \<le> n" "(fst w, fst t) \<in> R ^^ k" by blast
    then have "(fst st, fst t) \<in> R ^^ Suc k" using R by (metis relpow_Suc_I2)
    with \<open>k \<le> n\<close> show ?thesis by (intro exI [of _ "Suc k"]) simp
  qed
qed

lemma run_upto_complete:
  fixes st :: mst
  assumes f: "computes s f R" and b: "in_bounds s f"
  shows "fst st \<le> length s \<Longrightarrow> (fst st, j) \<in> R ^^ k \<Longrightarrow> k \<le> n \<or> length s - fst st < n \<Longrightarrow>
    \<exists>t \<in> set (run_upto n greedy f st). fst t = j"
proof (induction k arbitrary: st n)
  case 0
  then show ?case by (cases n) (auto simp: run_upto_mem)
next
  case (Suc k)
  from Suc.prems(2) obtain m where m: "(fst st, m) \<in> R" "(m, j) \<in> R ^^ k"
    by (metis relpow_Suc_D2)
  then obtain w where w: "w \<in> set (f st)" "fst w = m"
    using computesD [OF f Suc.prems(1)] by blast
  have bw: "fst st \<le> m" "m \<le> length s"
    using in_boundsD [OF b Suc.prems(1) w(1)] w(2) by auto
  show ?case
  proof (cases "m = fst st")
    case True
    then show ?thesis using Suc.IH [OF Suc.prems(1), of n] m(2) Suc.prems(3) by auto
  next
    case False
    then obtain n' where n': "n = Suc n'" using Suc.prems(3) by (cases n) auto
    have "k \<le> n' \<or> length s - fst w < n'"
      using Suc.prems(3) n' False bw w(2) by auto
    then obtain t where "t \<in> set (run_upto n' greedy f w)" "fst t = j"
      using Suc.IH [of w n'] m(2) w(2) bw by auto
    moreover have "t \<in> set (run_upto n greedy f st)" if "t \<in> set (run_upto n' greedy f w)" for t
      unfolding n' run_upto_mem using that w False by auto
    ultimately show ?thesis by blast
  qed
qed

lemma computes_rep:
  assumes f: "computes s f R" and b: "in_bounds s f"
  shows "computes s (\<lambda>st. concat (map (\<lambda>t. run_upto (iter_fuel s lo hi t) greedy f t)
    (run_exactly lo f st))) (\<Union>n \<in> {n. count_ok lo hi n}. R ^^ n)"
proof (rule computesI)
  fix st :: mst and j assume le: "fst st \<le> length s"
  note ex = computes_exactly [OF f b, of lo]
  note bx = in_bounds_exactly [OF b, of lo]
  show "(fst st, j) \<in> (\<Union>n \<in> {n. count_ok lo hi n}. R ^^ n) \<longleftrightarrow>
    (\<exists>t \<in> set (concat (map (\<lambda>t. run_upto (iter_fuel s lo hi t) greedy f t)
      (run_exactly lo f st))). fst t = j)" (is "?L \<longleftrightarrow> ?R")
  proof
    assume ?L
    then obtain n where n: "count_ok lo hi n" "(fst st, j) \<in> R ^^ n" by blast
    then have "(fst st, j) \<in> R ^^ lo O R ^^ (n - lo)"
      by (simp add: relpow_add [symmetric] count_ok_def)
    then obtain m where m: "(fst st, m) \<in> R ^^ lo" "(m, j) \<in> R ^^ (n - lo)" by blast
    then obtain w where w: "w \<in> set (run_exactly lo f st)" "fst w = m"
      using computesD [OF ex le] by blast
    have "m \<le> length s" using in_boundsD [OF bx le w(1)] w(2) by simp
    moreover have "n - lo \<le> iter_fuel s lo hi w \<or> length s - fst w < iter_fuel s lo hi w"
      using n(1) by (auto simp: iter_fuel_def count_ok_def split: option.splits)
    ultimately obtain t where "t \<in> set (run_upto (iter_fuel s lo hi w) greedy f w)" "fst t = j"
      using run_upto_complete [OF f b, of w j "n - lo"] m(2) w(2) by blast
    with w(1) show ?R by auto
  next
    assume ?R
    then obtain w t where w: "w \<in> set (run_exactly lo f st)"
      and t: "t \<in> set (run_upto (iter_fuel s lo hi w) greedy f w)" "fst t = j" by auto
    have "fst w \<le> length s" using in_boundsD [OF bx le w] by simp
    then obtain k where k: "k \<le> iter_fuel s lo hi w" "(fst w, j) \<in> R ^^ k"
      using run_upto_sound [OF f b _ t(1)] t(2) by blast
    have "(fst st, fst w) \<in> R ^^ lo" using computesD [OF ex le] w by blast
    with k(2) have "(fst st, j) \<in> R ^^ (lo + k)" by (auto simp: relpow_add)
    moreover have "count_ok lo hi (lo + k)"
      using k(1) by (auto simp: iter_fuel_def count_ok_def split: option.splits)
    ultimately show ?L by blast
  qed
qed

lemma runs_fun:
  "runs fl s (RSeq a b) = (\<lambda>st. concat (map (\<lambda>t. runs fl s b t) (runs fl s a st)))"
  "runs fl s (RRep lo hi greedy r) = (\<lambda>st. concat (map
     (\<lambda>t. run_upto (iter_fuel s lo hi t) greedy (runs fl s r) t) (run_exactly lo (runs fl s r) st)))"
  by (rule ext, simp)+

theorem runs_computes_spans: "no_back r \<Longrightarrow> computes s (runs fl s r) (spans fl s r)"
proof (induction r)
  case (RSeq a b)
  then show ?case unfolding runs_fun spans.simps
    by (intro computes_comp [OF _ runs_in_bounds, of s fl a "spans fl s a" "\<lambda>_. runs fl s b"]) simp_all
next
  case (RAlt a b)
  then have c: "computes s (runs fl s a) (spans fl s a)" "computes s (runs fl s b) (spans fl s b)"
    by simp_all
  show ?case
    by (rule computesI) (simp add: computesD [OF c(1)] computesD [OF c(2)] bex_Un)
next
  case (RGroup n r)
  then show ?case by (simp add: computes_def)
next
  case (RRep lo hi greedy r)
  then show ?case unfolding runs_fun spans.simps
    by (intro computes_rep [OF _ runs_in_bounds]) simp
next
  case (RLook pos r)
  then have c: "computes s (runs fl s r) (spans fl s r)" by simp
  show ?case
  proof (rule computesI)
    fix st :: mst and j assume le: "fst st \<le> length s"
    have "fst st \<in> Domain (spans fl s r) \<longleftrightarrow> (\<exists>t. t \<in> set (runs fl s r st))"
      using computesD [OF c le] by blast
    then show "(fst st, j) \<in> spans fl s (RLook pos r) \<longleftrightarrow>
        (\<exists>t \<in> set (runs fl s (RLook pos r) st). fst t = j)"
      by (cases "runs fl s r st") auto
  qed
qed (rule computesI, auto)+

section \<open>Regular trees and their languages\<close>

primrec regular :: "re \<Rightarrow> bool" where
  "regular REps = True"
| "regular (RSet neg its) = True"
| "regular RAny = True"
| "regular RBol = False"
| "regular REol = False"
| "regular RWordB = False"
| "regular (RSeq a b) = (regular a \<and> regular b)"
| "regular (RAlt a b) = (regular a \<and> regular b)"
| "regular (RGroup n r) = regular r"
| "regular (RBack n) = False"
| "regular (RRep lo hi greedy r) = regular r"
| "regular (RLook pos r) = False"

lemma regular_no_back: "regular r \<Longrightarrow> no_back r"
  by (induction r) auto

definition conc :: "ustr set \<Rightarrow> ustr set \<Rightarrow> ustr set" where
  "conc A B = {v @ w | v w. v \<in> A \<and> w \<in> B}"

primrec lpow :: "nat \<Rightarrow> ustr set \<Rightarrow> ustr set" where
  "lpow 0 A = {[]}"
| "lpow (Suc n) A = conc A (lpow n A)"

primrec lang :: "rflags \<Rightarrow> re \<Rightarrow> ustr set" where
  "lang fl REps = {[]}"
| "lang fl (RSet neg its) = {[c] | c. set_match fl neg its c}"
| "lang fl RAny = {[c] | c. c \<noteq> 10}"
| "lang fl RBol = {}"
| "lang fl REol = {}"
| "lang fl RWordB = {}"
| "lang fl (RSeq a b) = conc (lang fl a) (lang fl b)"
| "lang fl (RAlt a b) = lang fl a \<union> lang fl b"
| "lang fl (RGroup n r) = lang fl r"
| "lang fl (RBack n) = {}"
| "lang fl (RRep lo hi greedy r) = (\<Union>n \<in> {n. count_ok lo hi n}. lpow n (lang fl r))"
| "lang fl (RLook pos r) = {}"

lemma conc_iff: "w \<in> conc A B \<longleftrightarrow> (\<exists>x y. w = x @ y \<and> x \<in> A \<and> y \<in> B)"
  by (auto simp: conc_def)

definition denotes :: "ustr \<Rightarrow> (nat \<times> nat) set \<Rightarrow> ustr set \<Rightarrow> bool" where
  "denotes s R L \<longleftrightarrow> (\<forall>i j. i \<le> length s \<longrightarrow>
     ((i, j) \<in> R) = (i \<le> j \<and> j \<le> length s \<and> drop i (take j s) \<in> L))"

lemma denotesD:
  "denotes s R L \<Longrightarrow> i \<le> length s \<Longrightarrow>
     (i, j) \<in> R \<longleftrightarrow> i \<le> j \<and> j \<le> length s \<and> drop i (take j s) \<in> L"
  unfolding denotes_def by blast

lemma denotesI:
  assumes "\<And>i j. i \<le> length s \<Longrightarrow>
     (i, j) \<in> R \<longleftrightarrow> i \<le> j \<and> j \<le> length s \<and> drop i (take j s) \<in> L"
  shows "denotes s R L"
  unfolding denotes_def using assms by blast

lemma slice_split:
  assumes "i \<le> j" "j \<le> length s"
  shows "drop i (take j s) = x @ y \<longleftrightarrow>
    (\<exists>k. i \<le> k \<and> k \<le> j \<and> x = drop i (take k s) \<and> y = drop k (take j s))"
proof
  assume eq: "drop i (take j s) = x @ y"
  then have len: "length x + length y = j - i"
    using assms by (metis length_append length_drop length_take min.absorb2)
  let ?k = "i + length x"
  have "x = take (length x) (drop i (take j s))" by (simp add: eq)
  moreover have "?k \<le> j" using len assms by simp
  ultimately have x: "x = drop i (take ?k s)" by (simp add: take_drop min_def add.commute)
  have "y = drop (length x) (drop i (take j s))" by (simp add: eq)
  then have "y = drop ?k (take j s)" by (simp add: add.commute)
  with x show "\<exists>k. i \<le> k \<and> k \<le> j \<and> x = drop i (take k s) \<and> y = drop k (take j s)"
    using len assms by (intro exI [of _ ?k]) auto
next
  assume "\<exists>k. i \<le> k \<and> k \<le> j \<and> x = drop i (take k s) \<and> y = drop k (take j s)"
  then obtain k where k: "i \<le> k" "k \<le> j" "x = drop i (take k s)" "y = drop k (take j s)" by blast
  have "take k s @ drop k (take j s) = take j s"
    using k(2) by (metis append_take_drop_id min.absorb1 take_take)
  then have "drop i (take k s @ drop k (take j s)) = drop i (take j s)" by simp
  then show "drop i (take j s) = x @ y" using k assms by (simp add: min_def)
qed

lemma denotes_comp:
  assumes "denotes s R A" "denotes s Q B"
  shows "denotes s (R O Q) (conc A B)"
proof (rule denotesI)
  fix i j assume i: "i \<le> length s"
  have "(i, j) \<in> R O Q \<longleftrightarrow> (\<exists>k. i \<le> k \<and> k \<le> length s \<and> drop i (take k s) \<in> A
      \<and> k \<le> j \<and> j \<le> length s \<and> drop k (take j s) \<in> B)"
    using denotesD [OF assms(1) i] denotesD [OF assms(2)] by (auto simp: relcomp_unfold)
  also have "\<dots> \<longleftrightarrow> i \<le> j \<and> j \<le> length s \<and> drop i (take j s) \<in> conc A B"
    by (cases "i \<le> j \<and> j \<le> length s") (auto simp: conc_iff slice_split)
  finally show "(i, j) \<in> R O Q \<longleftrightarrow>
      i \<le> j \<and> j \<le> length s \<and> drop i (take j s) \<in> conc A B" .
qed

lemma slice_Nil_iff: "i \<le> j \<Longrightarrow> j \<le> length s \<Longrightarrow> drop i (take j s) = [] \<longleftrightarrow> j = i"
  by auto

lemma slice_single_iff:
  "i \<le> j \<Longrightarrow> j \<le> length s \<Longrightarrow> drop i (take j s) = [c] \<longleftrightarrow> j = Suc i \<and> s ! i = c"
proof
  assume le: "i \<le> j" "j \<le> length s" and eq: "drop i (take j s) = [c]"
  then have "length (drop i (take j s)) = 1" by simp
  then have j: "j = Suc i" using le by simp
  with eq le show "j = Suc i \<and> s ! i = c"
    by (metis Cons_nth_drop_Suc length_take lessI list.inject min.absorb2 nth_take)
next
  assume "i \<le> j" "j \<le> length s" "j = Suc i \<and> s ! i = c"
  then show "drop i (take j s) = [c]" by (simp add: take_Suc_conv_app_nth)
qed

lemma denotes_Id: "denotes s Id {[]}"
  by (rule denotesI) auto

lemma denotes_single: "denotes s {(i, j). j = Suc i \<and> i < length s \<and> P (s ! i)} {[c] | c. P c}"
proof (rule denotesI)
  fix i j assume "i \<le> length s"
  show "(i, j) \<in> {(i, j). j = Suc i \<and> i < length s \<and> P (s ! i)} \<longleftrightarrow>
      i \<le> j \<and> j \<le> length s \<and> drop i (take j s) \<in> {[c] | c. P c}"
    by (cases "i \<le> j \<and> j \<le> length s") (auto simp: slice_single_iff)
qed

lemma denotes_pow: "denotes s R A \<Longrightarrow> denotes s (R ^^ n) (lpow n A)"
proof (induction n)
  case 0
  show ?case using denotes_Id by simp
next
  case (Suc n)
  then show ?case using denotes_comp [of s R A "R ^^ n" "lpow n A"]
    by (simp only: relpow.simps relpow_commute lpow.simps)
qed

theorem spans_denote_lang: "regular r \<Longrightarrow> denotes s (spans fl s r) (lang fl r)"
proof (induction r)
  case (RSet neg its)
  show ?case using denotes_single [of s "set_match fl neg its"] by simp
next
  case RAny
  show ?case using denotes_single [of s "\<lambda>c. c \<noteq> 10"] by simp
next
  case (RSeq a b)
  then show ?case by (simp add: denotes_comp)
next
  case (RAlt a b)
  then show ?case by (auto simp: denotes_def)
next
  case (RRep lo hi greedy r)
  then have d: "denotes s (spans fl s r ^^ n) (lpow n (lang fl r))" for n
    by (simp add: denotes_pow)
  show ?case
    by (rule denotesI) (simp only: spans.simps lang.simps UN_iff denotesD [OF d], blast)
qed (simp_all add: denotes_Id)

lemma conc_single: "w \<in> conc {[c] | c. P c} B \<longleftrightarrow> (\<exists>c t. w = c # t \<and> P c \<and> t \<in> B)"
proof
  assume "\<exists>c t. w = c # t \<and> P c \<and> t \<in> B"
  then obtain c t where "w = [c] @ t" "[c] \<in> {[c] | c. P c}" "t \<in> B" by auto
  then show "w \<in> conc {[c] | c. P c} B" unfolding conc_iff by blast
qed (auto simp: conc_iff)

text \<open>Repetition of a character class: any word of the right length over the class.\<close>

lemma lpow_chars: "lpow n {[c] | c. P c} = {w. length w = n \<and> list_all P w}"
proof (induction n)
  case 0
  show ?case by auto
next
  case (Suc n)
  have "w \<in> lpow (Suc n) {[c] | c. P c} \<longleftrightarrow> length w = Suc n \<and> list_all P w" for w
    by (cases w) (auto simp: Suc.IH conc_single)
  then show ?case by blast
qed

lemma lang_rep_set:
  "lang fl (RRep lo hi greedy (RSet neg its)) =
     {w. count_ok lo hi (length w) \<and> list_all (set_match fl neg its) w}"
  by (auto simp: lpow_chars)

lemma lang_rep_any:
  "lang fl (RRep lo hi greedy RAny) = {w. count_ok lo hi (length w) \<and> list_all (\<lambda>c. c \<noteq> 10) w}"
  by (auto simp: lpow_chars)

lemma count_ok_simps [simp]:
  "count_ok lo None n \<longleftrightarrow> lo \<le> n"
  "count_ok lo (Some h) n \<longleftrightarrow> lo \<le> n \<and> n \<le> max lo h"
  by (simp_all add: count_ok_def)

section \<open>What the operations need of a matcher\<close>

text \<open>
  A matcher tried at a position, with the start and the end of a success. The search takes
  the first position that succeeds; a scan lists successes that do not overlap.
\<close>

locale scanner =
  fixes attempt :: "nat \<Rightarrow> 'm option" and start :: "'m \<Rightarrow> nat" and stop :: "'m \<Rightarrow> nat"
    and size :: nat
  assumes start_at: "attempt i = Some m \<Longrightarrow> start m = i"
    and stop_ge: "attempt i = Some m \<Longrightarrow> i \<le> size \<Longrightarrow> i \<le> stop m"
    and stop_le: "attempt i = Some m \<Longrightarrow> i \<le> size \<Longrightarrow> stop m \<le> size"
begin

lemma first_hit_None: "first_hit attempt i n = None \<longleftrightarrow> (\<forall>k < n. attempt (i + k) = None)"
proof (induction n arbitrary: i)
  case 0
  show ?case by simp
next
  case (Suc n)
  have "(\<forall>k < Suc n. attempt (i + k) = None) \<longleftrightarrow>
      attempt i = None \<and> (\<forall>k < n. attempt (Suc i + k) = None)"
    by (auto simp: less_Suc_eq_0_disj)
  with Suc.IH [of "Suc i"] show ?case by (auto split: option.split)
qed

lemma first_hit_Some:
  "first_hit attempt i n = Some m \<Longrightarrow>
     i \<le> start m \<and> start m < i + n \<and> attempt (start m) = Some m
     \<and> (\<forall>k. i \<le> k \<longrightarrow> k < start m \<longrightarrow> attempt k = None)"
proof (induction n arbitrary: i)
  case 0
  then show ?case by simp
next
  case (Suc n)
  show ?case
  proof (cases "attempt i")
    case None
    with Suc.prems have "first_hit attempt (Suc i) n = Some m" by simp
    from Suc.IH [OF this] have h: "Suc i \<le> start m" "start m < Suc i + n"
      "attempt (start m) = Some m" "\<And>k. Suc i \<le> k \<Longrightarrow> k < start m \<Longrightarrow> attempt k = None" by blast+
    have "attempt k = None" if "i \<le> k" "k < start m" for k
      using h(4) [of k] that None by (cases "k = i") auto
    with h show ?thesis by auto
  next
    case (Some m')
    with Suc.prems start_at show ?thesis by auto
  qed
qed

lemma search_None: "first_hit attempt i (Suc size - i) = None \<longleftrightarrow>
    (\<forall>k. i \<le> k \<longrightarrow> k \<le> size \<longrightarrow> attempt k = None)"
proof
  assume none: "first_hit attempt i (Suc size - i) = None"
  show "\<forall>k. i \<le> k \<longrightarrow> k \<le> size \<longrightarrow> attempt k = None"
  proof (intro allI impI)
    fix k assume "i \<le> k" "k \<le> size"
    then have "k - i < Suc size - i" by linarith
    then have "attempt (i + (k - i)) = None" using none unfolding first_hit_None by blast
    then show "attempt k = None" using \<open>i \<le> k\<close> by simp
  qed
next
  assume "\<forall>k. i \<le> k \<longrightarrow> k \<le> size \<longrightarrow> attempt k = None"
  then show "first_hit attempt i (Suc size - i) = None" unfolding first_hit_None by auto
qed

lemma search_Some:
  assumes "first_hit attempt i (Suc size - i) = Some m"
  shows "i \<le> start m \<and> start m \<le> stop m \<and> stop m \<le> size \<and> attempt (start m) = Some m
     \<and> (\<forall>k. i \<le> k \<longrightarrow> k < start m \<longrightarrow> attempt k = None)"
proof -
  note hit = first_hit_Some [OF assms]
  then have "start m \<le> size" by linarith
  with hit stop_ge stop_le show ?thesis by blast
qed

end

lemma match_at_start: "match_at p s i = Some m \<Longrightarrow> mo_start m = i"
  by (auto simp: match_at_def mk_mobj_def split: list.splits)

lemma match_at_end:
  "match_at p s i = Some m \<Longrightarrow> i \<le> length s \<Longrightarrow> i \<le> mo_end m \<and> mo_end m \<le> length s"
  using runs_bounds [of _ "fst p" s "snd p" "(i, Map.empty)"]
  by (fastforce simp: match_at_def mk_mobj_def split: list.splits)

interpretation rx: scanner "match_at p s" mo_start mo_end "length s" for p s
  by unfold_locales (auto dest: match_at_start match_at_end)

section \<open>Whether a pattern matches\<close>

lemma match_at_iff_spans:
  assumes "no_back (snd p)" "i \<le> length s"
  shows "match_at p s i \<noteq> None \<longleftrightarrow> (\<exists>j. (i, j) \<in> spans (fst p) s (snd p))"
proof -
  have "match_at p s i \<noteq> None \<longleftrightarrow> (\<exists>t. t \<in> set (runs (fst p) s (snd p) (i, Map.empty)))"
    by (cases "runs (fst p) s (snd p) (i, Map.empty)") (auto simp: match_at_def)
  also have "\<dots> \<longleftrightarrow> (\<exists>j. (i, j) \<in> spans (fst p) s (snd p))"
    using computesD [OF runs_computes_spans [OF assms(1), of s "fst p"], of "(i, Map.empty)"] assms(2)
    by auto
  finally show ?thesis .
qed

lemma re_search_iff_spans:
  assumes "no_back (snd p)"
  shows "re_search p s \<noteq> None \<longleftrightarrow> (\<exists>i \<le> length s. \<exists>j. (i, j) \<in> spans (fst p) s (snd p))"
proof -
  have "re_search p s \<noteq> None \<longleftrightarrow> (\<exists>i \<le> length s. match_at p s i \<noteq> None)"
    using rx.search_None [of p s 0] by (simp add: re_search_def search_from_def)
  then show ?thesis using match_at_iff_spans [OF assms] by blast
qed

lemma re_match_iff_lang:
  assumes "regular (snd p)"
  shows "re_match p s \<noteq> None \<longleftrightarrow> (\<exists>w t. s = w @ t \<and> w \<in> lang (fst p) (snd p))"
proof -
  have "re_match p s \<noteq> None \<longleftrightarrow> (\<exists>j \<le> length s. take j s \<in> lang (fst p) (snd p))"
    using match_at_iff_spans [OF regular_no_back [OF assms], of 0 s]
      denotesD [OF spans_denote_lang [OF assms], of 0 s]
    by (auto simp: re_match_def)
  then show ?thesis by (metis append_eq_conv_conj append_take_drop_id le_add1 length_append)
qed

lemma re_search_iff_lang:
  assumes "regular (snd p)"
  shows "re_search p s \<noteq> None \<longleftrightarrow> (\<exists>a w b. s = a @ w @ b \<and> w \<in> lang (fst p) (snd p))"
proof
  assume "re_search p s \<noteq> None"
  then obtain i j where ij: "i \<le> length s" "(i, j) \<in> spans (fst p) s (snd p)"
    using re_search_iff_spans [OF regular_no_back [OF assms]] by blast
  then have j: "i \<le> j" "j \<le> length s" "drop i (take j s) \<in> lang (fst p) (snd p)"
    using denotesD [OF spans_denote_lang [OF assms]] by blast+
  have "take i s = take i (take j s)" using j(1) by (simp add: min_def)
  then have "s = take i s @ drop i (take j s) @ drop j s"
    by (metis append_assoc append_take_drop_id)
  with j(3) show "\<exists>a w b. s = a @ w @ b \<and> w \<in> lang (fst p) (snd p)" by blast
next
  assume "\<exists>a w b. s = a @ w @ b \<and> w \<in> lang (fst p) (snd p)"
  then obtain a w b where s: "s = a @ w @ b" "w \<in> lang (fst p) (snd p)" by blast
  then have "drop (length a) (take (length a + length w) s) = w" by simp
  then have "(length a, length a + length w) \<in> spans (fst p) s (snd p)"
    using denotesD [OF spans_denote_lang [OF assms], of "length a" s] s by simp
  then show "re_search p s \<noteq> None"
    using re_search_iff_spans [OF regular_no_back [OF assms]] s(1)
    by (metis le_add1 length_append)
qed

end
