(* ===== verification/RegexRuns.thy ===== *)
theory RegexRuns
  imports RegexSem
begin

text \<open>
  How the matcher runs through the shapes the program's patterns are built from: literal
  words and greedy repetitions of a character class. These lemmas say which match is found
  and with which groups, where the theory before says only whether there is one.
\<close>

section \<open>Literal words\<close>

fun lit_word :: "ustr \<Rightarrow> re \<Rightarrow> re" where
  "lit_word [] r = r"
| "lit_word (c # w) r = RSeq (RLit c) (lit_word w r)"

lemma set_match_lit [simp]: "set_match no_flags False [CLit d] c \<longleftrightarrow> c = d"
  and set_match_not_lit [simp]: "set_match no_flags True [CLit d] c \<longleftrightarrow> c \<noteq> d"
  by (auto simp: set_match_def)

lemma occurs_at_Cons:
  "occurs_at s (c # w) i \<longleftrightarrow> i < length s \<and> s ! i = c \<and> occurs_at s w (Suc i)"
proof (cases "i < length s")
  case True
  then have "drop i s = s ! i # drop (Suc i) s" by (simp add: Cons_nth_drop_Suc)
  with True show ?thesis by (simp add: occurs_at_def)
qed (auto simp: occurs_at_def)

lemma occurs_at_Nil: "occurs_at s [] i \<longleftrightarrow> i \<le> length s"
  by (simp add: occurs_at_def)

lemma runs_lit_word:
  "runs no_flags s (lit_word w r) (i, g) =
     (if i \<le> length s \<and> occurs_at s w i then runs no_flags s r (i + length w, g)
      else if w = [] then runs no_flags s r (i, g) else [])"
proof (induction w arbitrary: i)
  case Nil
  then show ?case by (simp add: occurs_at_def)
next
  case (Cons c w)
  show ?case
  proof (cases "i < length s \<and> s ! i = c")
    case True
    then have "runs no_flags s (lit_word (c # w) r) (i, g) = runs no_flags s (lit_word w r) (Suc i, g)"
      by simp
    with True Cons show ?thesis by (auto simp: occurs_at_Cons occurs_at_Nil)
  qed (auto simp: occurs_at_Cons)
qed

section \<open>Greedy repetitions of a class\<close>

definition run_length :: "(uchar \<Rightarrow> bool) \<Rightarrow> ustr \<Rightarrow> nat \<Rightarrow> nat" where
  "run_length P s i = length (takeWhile P (drop i s))"

lemma run_length_step:
  "run_length P s i =
     (if i < length s \<and> P (s ! i) then Suc (run_length P s (Suc i)) else 0)"
proof (cases "i < length s")
  case True
  then have "drop i s = s ! i # drop (Suc i) s" by (simp add: Cons_nth_drop_Suc)
  with True show ?thesis by (simp add: run_length_def)
qed (simp add: run_length_def)

lemma run_length_le: "run_length P s i \<le> length s - i"
  by (metis length_drop length_takeWhile_le run_length_def)

lemma rev_upt_Suc_map:
  "rev (map f [0..<Suc (Suc n)]) = rev (map (\<lambda>k. f (Suc k)) [0..<Suc n]) @ [f 0]"
proof -
  have "map f [0..<Suc (Suc n)] = f 0 # map f [Suc 0..<Suc (Suc n)]"
    by (subst upt_conv_Cons) simp_all
  also have "map f [Suc 0..<Suc (Suc n)] = map (\<lambda>k. f (Suc k)) [0..<Suc n]"
    by (simp only: map_Suc_upt [symmetric] map_map comp_def)
  finally have "map f [0..<Suc (Suc n)] = f 0 # map (\<lambda>k. f (Suc k)) [0..<Suc n]" .
  then show ?thesis by (simp del: upt_Suc)
qed

lemma run_upto_class:
  "run_length P s i < n \<Longrightarrow>
     run_upto n True (\<lambda>st. if fst st < length s \<and> P (s ! fst st) then [(Suc (fst st), snd st)] else [])
       (i, g)
     = rev (map (\<lambda>k. (i + k, g)) [0..<Suc (run_length P s i)])"
proof (induction n arbitrary: i)
  case 0
  then show ?case by simp
next
  case (Suc n)
  show ?case
  proof (cases "i < length s \<and> P (s ! i)")
    case True
    then have len: "run_length P s i = Suc (run_length P s (Suc i))"
      by (subst run_length_step) simp
    with Suc.prems have "run_length P s (Suc i) < n" by simp
    from Suc.IH [OF this] True show ?thesis
      unfolding len rev_upt_Suc_map run_upto.simps by (simp add: Let_def del: upt_Suc run_upto.simps)
  next
    case False
    then have "run_length P s i = 0" by (subst run_length_step) auto
    with False show ?thesis by (auto simp: Let_def run_upto.simps)
  qed
qed

lemma runs_star_class:
  "runs fl s (RStar (RSet neg its)) (i, g) =
     rev (map (\<lambda>k. (i + k, g)) [0..<Suc (run_length (set_match fl neg its) s i)])"
proof -
  have f: "runs fl s (RSet neg its) =
      (\<lambda>st. if fst st < length s \<and> set_match fl neg its (s ! fst st) then [(Suc (fst st), snd st)] else [])"
    by (rule ext) simp
  have "run_length (set_match fl neg its) s i < Suc (length s - i)"
    using run_length_le [of _ s i] by (simp add: less_Suc_eq_le)
  from run_upto_class [OF this] show ?thesis
    by (simp only: runs.simps(11) run_exactly.simps list.map concat.simps append_Nil2 f
        iter_fuel_def option.simps fst_conv)
qed

lemma hd_runs_star_class:
  "\<exists>rest. runs fl s (RStar (RSet neg its)) (i, g)
     = (i + run_length (set_match fl neg its) s i, g) # rest"
  unfolding runs_star_class by simp

section \<open>Finding the match\<close>

lemma re_search_at:
  assumes "\<And>k. k < i \<Longrightarrow> match_at p s k = None" and "match_at p s i = Some m" and "i \<le> length s"
  shows "re_search p s = Some m"
proof (cases "re_search p s")
  case None
  then have "\<forall>k. 0 \<le> k \<longrightarrow> k \<le> length s \<longrightarrow> match_at p s k = None"
    unfolding re_search_def search_from_def rx.search_None .
  with assms(2,3) show ?thesis by auto
next
  case (Some m')
  then have h: "mo_start m' \<le> length s" "match_at p s (mo_start m') = Some m'"
    "\<forall>k. 0 \<le> k \<longrightarrow> k < mo_start m' \<longrightarrow> match_at p s k = None"
    unfolding re_search_def search_from_def using rx.search_Some by fastforce+
  have "mo_start m' = i"
    using h assms(1) [of "mo_start m'"] assms(2) by (metis le0 linorder_neqE_nat option.distinct(1))
  with h(2) assms(2) Some show ?thesis by simp
qed

lemma re_search_none:
  assumes "\<And>k. match_at p s k = None"
  shows "re_search p s = None"
  unfolding re_search_def search_from_def rx.search_None using assms by simp

lemma match_at_hd:
  "runs (fst p) s (snd p) (i, Map.empty) = (j, g) # rest \<Longrightarrow>
     match_at p s i = Some \<lparr>mo_text = s, mo_start = i, mo_end = j, mo_groups = g\<rparr>"
  by (simp add: match_at_def mk_mobj_def)

lemma match_at_none:
  "runs (fst p) s (snd p) (i, Map.empty) = [] \<Longrightarrow> match_at p s i = None"
  by (simp add: match_at_def)

end
