(* ===== verification/ReCache.thy ===== *)
theory ReCache
  imports ReParse RegexRuns
begin

text \<open>
  \<open>Match\<close> and \<open>Search\<close> of \<open>clint.py\<close>: first as the functions of the pattern and the
  string the checks rely on, then as they are written, with the table of compiled patterns
  \<open>_regexp_compile_cache\<close>. The interface \<open>memo\<close> states what a memo table must do for the
  two to agree.
\<close>

definition compile :: "ustr \<Rightarrow> cre option" where
  "compile pattern = re_compile False False False pattern"

text \<open>
  An ill-formed pattern raises \<open>sre_constants.error\<close>. Every pattern written in the program
  compiles (the lemmas in \<open>compiled\<close>), so the checks use the total reading.
\<close>

definition Match :: "ustr \<Rightarrow> ustr \<Rightarrow> mobj option" where
  "Match pattern s = (case compile pattern of Some p \<Rightarrow> re_match p s | None \<Rightarrow> None)"

definition Search :: "ustr \<Rightarrow> ustr \<Rightarrow> mobj option" where
  "Search pattern s = (case compile pattern of Some p \<Rightarrow> re_search p s | None \<Rightarrow> None)"

definition Matches :: "ustr \<Rightarrow> ustr \<Rightarrow> bool" where
  "Matches pattern s \<longleftrightarrow> Match pattern s \<noteq> None"

definition Searches :: "ustr \<Rightarrow> ustr \<Rightarrow> bool" where
  "Searches pattern s \<longleftrightarrow> Search pattern s \<noteq> None"

text \<open>\<open>re.sub\<close>, \<open>re.findall\<close> (its length) and \<open>re.split\<close>, of a pattern or a compiled one.\<close>

definition Sub :: "ustr \<Rightarrow> ustr \<Rightarrow> ustr \<Rightarrow> ustr" where
  "Sub pattern repl s = (case compile pattern of Some p \<Rightarrow> re_sub p repl s | None \<Rightarrow> s)"

definition FindAll :: "ustr \<Rightarrow> ustr \<Rightarrow> mobj list" where
  "FindAll pattern s = (case compile pattern of Some p \<Rightarrow> finditer p s | None \<Rightarrow> [])"

definition Split :: "ustr \<Rightarrow> ustr \<Rightarrow> ustr list" where
  "Split pattern s = (case compile pattern of Some p \<Rightarrow> re_split p s | None \<Rightarrow> [s])"

section \<open>The table of compiled patterns\<close>

type_synonym re_cache = "ustr \<rightharpoonup> cre"

definition cached_compile :: "ustr \<Rightarrow> re_cache \<Rightarrow> cre outcome \<times> re_cache" where
  "cached_compile pattern cache =
     (case cache pattern of
        Some p \<Rightarrow> (Ret p, cache)
      | None \<Rightarrow>
          (case compile pattern of
             Some p \<Rightarrow> (Ret p, cache(pattern \<mapsto> p))
           | None \<Rightarrow> (Raise (ReError pattern), cache)))"

definition Match_cached :: "ustr \<Rightarrow> ustr \<Rightarrow> re_cache \<Rightarrow> mobj option outcome \<times> re_cache" where
  "Match_cached pattern s cache =
     (case cached_compile pattern cache of
        (r, cache') \<Rightarrow> (bind_out r (\<lambda>p. Ret (re_match p s)), cache'))"

definition Search_cached :: "ustr \<Rightarrow> ustr \<Rightarrow> re_cache \<Rightarrow> mobj option outcome \<times> re_cache" where
  "Search_cached pattern s cache =
     (case cached_compile pattern cache of
        (r, cache') \<Rightarrow> (bind_out r (\<lambda>p. Ret (re_search p s)), cache'))"

section \<open>Memo tables\<close>

locale memo =
  fixes comp :: "'k \<Rightarrow> 'v option"
    and look :: "'k \<Rightarrow> ('k \<rightharpoonup> 'v) \<Rightarrow> 'v outcome \<times> ('k \<rightharpoonup> 'v)"
    and fail :: "'k \<Rightarrow> exn"
  assumes hit: "m k = Some v \<Longrightarrow> look k m = (Ret v, m)"
    and miss: "m k = None \<Longrightarrow> comp k = Some v \<Longrightarrow> look k m = (Ret v, m(k \<mapsto> v))"
    and bad: "m k = None \<Longrightarrow> comp k = None \<Longrightarrow> look k m = (Raise (fail k), m)"
begin

definition fresh :: "'k \<Rightarrow> 'v outcome" where
  "fresh k = (case comp k of Some v \<Rightarrow> Ret v | None \<Rightarrow> Raise (fail k))"

lemma look_fresh: "m \<subseteq>\<^sub>m comp \<Longrightarrow> fst (look k m) = fresh k"
proof (cases "m k")
  case None
  then show ?thesis by (cases "comp k") (simp_all add: miss bad fresh_def)
next
  case (Some v)
  moreover assume "m \<subseteq>\<^sub>m comp"
  then have "comp k = Some v" using Some by (metis domI map_le_def)
  ultimately show ?thesis by (simp add: hit fresh_def)
qed

lemma look_consistent: "m \<subseteq>\<^sub>m comp \<Longrightarrow> snd (look k m) \<subseteq>\<^sub>m comp"
proof (cases "m k")
  case None
  moreover assume "m \<subseteq>\<^sub>m comp"
  ultimately show ?thesis by (cases "comp k") (auto simp: miss bad map_le_def)
qed (simp add: hit)

end

interpretation re_memo: memo compile cached_compile ReError
  by unfold_locales (simp_all add: cached_compile_def)

section \<open>A run of lookups\<close>

datatype lookup = DoMatch ustr ustr | DoSearch ustr ustr

fun run_lookup :: "lookup \<Rightarrow> re_cache \<Rightarrow> mobj option outcome \<times> re_cache" where
  "run_lookup (DoMatch p s) cache = Match_cached p s cache"
| "run_lookup (DoSearch p s) cache = Search_cached p s cache"

fun run_lookups :: "lookup list \<Rightarrow> re_cache \<Rightarrow> mobj option outcome list \<times> re_cache" where
  "run_lookups [] cache = ([], cache)"
| "run_lookups (l # ls) cache =
     (let (r, cache1) = run_lookup l cache; (rs, cache2) = run_lookups ls cache1
      in (r # rs, cache2))"

fun uncached :: "lookup \<Rightarrow> mobj option outcome" where
  "uncached (DoMatch p s) =
     (if compile p = None then Raise (ReError p) else Ret (Match p s))"
| "uncached (DoSearch p s) =
     (if compile p = None then Raise (ReError p) else Ret (Search p s))"

lemma run_lookup_uncached:
  assumes "cache \<subseteq>\<^sub>m compile"
  shows "fst (run_lookup l cache) = uncached l \<and> snd (run_lookup l cache) \<subseteq>\<^sub>m compile"
proof -
  have "cached_compile p cache = (re_memo.fresh p, snd (cached_compile p cache))"
    and "snd (cached_compile p cache) \<subseteq>\<^sub>m compile" for p
    using re_memo.look_fresh [OF assms, of p] re_memo.look_consistent [OF assms, of p]
    by (simp_all add: prod_eq_iff)
  note c = this
  show ?thesis
  proof (cases l)
    case (DoMatch p s)
    have "Match_cached p s cache = (uncached l, snd (cached_compile p cache))"
      unfolding Match_cached_def DoMatch
      by (subst c(1)) (simp add: re_memo.fresh_def Match_def split: option.split)
    with c(2) DoMatch show ?thesis by simp
  next
    case (DoSearch p s)
    have "Search_cached p s cache = (uncached l, snd (cached_compile p cache))"
      unfolding Search_cached_def DoSearch
      by (subst c(1)) (simp add: re_memo.fresh_def Search_def split: option.split)
    with c(2) DoSearch show ?thesis by simp
  qed
qed

lemma run_lookups_uncached:
  "cache \<subseteq>\<^sub>m compile \<Longrightarrow>
     fst (run_lookups ls cache) = map uncached ls \<and> snd (run_lookups ls cache) \<subseteq>\<^sub>m compile"
proof (induction ls arbitrary: cache)
  case Nil
  then show ?case by simp
next
  case (Cons l ls)
  obtain r cache1 where l: "run_lookup l cache = (r, cache1)" by fastforce
  with run_lookup_uncached [OF Cons.prems, of l]
  have r: "r = uncached l" "cache1 \<subseteq>\<^sub>m compile" by simp_all
  obtain rs cache2 where ls: "run_lookups ls cache1 = (rs, cache2)" by fastforce
  with Cons.IH [OF r(2)] l r(1) show ?case by (simp add: Let_def)
qed

section \<open>Reading a search as a statement on the text\<close>

lemma Searches_iff_lang:
  assumes "compile p = Some c" and "regular (snd c)"
  shows "Searches p s \<longleftrightarrow> (\<exists>a w b. s = a @ w @ b \<and> w \<in> lang (fst c) (snd c))"
  using re_search_iff_lang [OF assms(2), of s] assms(1) by (simp add: Searches_def Search_def)

lemma Matches_iff_lang:
  assumes "compile p = Some c" and "regular (snd c)"
  shows "Matches p s \<longleftrightarrow> (\<exists>w t. s = w @ t \<and> w \<in> lang (fst c) (snd c))"
  using re_match_iff_lang [OF assms(2), of s] assms(1) by (simp add: Matches_def Match_def)

section \<open>Properties\<close>

text \<open>C8: The table of compiled patterns cannot be seen: whatever mix of \<open>Match\<close> and
  \<open>Search\<close> calls a run makes, starting from the empty table, each call gives the result, or
  raises the exception, of compiling its own pattern afresh.\<close>

theorem lookups_ignore_the_cache:
  "fst (run_lookups ls Map.empty) = map uncached ls"
  using run_lookups_uncached [of Map.empty ls] by simp

text \<open>C9: For a pattern without back references, \<open>Search\<close> finds a match exactly when
  the pattern matches some part of the string, what it returns is such a part, none begins
  further left; and \<open>Match\<close> finds one exactly when the pattern matches at the start.\<close>

theorem Search_finds_leftmost:
  assumes "compile p = Some c" and "no_back (snd c)"
  shows "(Search p s = None \<longleftrightarrow> (\<forall>i j. i \<le> length s \<longrightarrow> (i, j) \<notin> spans (fst c) s (snd c)))
     \<and> (\<forall>m. Search p s = Some m \<longrightarrow>
          mo_start m \<le> mo_end m \<and> mo_end m \<le> length s
          \<and> (mo_start m, mo_end m) \<in> spans (fst c) s (snd c)
          \<and> (\<forall>i j. i < mo_start m \<longrightarrow> (i, j) \<notin> spans (fst c) s (snd c)))
     \<and> (Match p s = None \<longleftrightarrow> (\<forall>j. (0, j) \<notin> spans (fst c) s (snd c)))"
proof (intro conjI allI impI)
  have S: "Search p s = re_search c s" and M: "Match p s = match_at c s 0"
    using assms(1) by (simp_all add: Search_def Match_def re_match_def)
  show "Search p s = None \<longleftrightarrow> (\<forall>i j. i \<le> length s \<longrightarrow> (i, j) \<notin> spans (fst c) s (snd c))"
    using re_search_iff_spans [OF assms(2), of s] S by auto
  show "Match p s = None \<longleftrightarrow> (\<forall>j. (0, j) \<notin> spans (fst c) s (snd c))"
    using match_at_iff_spans [OF assms(2), of 0 s] M by auto
  fix m
  assume "Search p s = Some m"
  then have "first_hit (match_at c s) 0 (Suc (length s) - 0) = Some m"
    by (simp add: S re_search_def search_from_def)
  from rx.search_Some [OF this]
  have m: "mo_start m \<le> mo_end m" "mo_end m \<le> length s" "match_at c s (mo_start m) = Some m"
    "\<And>i. i < mo_start m \<Longrightarrow> match_at c s i = None" by auto
  then show "mo_start m \<le> mo_end m" "mo_end m \<le> length s" by blast+
  have "(mo_end m, mo_groups m) \<in> set (runs (fst c) s (snd c) (mo_start m, Map.empty))"
    using m(3) by (cases m) (auto simp: match_at_def mk_mobj_def split: list.splits)
  then show "(mo_start m, mo_end m) \<in> spans (fst c) s (snd c)"
    using computesD [OF runs_computes_spans [OF assms(2)], of "(mo_start m, Map.empty)" s] m(1,2)
    by force
  fix i j
  assume "i < mo_start m"
  then show "(i, j) \<notin> spans (fst c) s (snd c)"
    using m match_at_iff_spans [OF assms(2), of i s] by fastforce
qed

text \<open>The pattern \<open>ab\<close> is found, though not at the start.\<close>

theorem Search_finds_leftmost_witness:
  "Search (u ''ab'') (u ''cab'') \<noteq> None \<and> Match (u ''ab'') (u ''cab'') = None"
proof -
  have c: "compile (u ''ab'') = Some (no_flags, RSeq (RLit 97) (RLit 98))" by code_simp
  have "(1, 3) \<in> spans no_flags (u ''cab'') (RSeq (RLit 97) (RLit 98))"
    and "(0, j) \<notin> spans no_flags (u ''cab'') (RSeq (RLit 97) (RLit 98))" for j
    by (auto simp: set_match_def u_Cons uchar_of_def relcomp_unfold)
  moreover have "1 \<le> length (u ''cab'')" by simp
  ultimately show ?thesis
    using Search_finds_leftmost [OF c, of "u ''cab''"] unfolding fst_conv snd_conv
    by (metis no_back.simps(2,7))
qed

end
