(* ===== verification/LintState.thy ===== *)
theory LintState
  imports ReCache
begin

text \<open>
  The module-wide state of \<open>clint.py\<close> and how an error reaches the user: the table of
  categories, the class \<open>_CppLintState\<close> (verbosity, filters, counters, output format),
  the table \<open>_error_suppressions\<close> that NOLINT comments fill, the decision
  \<open>_ShouldPrintError\<close> and the handler \<open>Error\<close>.
\<close>

section \<open>Categories and the default filters\<close>

definition ERROR_CATEGORIES :: "ustr list" where
  "ERROR_CATEGORIES = map u
    [''build/class'', ''build/deprecated'', ''build/endif_comment'', ''build/explicit_make_pair'',
     ''build/forward_decl'', ''build/header_guard'', ''build/include'', ''build/include_alpha'',
     ''build/include_order'', ''build/include_what_you_use'', ''build/namespaces'',
     ''build/printf_format'', ''build/storage_class'', ''legal/copyright'',
     ''readability/braces'', ''readability/casting'', ''readability/check'',
     ''readability/constructors'', ''readability/fn_size'', ''readability/function'',
     ''readability/multiline_comment'', ''readability/multiline_string'',
     ''readability/nolint'', ''readability/streams'', ''readability/todo'',
     ''readability/utf8'', ''runtime/arrays'', ''runtime/casting'', ''runtime/explicit'',
     ''runtime/int'', ''runtime/init'', ''runtime/invalid_increment'',
     ''runtime/member_string_references'', ''runtime/memset'', ''runtime/operator'',
     ''runtime/printf'', ''runtime/printf_format'', ''runtime/references'', ''runtime/rtti'',
     ''runtime/sizeof'', ''runtime/string'', ''runtime/threadsafe_fn'', ''runtime/virtual'',
     ''whitespace/blank_line'', ''whitespace/braces'', ''whitespace/comma'',
     ''whitespace/comments'', ''whitespace/end_of_line'', ''whitespace/ending_newline'',
     ''whitespace/indent'', ''whitespace/labels'', ''whitespace/line_length'',
     ''whitespace/newline'', ''whitespace/operators'', ''whitespace/parens'',
     ''whitespace/semicolon'', ''whitespace/tab'', ''whitespace/todo'']"

definition DEFAULT_FILTERS :: "ustr list" where
  "DEFAULT_FILTERS = [u ''-build/include_alpha'']"

section \<open>Colours\<close>

definition bcolors_OKBLUE :: ustr where
  "bcolors_OKBLUE = 27 # u ''[94m''"

definition bcolors_WARNING :: ustr where
  "bcolors_WARNING = 27 # u ''[93m''"

definition bcolors_FAIL :: ustr where
  "bcolors_FAIL = 27 # u ''[91m''"

definition bcolors_BOLD :: ustr where
  "bcolors_BOLD = 27 # u ''[1m''"

definition bcolors_ENDC :: ustr where
  "bcolors_ENDC = 27 # u ''[0m''"

definition bcolors_color :: "ustr \<Rightarrow> ustr \<Rightarrow> ustr" where
  "bcolors_color txt color = color @ txt @ bcolors_ENDC"

section \<open>State\<close>

record lint_state =
  verbose_level :: int
  error_count :: nat
  filters :: "ustr list"
  counting :: ustr
  errors_by_category :: "ustr \<rightharpoonup> nat"
  output_format :: ustr

type_synonym suppressions = "ustr option \<rightharpoonup> int set"

text \<open>The module's globals and what was written to standard error.\<close>

record world =
  cpplint_state :: lint_state
  error_suppressions :: suppressions
  err_out :: "ustr list"

definition CppLintState_init :: lint_state where
  "CppLintState_init = \<lparr>verbose_level = 1, error_count = 0, filters = DEFAULT_FILTERS,
     counting = u ''total'', errors_by_category = Map.empty, output_format = u ''emacs''\<rparr>"

definition SetOutputFormat :: "ustr \<Rightarrow> lint_state \<Rightarrow> lint_state" where
  "SetOutputFormat fmt st = st\<lparr>output_format := fmt\<rparr>"

definition SetVerboseLevel :: "int \<Rightarrow> lint_state \<Rightarrow> int \<times> lint_state" where
  "SetVerboseLevel level st = (verbose_level st, st\<lparr>verbose_level := level\<rparr>)"

definition SetCountingStyle :: "ustr \<Rightarrow> lint_state \<Rightarrow> lint_state" where
  "SetCountingStyle style st = st\<lparr>counting := style\<rparr>"

text \<open>\<open>strip\<close> of a byte string: the flags come from the command line.\<close>

definition byte_strip :: "ustr \<Rightarrow> ustr" where
  "byte_strip s = rstrip_of is_space (lstrip_of is_space s)"

definition filter_ok :: "ustr \<Rightarrow> bool" where
  "filter_ok f \<longleftrightarrow> startswith f (u ''+'') \<or> startswith f (u ''-'')"

text \<open>The state is updated before the filters are checked, also when the check fails.\<close>

definition SetFilters :: "ustr \<Rightarrow> lint_state \<Rightarrow> unit outcome \<times> lint_state" where
  "SetFilters flag st =
     (let fs = DEFAULT_FILTERS @ filter (\<lambda>f. f \<noteq> []) (map byte_strip (py_split flag (u '',''))) in
      (case find (\<lambda>f. \<not> filter_ok f) fs of
         None \<Rightarrow> Ret ()
       | Some f \<Rightarrow> Raise (ValueError (u ''Every filter in --filters must start with + or - (''
                    @ f @ u '' does not)'')),
       st\<lparr>filters := fs\<rparr>))"

definition ResetErrorCounts :: "lint_state \<Rightarrow> lint_state" where
  "ResetErrorCounts st = st\<lparr>error_count := 0, errors_by_category := Map.empty\<rparr>"

definition toplevel :: "ustr \<Rightarrow> ustr" where
  "toplevel category = hd (py_split category (u ''/''))"

definition IncrementErrorCount :: "ustr \<Rightarrow> lint_state \<Rightarrow> lint_state" where
  "IncrementErrorCount category st =
     (let st1 = st\<lparr>error_count := Suc (error_count st)\<rparr> in
      if counting st1 \<in> {u ''toplevel'', u ''detailed''} then
        (let cat = (if counting st1 \<noteq> u ''detailed'' then toplevel category else category);
             n = (case errors_by_category st1 cat of None \<Rightarrow> 0 | Some k \<Rightarrow> k)
         in st1\<lparr>errors_by_category := (errors_by_category st1)(cat \<mapsto> Suc n)\<rparr>)
      else st1)"

text \<open>\<open>order\<close> is the order in which the dictionary of counts is iterated.\<close>

definition PrintErrorCounts :: "ustr list \<Rightarrow> lint_state \<Rightarrow> ustr list" where
  "PrintErrorCounts order st =
     map (\<lambda>category.
        (let count = (case errors_by_category st category of None \<Rightarrow> 0 | Some k \<Rightarrow> k);
             color = (if count \<noteq> 0 then bcolors_FAIL else bcolors_OKBLUE)
         in bcolors_color (u ''Category @'' @ category @ u ''@ errors found: ''
              @ show_int (int count) @ [10]) color)) order
     @ [let color = (if error_count st \<noteq> 0 then bcolors_FAIL else bcolors_OKBLUE)
        in bcolors_color (u ''Total errors found: '' @ show_int (int (error_count st)) @ [10])
             (color @ bcolors_BOLD)]"

section \<open>NOLINT\<close>

definition RE_SUPPRESSION :: ustr where
  "RE_SUPPRESSION = u ''`bNOLINT`b(`([^)]*`))?''"

definition ParseNolintSuppressions :: "ustr \<Rightarrow> ustr \<Rightarrow> int \<Rightarrow> unit chk" where
  "ParseNolintSuppressions filename raw_line linenum =
     (case Search RE_SUPPRESSION raw_line of
        None \<Rightarrow> skip
      | Some matched \<Rightarrow>
          (case group matched 1 of
             None \<Rightarrow> effect (Suppress None linenum)
           | Some category \<Rightarrow>
               if category = u ''(*)'' then effect (Suppress None linenum)
               else if startswith category (u ''('') \<and> endswith category (u '')'') then
                 (let category' = slice category 1 (- 1) in
                  if category' \<in> set ERROR_CATEGORIES
                  then effect (Suppress (Some category') linenum)
                  else error filename linenum (u ''readability/nolint'') 5
                         (u ''Unknown NOLINT error category: '' @ category'))
               else skip))"

definition suppress :: "ustr option \<Rightarrow> int \<Rightarrow> suppressions \<Rightarrow> suppressions" where
  "suppress key linenum supp =
     supp(key \<mapsto> insert linenum (case supp key of None \<Rightarrow> {} | Some ns \<Rightarrow> ns))"

definition ResetNolintSuppressions :: "unit chk" where
  "ResetNolintSuppressions = effect ClearSuppressions"

definition IsErrorSuppressedByNolint :: "ustr \<Rightarrow> int \<Rightarrow> suppressions \<Rightarrow> bool" where
  "IsErrorSuppressedByNolint category linenum supp \<longleftrightarrow>
     linenum \<in> (case supp (Some category) of None \<Rightarrow> {} | Some ns \<Rightarrow> ns)
     \<or> linenum \<in> (case supp None of None \<Rightarrow> {} | Some ns \<Rightarrow> ns)"

section \<open>The error handler\<close>

text \<open>The loop over the filters, with the assertion of its last branch.\<close>

fun run_filters :: "ustr \<Rightarrow> ustr list \<Rightarrow> bool \<Rightarrow> bool outcome" where
  "run_filters category [] is_filtered = Ret is_filtered"
| "run_filters category (f # fs) is_filtered =
     (if startswith f (u ''-'') then
        run_filters category fs (if startswith category (slice_from f 1) then True else is_filtered)
      else if startswith f (u ''+'') then
        run_filters category fs (if startswith category (slice_from f 1) then False else is_filtered)
      else Raise (AssertionError []))"

definition ShouldPrintError :: "ustr \<Rightarrow> int \<Rightarrow> int \<Rightarrow> world \<Rightarrow> bool outcome" where
  "ShouldPrintError category confidence linenum w =
     (if IsErrorSuppressedByNolint category linenum (error_suppressions w) then Ret False
      else if confidence < verbose_level (cpplint_state w) then Ret False
      else bind_out (run_filters category (filters (cpplint_state w)) False)
             (\<lambda>is_filtered. if is_filtered then Ret False else Ret True))"

definition error_text :: "ustr \<Rightarrow> diag \<Rightarrow> ustr" where
  "error_text fmt d =
     (if fmt = u ''vs7'' then
        bcolors_color (d_file d @ u ''('' @ show_int (d_line d) @ u ''):  '' @ d_msg d @ u ''  [''
          @ d_cat d @ u ''] ['' @ show_int (d_conf d) @ u '']'' @ [10]) bcolors_FAIL
      else
        bcolors_color (d_file d @ u '':'' @ show_int (d_line d) @ u '':  '' @ d_msg d @ u ''  [''
          @ d_cat d @ u ''] ['' @ show_int (d_conf d) @ u '']'' @ [10]) bcolors_FAIL)"

definition Error :: "diag \<Rightarrow> world \<Rightarrow> world outcome" where
  "Error d w =
     bind_out (ShouldPrintError (d_cat d) (d_conf d) (d_line d) w) (\<lambda>b.
       if b then
         (let st = IncrementErrorCount (d_cat d) (cpplint_state w) in
          Ret (w\<lparr>cpplint_state := st, err_out := err_out w @ [error_text (output_format st) d]\<rparr>))
       else Ret w)"

text \<open>The effects of a check on the module's state, one after the other.\<close>

fun apply_effect :: "effect \<Rightarrow> world \<Rightarrow> world outcome" where
  "apply_effect (Report d) w = Error d w"
| "apply_effect (Suppress key linenum) w =
     Ret (w\<lparr>error_suppressions := suppress key linenum (error_suppressions w)\<rparr>)"
| "apply_effect ClearSuppressions w = Ret (w\<lparr>error_suppressions := Map.empty\<rparr>)"

fun run_steps :: "('e \<Rightarrow> 'w \<Rightarrow> 'w outcome) \<Rightarrow> 'e list \<Rightarrow> 'w \<Rightarrow> 'w outcome" where
  "run_steps step [] w = Ret w"
| "run_steps step (e # es) w = bind_out (step e w) (run_steps step es)"

definition apply_effects :: "effect list \<Rightarrow> world \<Rightarrow> world outcome" where
  "apply_effects es w = run_steps apply_effect es w"

section \<open>The filters: the last one that names a prefix of the category decides\<close>

definition deciding_filter :: "ustr \<Rightarrow> ustr list \<Rightarrow> ustr option" where
  "deciding_filter category fs = find (\<lambda>f. startswith category (drop 1 f)) (rev fs)"

definition filtered_out :: "ustr \<Rightarrow> ustr list \<Rightarrow> bool" where
  "filtered_out category fs \<longleftrightarrow>
     (case deciding_filter category fs of None \<Rightarrow> False | Some f \<Rightarrow> startswith f (u ''-''))"

definition filters_ok :: "world \<Rightarrow> bool" where
  "filters_ok w \<longleftrightarrow> list_all filter_ok (filters (cpplint_state w))"

lemma deciding_filter_snoc:
  "deciding_filter c (f # fs) =
     (case deciding_filter c fs of Some g \<Rightarrow> Some g
      | None \<Rightarrow> if startswith c (drop 1 f) then Some f else None)"
proof -
  have "find P (xs @ [x]) = (case find P xs of Some y \<Rightarrow> Some y | None \<Rightarrow> if P x then Some x else None)"
    for P and xs :: "ustr list" and x
    by (induction xs) auto
  then show ?thesis by (simp add: deciding_filter_def)
qed

lemma slice_from_1 [simp]: "slice_from s 1 = drop 1 s"
  using slice_from_nat [of s 1] by simp

lemma sign_excl: "startswith f (u ''+'') \<Longrightarrow> \<not> startswith f (u ''-'')"
  by (auto simp: startswith_iff u_Cons uchar_of_def)

lemma run_filters_eq:
  "list_all filter_ok fs \<Longrightarrow> run_filters c fs b =
     Ret (case deciding_filter c fs of None \<Rightarrow> b | Some f \<Rightarrow> startswith f (u ''-''))"
proof (induction fs arbitrary: b)
  case Nil
  then show ?case by (simp add: deciding_filter_def)
next
  case (Cons f fs)
  then have fs: "list_all filter_ok fs" and "filter_ok f" by simp_all
  then have "startswith f (u ''+'') \<or> startswith f (u ''-'')" by (simp add: filter_ok_def)
  then show ?case
    by (auto simp: Cons.IH [OF fs] deciding_filter_snoc sign_excl split: option.split)
qed

definition prints :: "diag \<Rightarrow> world \<Rightarrow> bool" where
  "prints d w \<longleftrightarrow>
     \<not> IsErrorSuppressedByNolint (d_cat d) (d_line d) (error_suppressions w)
     \<and> verbose_level (cpplint_state w) \<le> d_conf d
     \<and> \<not> filtered_out (d_cat d) (filters (cpplint_state w))"

lemma ShouldPrintError_eq:
  "filters_ok w \<Longrightarrow> ShouldPrintError (d_cat d) (d_conf d) (d_line d) w = Ret (prints d w)"
  unfolding ShouldPrintError_def prints_def filters_ok_def
  by (simp add: run_filters_eq filtered_out_def)

lemma Error_eq:
  "filters_ok w \<Longrightarrow> Error d w =
     Ret (if prints d w then
            w\<lparr>cpplint_state := IncrementErrorCount (d_cat d) (cpplint_state w),
              err_out := err_out w @ [error_text (output_format (cpplint_state w)) d]\<rparr>
          else w)"
  by (simp add: Error_def ShouldPrintError_eq IncrementErrorCount_def Let_def)

section \<open>Setting the filters\<close>

definition flag_filters :: "ustr \<Rightarrow> ustr list" where
  "flag_filters flag = DEFAULT_FILTERS @
     filter (\<lambda>f. f \<noteq> []) (map byte_strip (py_split flag (u '','')))"

lemma filters_SetFilters [simp]: "filters (snd (SetFilters flag st)) = flag_filters flag"
  by (simp add: SetFilters_def flag_filters_def Let_def)

lemma find_list_all: "find (\<lambda>x. \<not> P x) xs = None \<longleftrightarrow> list_all P xs"
  by (induction xs) auto

lemma find_first_iff:
  "find (\<lambda>x. \<not> P x) xs = Some y \<longleftrightarrow> (\<exists>good rest. xs = good @ y # rest \<and> list_all P good \<and> \<not> P y)"
proof (induction xs)
  case Nil
  show ?case by simp
next
  case (Cons a xs)
  show ?case
  proof (cases "P a")
    case True
    have "(\<exists>good rest. a # xs = good @ y # rest \<and> list_all P good \<and> \<not> P y)"
      if "xs = good @ y # rest" "list_all P good" "\<not> P y" for good rest
      using that True by (intro exI [of _ "a # good"] exI [of _ rest]) simp
    moreover have "\<exists>good' rest. xs = good' @ y # rest \<and> list_all P good' \<and> \<not> P y"
      if "a # xs = good @ y # rest" "list_all P good" "\<not> P y" for good rest
      using that True by (cases good) auto
    ultimately have "(\<exists>good rest. a # xs = good @ y # rest \<and> list_all P good \<and> \<not> P y) \<longleftrightarrow>
        (\<exists>good rest. xs = good @ y # rest \<and> list_all P good \<and> \<not> P y)"
      by blast
    with True Cons show ?thesis by simp
  next
    case False
    then show ?thesis by (auto simp: Cons_eq_append_conv)
  qed
qed

lemma SetFilters_Ret:
  "fst (SetFilters flag st) = Ret () \<longleftrightarrow> list_all filter_ok (flag_filters flag)"
  unfolding find_list_all [symmetric] SetFilters_def flag_filters_def Let_def
  by (simp split: option.split)

section \<open>The frame of the error counter\<close>

lemma IncrementErrorCount_frame [simp]:
  "verbose_level (IncrementErrorCount c st) = verbose_level st"
  "filters (IncrementErrorCount c st) = filters st"
  "counting (IncrementErrorCount c st) = counting st"
  "output_format (IncrementErrorCount c st) = output_format st"
  "error_count (IncrementErrorCount c st) = Suc (error_count st)"
  by (simp_all add: IncrementErrorCount_def Let_def)

definition bucket :: "lint_state \<Rightarrow> ustr \<Rightarrow> ustr" where
  "bucket st c = (if counting st = u ''detailed'' then c else toplevel c)"

definition by_category :: "lint_state \<Rightarrow> bool" where
  "by_category st \<longleftrightarrow> counting st = u ''toplevel'' \<or> counting st = u ''detailed''"

definition tally :: "(ustr \<rightharpoonup> nat) \<Rightarrow> ustr \<Rightarrow> nat" where
  "tally m c = (case m c of None \<Rightarrow> 0 | Some n \<Rightarrow> n)"

lemma the_tally: "c \<in> dom m \<Longrightarrow> the (m c) = tally m c"
  by (auto simp: tally_def)

lemma IncrementErrorCount_buckets:
  "errors_by_category (IncrementErrorCount c st) =
     (if by_category st
      then (errors_by_category st)(bucket st c \<mapsto> Suc (tally (errors_by_category st) (bucket st c)))
      else errors_by_category st)"
  by (auto simp: IncrementErrorCount_def Let_def by_category_def bucket_def tally_def)

text \<open>The counts of the categories add up to the count of all errors.\<close>

definition counts_add_up :: "lint_state \<Rightarrow> bool" where
  "counts_add_up st \<longleftrightarrow> finite (dom (errors_by_category st))
     \<and> (\<Sum>c \<in> dom (errors_by_category st). tally (errors_by_category st) c) = error_count st"

lemma counts_add_up_step:
  assumes "counts_add_up st" "by_category st"
  shows "counts_add_up (IncrementErrorCount c st)"
proof -
  let ?m = "errors_by_category st" and ?b = "bucket st c"
  let ?m' = "?m(?b \<mapsto> Suc (tally ?m ?b))"
  have fin: "finite (dom ?m)" and sum: "(\<Sum>c \<in> dom ?m. tally ?m c) = error_count st"
    using assms(1) by (simp_all add: counts_add_up_def)
  have "(\<Sum>c \<in> dom ?m'. tally ?m' c) = tally ?m' ?b + (\<Sum>c \<in> dom ?m - {?b}. tally ?m' c)"
    using fin by (simp add: sum.insert_remove)
  also have "(\<Sum>c \<in> dom ?m - {?b}. tally ?m' c) = (\<Sum>c \<in> dom ?m - {?b}. tally ?m c)"
    by (rule sum.cong) (auto simp: tally_def)
  also have "tally ?m' ?b + \<dots> = Suc (tally ?m ?b + (\<Sum>c \<in> dom ?m - {?b}. tally ?m c))"
    by (simp add: tally_def)
  also have "tally ?m ?b + (\<Sum>c \<in> dom ?m - {?b}. tally ?m c) = (\<Sum>c \<in> dom ?m. tally ?m c)"
  proof (cases "?b \<in> dom ?m")
    case True
    then show ?thesis using fin by (simp add: sum.remove)
  next
    case False
    then show ?thesis by (simp add: tally_def domIff)
  qed
  finally show ?thesis
    using assms(2) fin sum
    by (simp only: counts_add_up_def IncrementErrorCount_buckets IncrementErrorCount_frame
        if_True dom_fun_upd finite_insert option.simps if_False)
qed

section \<open>The handler as a sink of effects\<close>

text \<open>
  What a run over a file may rely on: a step keeps the invariant, never fails under it, and
  grows two measures of the state by the same amount.
\<close>

locale effect_sink =
  fixes step :: "'e \<Rightarrow> 'w \<Rightarrow> 'w outcome" and inv :: "'w \<Rightarrow> bool"
    and rel :: "'w \<Rightarrow> 'w \<Rightarrow> bool"
  assumes step_ok: "inv w \<Longrightarrow> \<exists>w'. step e w = Ret w' \<and> inv w' \<and> rel w w'"
    and rel_refl: "rel w w"
    and rel_trans: "rel w w' \<Longrightarrow> rel w' w'' \<Longrightarrow> rel w w''"
begin

lemma run_ok: "inv w \<Longrightarrow> \<exists>w'. run_steps step es w = Ret w' \<and> inv w' \<and> rel w w'"
proof (induction es arbitrary: w)
  case Nil
  then show ?case using rel_refl by auto
next
  case (Cons e es)
  from step_ok [OF Cons.prems, of e] obtain w1 where
    w1: "step e w = Ret w1" "inv w1" "rel w w1" by blast
  from Cons.IH [OF w1(2)] obtain w2 where "run_steps step es w1 = Ret w2" "inv w2" "rel w1 w2" by blast
  with w1 show ?case using rel_trans by auto
qed

end

text \<open>Each printed line is one counted error; the configuration never changes.\<close>

definition grows :: "world \<Rightarrow> world \<Rightarrow> bool" where
  "grows w w' \<longleftrightarrow>
     (\<exists>new. err_out w' = err_out w @ new
        \<and> error_count (cpplint_state w') = error_count (cpplint_state w) + length new)
     \<and> filters (cpplint_state w') = filters (cpplint_state w)
     \<and> verbose_level (cpplint_state w') = verbose_level (cpplint_state w)
     \<and> counting (cpplint_state w') = counting (cpplint_state w)
     \<and> output_format (cpplint_state w') = output_format (cpplint_state w)"

lemma grows_refl: "grows w w"
  by (simp add: grows_def)

lemma grows_trans: "grows w w' \<Longrightarrow> grows w' w'' \<Longrightarrow> grows w w''"
  by (auto simp: grows_def)

lemma apply_effect_grows:
  "filters_ok w \<Longrightarrow> \<exists>w'. apply_effect e w = Ret w' \<and> filters_ok w' \<and> grows w w'"
  by (cases e) (auto simp: Error_eq filters_ok_def grows_def)

interpretation handler: effect_sink apply_effect filters_ok grows
  by unfold_locales (auto intro: apply_effect_grows grows_refl elim: grows_trans)

text \<open>The same interface for the state counted by category.\<close>

definition tallied :: "world \<Rightarrow> bool" where
  "tallied w \<longleftrightarrow> filters_ok w \<and> by_category (cpplint_state w) \<and> counts_add_up (cpplint_state w)"

lemma apply_effect_tallied:
  assumes "tallied w"
  shows "\<exists>w'. apply_effect e w = Ret w' \<and> tallied w' \<and> grows w w'"
proof -
  from assms have "filters_ok w" by (simp add: tallied_def)
  from apply_effect_grows [OF this, of e] obtain w' where
    w': "apply_effect e w = Ret w'" "filters_ok w'" "grows w w'" by blast
  moreover have "counts_add_up (cpplint_state w')"
    using assms w'(1) \<open>filters_ok w\<close>
    by (cases e) (auto simp: tallied_def Error_eq split: if_splits intro: counts_add_up_step)
  ultimately show ?thesis
    using assms by (auto simp: tallied_def by_category_def grows_def)
qed

interpretation tallies: effect_sink apply_effect tallied grows
  by unfold_locales (auto intro: apply_effect_tallied grows_refl elim: grows_trans)

section \<open>Properties of the handler\<close>

lemma deciding_filter_split:
  "filtered_out c fs \<longleftrightarrow>
     (\<exists>before f after. fs = before @ f # after \<and> startswith f (u ''-'') \<and> startswith c (drop 1 f)
        \<and> (\<forall>g \<in> set after. \<not> startswith c (drop 1 g)))"
proof (induction fs)
  case Nil
  show ?case by (simp add: filtered_out_def deciding_filter_def)
next
  case (Cons f fs)
  have none: "deciding_filter c fs = None \<longleftrightarrow> (\<forall>g \<in> set fs. \<not> startswith c (drop 1 g))"
    by (auto simp: deciding_filter_def find_None_iff)
  have split: "(\<exists>before g after. f # fs = before @ g # after \<and> P g after) \<longleftrightarrow>
      P f fs \<or> (\<exists>before g after. fs = before @ g # after \<and> P g after)" for P
    by (auto simp: Cons_eq_append_conv)
  show ?case
    unfolding split Cons.IH [symmetric]
    using none by (auto simp: filtered_out_def deciding_filter_snoc split: option.split)
qed

text \<open>C1: The error handler never fails under well-formed filters. It changes the state
  exactly when no NOLINT entry covers the line, the confidence reaches the verbosity, and the
  last filter that names a prefix of the category, if there is one, is not a minus filter; then
  it counts the error once and writes one line.\<close>

theorem error_printed_iff:
  assumes "filters_ok w"
  shows "\<exists>w'. Error d w = Ret w'
     \<and> (if \<not> IsErrorSuppressedByNolint (d_cat d) (d_line d) (error_suppressions w)
           \<and> verbose_level (cpplint_state w) \<le> d_conf d
           \<and> \<not> (\<exists>before f after. filters (cpplint_state w) = before @ f # after
                  \<and> startswith f (u ''-'') \<and> startswith (d_cat d) (drop 1 f)
                  \<and> (\<forall>g \<in> set after. \<not> startswith (d_cat d) (drop 1 g)))
        then err_out w' = err_out w @ [error_text (output_format (cpplint_state w)) d]
           \<and> error_count (cpplint_state w') = Suc (error_count (cpplint_state w))
           \<and> error_suppressions w' = error_suppressions w
        else w' = w)"
  unfolding deciding_filter_split [symmetric]
  using assms by (simp add: Error_eq prints_def)

definition example_world :: world where
  "example_world = \<lparr>cpplint_state = snd (SetFilters (u ''-whitespace,+whitespace/tab'') CppLintState_init),
     error_suppressions = Map.empty, err_out = []\<rparr>"

definition example_diag :: "ustr \<Rightarrow> diag" where
  "example_diag c = \<lparr>d_file = u ''a.c'', d_line = 3, d_cat = c, d_conf = 1, d_msg = u ''Tab''\<rparr>"

lemma example_world_ok: "filters_ok example_world"
  by code_simp

text \<open>A tab is printed although the earlier filter turns all white space off.\<close>

theorem error_printed_iff_witness:
  "\<exists>w'. Error (example_diag (u ''whitespace/tab'')) example_world = Ret w'
     \<and> err_out w' = [error_text (u ''emacs'') (example_diag (u ''whitespace/tab''))]"
proof -
  have p: "\<not> IsErrorSuppressedByNolint (u ''whitespace/tab'') 3 (error_suppressions example_world)"
    "\<not> filtered_out (u ''whitespace/tab'') (filters (cpplint_state example_world))"
    "verbose_level (cpplint_state example_world) \<le> 1"
    "err_out example_world = []" "output_format (cpplint_state example_world) = u ''emacs''"
    by code_simp+
  show ?thesis
    using error_printed_iff [OF example_world_ok, of "example_diag (u ''whitespace/tab'')",
        unfolded deciding_filter_split [symmetric]] p
    by (auto simp: example_diag_def)
qed



text \<open>C3: When errors are counted by category, the per-category counts always add up to
  the total that the final summary prints.\<close>

theorem category_counts_add_up:
  assumes "filters_ok w" "by_category (cpplint_state w)" "counts_add_up (cpplint_state w)"
    and "apply_effects es w = Ret w'"
  shows "(\<Sum>c \<in> dom (errors_by_category (cpplint_state w')).
            the (errors_by_category (cpplint_state w') c)) = error_count (cpplint_state w')"
proof -
  have "tallied w" using assms(1-3) by (simp add: tallied_def)
  from tallies.run_ok [OF this, of es] assms(4) have "counts_add_up (cpplint_state w')"
    by (simp add: apply_effects_def tallied_def)
  then show ?thesis
    by (simp add: counts_add_up_def the_tally cong: sum.cong)
qed

theorem category_counts_add_up_witness:
  "\<exists>w'. apply_effects [Report (example_diag (u ''readability/todo''))]
      (example_world\<lparr>cpplint_state := SetCountingStyle (u ''toplevel'') (cpplint_state example_world)\<rparr>) = Ret w'
   \<and> (\<Sum>c \<in> dom (errors_by_category (cpplint_state w')).
            the (errors_by_category (cpplint_state w') c)) = error_count (cpplint_state w')"
proof -
  let ?w = "example_world\<lparr>cpplint_state := SetCountingStyle (u ''toplevel'') (cpplint_state example_world)\<rparr>"
  have ok: "filters_ok ?w"
    using example_world_ok by (simp add: filters_ok_def SetCountingStyle_def)
  moreover have "by_category (cpplint_state ?w)" "counts_add_up (cpplint_state ?w)"
    by (simp_all add: by_category_def counts_add_up_def SetCountingStyle_def example_world_def
        SetFilters_def CppLintState_init_def Let_def)
  moreover obtain w' where "apply_effects [Report (example_diag (u ''readability/todo''))] ?w = Ret w'"
    using handler.run_ok [OF ok] unfolding apply_effects_def by blast
  ultimately show ?thesis using category_counts_add_up by blast
qed



text \<open>C5: The two ways of counting by category agree: on one sequence of errors the count
  of a top-level category is the sum of the detailed counts below it, and the totals are
  equal.\<close>

theorem toplevel_counts_sum_detailed:
  assumes "counting st = u ''toplevel''"
  shows "errors_by_category (fold IncrementErrorCount cs (ResetErrorCounts st)) c =
      (let n = length (filter (\<lambda>d. toplevel d = c) cs) in if n = 0 then None else Some n)
    \<and> length (filter (\<lambda>d. toplevel d = c) cs) =
      (\<Sum>d \<in> {d \<in> set cs. toplevel d = c}.
         tally (errors_by_category (fold IncrementErrorCount cs
            (SetCountingStyle (u ''detailed'') (ResetErrorCounts st)))) d)
    \<and> error_count (fold IncrementErrorCount cs (ResetErrorCounts st)) = length cs"
proof (intro conjI)
  have count: "tally (errors_by_category (fold IncrementErrorCount cs s)) b
      = tally (errors_by_category s) b + length (filter (\<lambda>d. bucket s d = b) cs)"
    and some: "errors_by_category (fold IncrementErrorCount cs s) b = None \<longleftrightarrow>
      errors_by_category s b = None \<and> (\<forall>d \<in> set cs. bucket s d \<noteq> b)"
    and total: "error_count (fold IncrementErrorCount cs s) = error_count s + length cs"
    if "by_category s" for s b cs
    using that by (induction cs arbitrary: s)
      (auto simp: IncrementErrorCount_buckets tally_def by_category_def bucket_def)
  have top: "by_category (ResetErrorCounts st)" "bucket (ResetErrorCounts st) = toplevel"
    "errors_by_category (ResetErrorCounts st) = Map.empty" "error_count (ResetErrorCounts st) = 0"
    using assms by (auto simp: by_category_def ResetErrorCounts_def bucket_def u_Cons uchar_of_def)
  let ?d = "SetCountingStyle (u ''detailed'') (ResetErrorCounts st)"
  have det: "by_category ?d" "bucket ?d = (\<lambda>c. c)" "errors_by_category ?d = Map.empty"
    by (auto simp: by_category_def ResetErrorCounts_def SetCountingStyle_def bucket_def)
  show "errors_by_category (fold IncrementErrorCount cs (ResetErrorCounts st)) c =
      (let n = length (filter (\<lambda>d. toplevel d = c) cs) in if n = 0 then None else Some n)"
    using count [OF top(1), of cs c] some [OF top(1), of cs c] top(2,3)
    by (auto simp: tally_def filter_empty_conv Let_def split: option.splits)
  have "count_list (filter (\<lambda>d. toplevel d = c) cs) d = count_list cs d" if "toplevel d = c" for d
    using that by (induction cs) auto
  then have "(\<Sum>d \<in> {d \<in> set cs. toplevel d = c}. count_list cs d) = length (filter (\<lambda>d. toplevel d = c) cs)"
    by (subst sum_count_set [symmetric, of _ "{d \<in> set cs. toplevel d = c}"]) (auto intro!: sum.cong)
  moreover have "length (filter (\<lambda>e. e = d) cs) = count_list cs d" for d
    by (induction cs) auto
  ultimately show "length (filter (\<lambda>d. toplevel d = c) cs) =
      (\<Sum>d \<in> {d \<in> set cs. toplevel d = c}. tally (errors_by_category (fold IncrementErrorCount cs ?d)) d)"
    using count [OF det(1), of cs] det(2,3) by (simp add: tally_def)
  show "error_count (fold IncrementErrorCount cs (ResetErrorCounts st)) = length cs"
    using total [OF top(1), of cs] top(4) by simp
qed

theorem toplevel_counts_sum_detailed_witness:
  "errors_by_category (fold IncrementErrorCount [u ''build/class'', u ''build/include'']
     (ResetErrorCounts (SetCountingStyle (u ''toplevel'') CppLintState_init))) (u ''build'') = Some 2"
proof -
  have "length (filter (\<lambda>d. toplevel d = u ''build'') [u ''build/class'', u ''build/include'']) = 2"
    by code_simp
  then show ?thesis
    using toplevel_counts_sum_detailed [of "SetCountingStyle (u ''toplevel'') CppLintState_init"
        "[u ''build/class'', u ''build/include'']" "u ''build''", THEN conjunct1]
    by (simp only: SetCountingStyle_def Let_def) simp
qed

end
