(* ===== verification/Nolint.thy ===== *)
theory Nolint
  imports LintState
begin

text \<open>
  What \<open>ParseNolintSuppressions\<close> makes of a line, for every shape of a NOLINT comment,
  by following the matcher through \<open>_RE_SUPPRESSION\<close>; and what this means for the errors
  that are reported on the line afterwards.
\<close>

section \<open>The runs of the pattern\<close>

definition nolint_tail :: re where
  "nolint_tail = RSeq RWordB (ROpt (RGroup 1 (RSeq (RLit 40)
     (RSeq (RStar (RSet True [CLit 41])) (RLit 41)))))"

lemma compile_RE_SUPPRESSION [compiled]:
  "compile RE_SUPPRESSION = Some (no_flags, RSeq RWordB (lit_word (u ''NOLINT'') nolint_tail))"
  by code_simp

definition nolint_at :: "ustr \<Rightarrow> nat \<Rightarrow> bool" where
  "nolint_at s i \<longleftrightarrow> i \<le> length s \<and> occurs_at s (u ''NOLINT'') i \<and> word_boundary s i \<and> word_boundary s (i + 6)"

lemma runs_suppression:
  "runs no_flags s (RSeq RWordB (lit_word (u ''NOLINT'') nolint_tail)) (i, g) =
     (if nolint_at s i
      then runs no_flags s (ROpt (RGroup 1 (RSeq (RLit 40)
             (RSeq (RStar (RSet True [CLit 41])) (RLit 41))))) (i + 6, g)
      else [])"
  by (auto simp: runs_lit_word nolint_tail_def nolint_at_def eval_nat_numeral simp del: runs.simps(11))

lemma opt_hd:
  "runs fl s (ROpt r) (i, g) = (case runs fl s r (i, g) of [] \<Rightarrow> [(i, g)]
     | ts \<Rightarrow> ts @ [(i, g)])"
proof -
  have "concat (map (\<lambda>t. if fst t = i then [t] else run_upto 0 True (runs fl s r) t) ts) = ts" for ts
    by (induction ts) auto
  then show ?thesis by (simp add: iter_fuel_def run_upto.simps Let_def split: list.split)
qed

lemma runs_paren_group:
  assumes "drop i s = 40 # cat @ 41 # post" "41 \<notin> set cat"
  shows "\<exists>rest. runs no_flags s (RSeq (RLit 40) (RSeq (RStar (RSet True [CLit 41])) (RLit 41))) (i, g)
     = (i + length cat + 2, g) # rest"
proof -
  have i: "i < length s" using assms(1) by (metis drop_eq_Nil2 leI list.distinct(1))
  have d: "drop (Suc i) s = cat @ 41 # post" using assms(1) by (metis drop_Suc list.sel(3) tl_drop)
  have "s ! i = 40" using assms(1) i by (metis Cons_nth_drop_Suc list.inject)
  have "run_length (set_match no_flags True [CLit 41]) s (Suc i) = length cat"
    unfolding run_length_def d using assms(2)
    by (subst takeWhile_append2) auto
  then obtain rest where r: "runs no_flags s (RStar (RSet True [CLit 41])) (Suc i, g) =
      (Suc i + length cat, g) # rest"
    using hd_runs_star_class [of no_flags s True "[CLit 41]" "Suc i" g] by auto
  have "drop (Suc i + length cat) s = 41 # post" using d by (metis append_eq_conv_conj drop_drop add.commute)
  then have "Suc i + length cat < length s" "s ! (Suc i + length cat) = 41"
    by (metis drop_eq_Nil2 leI list.distinct(1), metis nth_via_drop)
  then show ?thesis using i \<open>s ! i = 40\<close> r by (simp del: runs.simps(11))
qed

lemma uchar_of_paren: "uchar_of CHR ''('' = 40"
  by (simp add: uchar_of_def)

lemma runs_paren_none:
  assumes "\<not> startswith (drop i s) (u ''('') \<or> 41 \<notin> set (drop i s)"
  shows "runs no_flags s (RSeq (RLit 40) (RSeq (RStar (RSet True [CLit 41])) (RLit 41))) (i, g) = []"
proof (cases "startswith (drop i s) (u ''('')")
  case True
  then have no: "41 \<notin> set (drop i s)" using assms by simp
  have "runs no_flags s (RLit 41) (Suc i + k, g) = []" for k
  proof -
    have "s ! (Suc i + k) \<in> set (drop i s)" if "Suc i + k < length s"
      using that nth_mem [of "Suc k" "drop i s"] by simp
    with no show ?thesis by auto
  qed
  then have "runs no_flags s (RSeq (RStar (RSet True [CLit 41])) (RLit 41)) (Suc i, g) = []"
    by (simp add: runs_star_class del: runs.simps(11) runs.simps(2))
  then show ?thesis by simp
next
  case False
  then have "i < length s \<longrightarrow> s ! i \<noteq> 40"
    by (metis Cons_nth_drop_Suc startswith_Cons startswith_Nil u_Cons u_Nil uchar_of_paren)
  then show ?thesis by (auto simp del: runs.simps(11))
qed

lemma Search_suppression_none:
  assumes "\<And>k. \<not> nolint_at s k"
  shows "Search RE_SUPPRESSION s = None"
proof -
  have "match_at (no_flags, RSeq RWordB (lit_word (u ''NOLINT'') nolint_tail)) s k = None" for k
    by (rule match_at_none) (simp only: fst_conv snd_conv runs_suppression assms if_False)
  then show ?thesis unfolding Search_def compiled option.case by (rule re_search_none)
qed

lemma Search_suppression_at:
  assumes "nolint_at s i" "\<And>k. k < i \<Longrightarrow> \<not> nolint_at s k"
    and "runs no_flags s (ROpt (RGroup 1 (RSeq (RLit 40)
             (RSeq (RStar (RSet True [CLit 41])) (RLit 41))))) (i + 6, Map.empty) = (j, g) # rest"
  shows "Search RE_SUPPRESSION s = Some \<lparr>mo_text = s, mo_start = i, mo_end = j, mo_groups = g\<rparr>"
  unfolding Search_def compiled option.case
proof (rule re_search_at)
  show "match_at (no_flags, RSeq RWordB (lit_word (u ''NOLINT'') nolint_tail)) s k = None" if "k < i" for k
    by (rule match_at_none) (simp only: fst_conv snd_conv runs_suppression assms(2) [OF that] if_False)
  show "match_at (no_flags, RSeq RWordB (lit_word (u ''NOLINT'') nolint_tail)) s i
      = Some \<lparr>mo_text = s, mo_start = i, mo_end = j, mo_groups = g\<rparr>"
    by (rule match_at_hd) (simp only: fst_conv snd_conv runs_suppression assms(1,3) if_True)
  show "i \<le> length s" using assms(1) by (simp add: nolint_at_def)
qed

lemma Search_suppression_plain:
  assumes "nolint_at s i" "\<And>k. k < i \<Longrightarrow> \<not> nolint_at s k" "\<not> startswith (drop (i + 6) s) (u ''('') \<or> 41 \<notin> set (drop (i + 6) s)"
  shows "\<exists>m. Search RE_SUPPRESSION s = Some m \<and> group m 1 = None"
proof -
  have "runs no_flags s (ROpt (RGroup 1 (RSeq (RLit 40)
      (RSeq (RStar (RSet True [CLit 41])) (RLit 41))))) (i + 6, Map.empty) = [(i + 6, Map.empty)]"
    unfolding opt_hd runs.simps(9) fst_conv snd_conv runs_paren_none [OF assms(3)] by simp
  from Search_suppression_at [OF assms(1,2) this] show ?thesis by (simp add: group_def)
qed

lemma Search_suppression_group:
  assumes "nolint_at s i" "\<And>k. k < i \<Longrightarrow> \<not> nolint_at s k"
    and "drop (i + 6) s = 40 # cat @ 41 # post" "41 \<notin> set cat"
  shows "\<exists>m. Search RE_SUPPRESSION s = Some m \<and> group m 1 = Some (40 # cat @ [41])"
proof -
  from runs_paren_group [OF assms(3,4), of Map.empty] obtain rest where
    r: "runs no_flags s (RSeq (RLit 40) (RSeq (RStar (RSet True [CLit 41])) (RLit 41))) (i + 6, Map.empty)
      = (i + 6 + length cat + 2, Map.empty) # rest" by blast
  have "\<exists>rest'. runs no_flags s (ROpt (RGroup 1 (RSeq (RLit 40)
      (RSeq (RStar (RSet True [CLit 41])) (RLit 41))))) (i + 6, Map.empty)
      = (i + 6 + length cat + 2, Map.empty(1 \<mapsto> (i + 6, i + 6 + length cat + 2))) # rest'"
    unfolding opt_hd runs.simps(9) fst_conv snd_conv r by simp
  then obtain rest' where "runs no_flags s (ROpt (RGroup 1 (RSeq (RLit 40)
      (RSeq (RStar (RSet True [CLit 41])) (RLit 41))))) (i + 6, Map.empty)
      = (i + 6 + length cat + 2, Map.empty(1 \<mapsto> (i + 6, i + 6 + length cat + 2))) # rest'" ..
  note found = Search_suppression_at [OF assms(1,2) this]
  have "drop (i + 6) (take (i + 6 + length cat + 2) s) = take (length cat + 2) (drop (i + 6) s)"
    by (simp add: drop_take)
  also have "\<dots> = 40 # cat @ [41]" using assms(3) by simp
  finally show ?thesis using found by (simp add: group_def)
qed


section \<open>What the comment does\<close>

text \<open>\<open>first_nolint s i\<close>: the leftmost word NOLINT of the line stands at \<open>i\<close>.\<close>

definition first_nolint :: "ustr \<Rightarrow> nat \<Rightarrow> bool" where
  "first_nolint s i \<longleftrightarrow> nolint_at s i \<and> (\<forall>k < i. \<not> nolint_at s k)"

lemma slice_inner: "slice (a # w @ [b]) 1 (- 1) = w"
  by (simp add: slice_def bound_def nat_add_distrib)

lemma parens_around:
  "startswith (40 # w) (u ''('')" "endswith (40 # w @ [41]) (u '')'')"
  by (simp add: u_Cons uchar_of_def, simp add: endswith_def u_Cons uchar_of_def)

lemma parens_star: "40 # w @ [41] = u ''(*)'' \<longleftrightarrow> w = u ''*''"
proof -
  have "u ''(*)'' = 40 # u ''*'' @ [41]" by (simp add: u_Cons uchar_of_def)
  then show ?thesis by simp
qed

lemma Parse_none:
  "\<forall>k. \<not> nolint_at s k \<Longrightarrow> ParseNolintSuppressions f s n = ([], Ret ())"
  using Search_suppression_none [of s] by (simp add: ParseNolintSuppressions_def skip_def ok_def)

lemma Parse_plain:
  assumes "first_nolint s i" "\<not> startswith (drop (i + 6) s) (u ''('') \<or> 41 \<notin> set (drop (i + 6) s)"
  shows "ParseNolintSuppressions f s n = ([Suppress None n], Ret ())"
proof -
  from assms Search_suppression_plain [of s i] obtain m where
    "Search RE_SUPPRESSION s = Some m" "group m 1 = None" by (auto simp: first_nolint_def)
  then show ?thesis by (simp add: ParseNolintSuppressions_def effect_def)
qed

lemma Parse_group:
  assumes "first_nolint s i" "drop (i + 6) s = 40 # cat @ 41 # post" "41 \<notin> set cat"
  shows "ParseNolintSuppressions f s n =
     (if cat = u ''*'' then ([Suppress None n], Ret ())
      else if cat \<in> set ERROR_CATEGORIES then ([Suppress (Some cat) n], Ret ())
      else ([call f n (u ''readability/nolint'') 5 (u ''Unknown NOLINT error category: '' @ cat)], Ret ()))"
proof -
  from assms Search_suppression_group [of s i cat post] obtain m where
    "Search RE_SUPPRESSION s = Some m" "group m 1 = Some (40 # cat @ [41])"
    by (auto simp: first_nolint_def)
  then show ?thesis
    by (simp add: ParseNolintSuppressions_def effect_def error_def parens_star parens_around
        slice_inner Let_def)
qed

text \<open>C6: What a NOLINT comment does, in every case. Without the word NOLINT on the line
  nothing happens; the leftmost NOLINT silences every category on the line when no parenthesized
  text follows it or the parenthesis holds a star; a known category is silenced alone; an
  unknown one is reported.\<close>

theorem nolint_comment_effects:
  "((\<forall>k. \<not> nolint_at s k) \<longrightarrow> ParseNolintSuppressions f s n = ([], Ret ())) \<and>
   (\<forall>i. first_nolint s i \<longrightarrow>
     (\<not> startswith (drop (i + 6) s) (u ''('') \<or> 41 \<notin> set (drop (i + 6) s) \<longrightarrow>
        ParseNolintSuppressions f s n = ([Suppress None n], Ret ())) \<and>
     (\<forall>cat post. drop (i + 6) s = u ''('' @ cat @ u '')'' @ post \<longrightarrow> 41 \<notin> set cat \<longrightarrow>
        ParseNolintSuppressions f s n =
          (if cat = u ''*'' then ([Suppress None n], Ret ())
           else if cat \<in> set ERROR_CATEGORIES then ([Suppress (Some cat) n], Ret ())
           else ([call f n (u ''readability/nolint'') 5
                    (u ''Unknown NOLINT error category: '' @ cat)], Ret ()))))"
proof -
  have parens: "u ''('' @ cat @ u '')'' @ post = 40 # cat @ 41 # post" for cat post :: ustr
    by (simp add: u_Cons uchar_of_def)
  show ?thesis
    unfolding parens using Search_suppression_none [of s]
    by (blast intro: Parse_plain Parse_group Parse_none)
qed

lemma example_nolint: "first_nolint (u ''x = 1; // NOLINT(build/class) y'') 10"
proof -
  have "list_all (\<lambda>k. \<not> nolint_at (u ''x = 1; // NOLINT(build/class) y'') k) [0..<10]
     \<and> nolint_at (u ''x = 1; // NOLINT(build/class) y'') 10" by code_simp
  then show ?thesis by (simp add: first_nolint_def list_all_iff)
qed

theorem nolint_comment_effects_witness:
  "ParseNolintSuppressions (u ''a.c'') (u ''x = 1; // NOLINT(build/class) y'') 3
     = ([Suppress (Some (u ''build/class'')) 3], Ret ())"
proof -
  have "drop (10 + 6) (u ''x = 1; // NOLINT(build/class) y'') = u ''('' @ u ''build/class'' @ u '')'' @ u '' y''"
    "41 \<notin> set (u ''build/class'')" "u ''build/class'' \<in> set ERROR_CATEGORIES" "u ''build/class'' \<noteq> u ''*''"
    by code_simp+
  then show ?thesis
    using nolint_comment_effects [of "u ''x = 1; // NOLINT(build/class) y''" "u ''a.c''" 3,
        THEN conjunct2, rule_format, OF example_nolint, THEN conjunct2, rule_format, of "u ''build/class''" "u '' y''"]
    by simp
qed

text \<open>C7: Once the comment has been read, an error of the named category on its line changes
  nothing: it is neither counted nor printed, whatever the verbosity and the filters are. A line
  with a plain NOLINT silences every category.\<close>

theorem nolint_silences_the_line:
  assumes "first_nolint s i"
    and "\<not> startswith (drop (i + 6) s) (u ''('') \<or> 41 \<notin> set (drop (i + 6) s)
       \<or> drop (i + 6) s = u ''('' @ d_cat d @ u '')'' @ post \<and> d_cat d \<in> set ERROR_CATEGORIES"
    and "d_line d = n"
    and "apply_effects (fst (ParseNolintSuppressions f s n)) w = Ret w'"
  shows "Error d w' = Ret w'"
proof -
  have no41: "list_all (\<lambda>c. 41 \<notin> set c \<and> c \<noteq> u ''*'') ERROR_CATEGORIES" by code_simp
  have "\<exists>key. fst (ParseNolintSuppressions f s n) = [Suppress key n] \<and> (key = None \<or> key = Some (d_cat d))"
    using assms(2) unfolding disj_assoc [symmetric]
  proof
    assume "drop (i + 6) s = u ''('' @ d_cat d @ u '')'' @ post \<and> d_cat d \<in> set ERROR_CATEGORIES"
    moreover from this no41 have "41 \<notin> set (d_cat d)" "d_cat d \<noteq> u ''*''" by (auto simp: list_all_iff)
    ultimately show ?thesis
      using Parse_group [OF assms(1), of "d_cat d" post f n] by (simp add: u_Cons uchar_of_def)
  qed (simp add: Parse_plain [OF assms(1)])
  then obtain key where "fst (ParseNolintSuppressions f s n) = [Suppress key n]"
    "key = None \<or> key = Some (d_cat d)" by blast
  then have "IsErrorSuppressedByNolint (d_cat d) (d_line d) (error_suppressions w')"
    using assms(3,4) by (auto simp: apply_effects_def suppress_def IsErrorSuppressedByNolint_def)
  then show ?thesis by (simp add: Error_def ShouldPrintError_def)
qed

theorem nolint_silences_the_line_witness:
  "\<exists>w'. apply_effects (fst (ParseNolintSuppressions (u ''a.c'') (u ''x = 1; // NOLINT(build/class) y'') 3))
       example_world = Ret w'
     \<and> Error (example_diag (u ''build/class'')) w' = Ret w'"
proof -
  obtain w' where w': "apply_effects (fst (ParseNolintSuppressions (u ''a.c'')
      (u ''x = 1; // NOLINT(build/class) y'') 3)) example_world = Ret w'"
    using handler.run_ok [OF example_world_ok] unfolding apply_effects_def by blast
  have "drop (10 + 6) (u ''x = 1; // NOLINT(build/class) y'') = u ''('' @ u ''build/class'' @ u '')'' @ u '' y''"
    "u ''build/class'' \<in> set ERROR_CATEGORIES"
    by code_simp+
  then have "Error (example_diag (u ''build/class'')) w' = Ret w'"
    by (intro nolint_silences_the_line [OF example_nolint _ _ w', of _ "u '' y''"])
      (simp_all add: example_diag_def)
  with w' show ?thesis by blast
qed

end
