(* ===== verification/Cleanse.thy ===== *)
theory Cleanse
  imports ReCache
begin

text \<open>
  The preprocessing of a file's lines: whether a position is inside a string constant,
  multi-line comments blanked out, comments and strings removed, the class
  \<open>CleansedLines\<close> with its three copies of the lines, and \<open>CloseExpression\<close>, which
  looks for the end of a bracketed expression.
\<close>

section \<open>Strings and comments on one line\<close>

definition RE_CLEANSE_LINE_ESCAPES :: ustr where
  "RE_CLEANSE_LINE_ESCAPES = u ''``([abfnrtv?\"```@]|`d+|x[0-9a-fA-F]+)''"

definition RE_CLEANSE_LINE_DOUBLE_QUOTES :: ustr where
  "RE_CLEANSE_LINE_DOUBLE_QUOTES = u ''\"[^\"]*\"''"

definition RE_CLEANSE_LINE_SINGLE_QUOTES :: ustr where
  "RE_CLEANSE_LINE_SINGLE_QUOTES = u ''@.@''"

text \<open>Compiled with \<open>re.VERBOSE\<close>: the blanks and line ends of the pattern do not count.\<close>

definition RE_CLEANSE_LINE_C_COMMENTS :: ustr where
  "RE_CLEANSE_LINE_C_COMMENTS =
     u ''(`s*/`*.*`*/`s*$|'' @ [10] @
     u ''            /`*.*`*/`s+|'' @ [10] @
     u ''         `s+/`*.*`*/(?=`W)|'' @ [10] @
     u ''            /`*.*`*/)''"

definition RE_PATTERN_INCLUDE :: ustr where
  "RE_PATTERN_INCLUDE = u ''^`s*#`s*include`s*([<\"])([^>\"]*)[>\"].*$''"

definition IsCppString :: "ustr \<Rightarrow> bool" where
  "IsCppString line0 =
     (let line = py_replace line0 (u ''``'') (u ''XX'') in
      (int (py_count line (u ''\"'')) - int (py_count line (u ''`\"''))
        - int (py_count line (u ''@\"@''))) mod 2 = 1)"

definition sub_c_comments :: "ustr \<Rightarrow> ustr" where
  "sub_c_comments line =
     (case re_compile True False False RE_CLEANSE_LINE_C_COMMENTS of
        Some p \<Rightarrow> re_sub p [] line | None \<Rightarrow> line)"

definition CleanseComments :: "ustr \<Rightarrow> ustr" where
  "CleanseComments line =
     (let commentpos = py_find line (u ''//'');
          line1 = (if commentpos \<noteq> - 1 \<and> \<not> IsCppString (slice_to line commentpos)
                   then py_rstrip (slice_to line commentpos) else line)
      in sub_c_comments line1)"

definition CollapseStrings :: "ustr \<Rightarrow> ustr" where
  "CollapseStrings elided =
     (if \<not> Matches RE_PATTERN_INCLUDE elided then
        (let e1 = Sub RE_CLEANSE_LINE_ESCAPES [] elided;
             e2 = Sub RE_CLEANSE_LINE_SINGLE_QUOTES (u ''@@'') e1;
             e3 = Sub RE_CLEANSE_LINE_DOUBLE_QUOTES (u ''\"\"'') e2
         in e3)
      else elided)"

section \<open>Multi-line comments\<close>

function FindNextMultiLineCommentStart :: "ustr list \<Rightarrow> nat \<Rightarrow> nat" where
  "FindNextMultiLineCommentStart lines lineix =
     (if lineix < length lines then
        (if startswith (py_strip (lines ! lineix)) (u ''/*'')
            \<and> py_find_start (py_strip (lines ! lineix)) (u ''*/'') 2 < 0
         then lineix
         else FindNextMultiLineCommentStart lines (Suc lineix))
      else length lines)"
  by pat_completeness auto
termination
  by (relation "measure (\<lambda>(lines, i). length lines - i)") auto

function FindNextMultiLineCommentEnd :: "ustr list \<Rightarrow> nat \<Rightarrow> nat" where
  "FindNextMultiLineCommentEnd lines lineix =
     (if lineix < length lines then
        (if endswith (py_strip (lines ! lineix)) (u ''*/'') then lineix
         else FindNextMultiLineCommentEnd lines (Suc lineix))
      else length lines)"
  by pat_completeness auto
termination
  by (relation "measure (\<lambda>(lines, i). length lines - i)") auto

declare FindNextMultiLineCommentStart.simps [simp del]
declare FindNextMultiLineCommentEnd.simps [simp del]

definition dummy_comment :: ustr where
  "dummy_comment = u ''// dummy''"

definition RemoveMultiLineCommentsFromRange :: "ustr list \<Rightarrow> nat \<Rightarrow> nat \<Rightarrow> ustr list" where
  "RemoveMultiLineCommentsFromRange lines begin stop =
     fold (\<lambda>i ls. ls[i := dummy_comment]) [begin..<stop] lines"

text \<open>
  Looking for the next line that satisfies a predicate, from an index on: the contract both
  loops above meet.
\<close>

locale line_search =
  fixes hit :: "'l \<Rightarrow> bool" and next_line :: "'l list \<Rightarrow> nat \<Rightarrow> nat"
  assumes next_line: "next_line xs i =
    (if i < length xs then if hit (xs ! i) then i else next_line xs (Suc i) else length xs)"
begin

lemma next_line_now: "i < length xs \<Longrightarrow> hit (xs ! i) \<Longrightarrow> next_line xs i = i"
  and next_line_skip: "i < length xs \<Longrightarrow> \<not> hit (xs ! i) \<Longrightarrow> next_line xs i = next_line xs (Suc i)"
  and next_line_past: "length xs \<le> i \<Longrightarrow> next_line xs i = length xs"
  by (subst next_line, simp)+

lemma next_line_induct [case_names past now skip]:
  assumes "\<And>i. length xs \<le> i \<Longrightarrow> P i"
    and "\<And>i. i < length xs \<Longrightarrow> hit (xs ! i) \<Longrightarrow> P i"
    and "\<And>i. i < length xs \<Longrightarrow> \<not> hit (xs ! i) \<Longrightarrow> P (Suc i) \<Longrightarrow> P i"
  shows "P i"
proof (induction "length xs - i" arbitrary: i)
  case 0
  then show ?case using assms(1) by simp
next
  case (Suc n)
  then have "i < length xs" and "P (Suc i)" by simp_all
  then show ?case using assms(2,3) by blast
qed

lemma next_line_le: "next_line xs i \<le> length xs"
  by (induction i rule: next_line_induct [of xs]) (simp_all add: next_line_now next_line_skip next_line_past)

lemma next_line_ge: "i \<le> length xs \<Longrightarrow> i \<le> next_line xs i"
  by (induction i rule: next_line_induct [of xs]) (simp_all add: next_line_now next_line_skip next_line_past)

lemma next_line_hit: "next_line xs i < length xs \<Longrightarrow> hit (xs ! next_line xs i)"
  by (induction i rule: next_line_induct [of xs]) (simp_all add: next_line_now next_line_skip next_line_past)

lemma next_line_first: "i \<le> k \<Longrightarrow> k < next_line xs i \<Longrightarrow> \<not> hit (xs ! k)"
proof (induction i rule: next_line_induct [of xs])
  case (past i)
  then show ?case by (simp add: next_line_past)
next
  case (now i)
  then show ?case by (simp add: next_line_now)
next
  case (skip i)
  then show ?case by (cases "k = i") (simp_all add: next_line_skip)
qed

lemma next_line_none: "next_line xs i = length xs \<longleftrightarrow> (\<forall>k. i \<le> k \<longrightarrow> k < length xs \<longrightarrow> \<not> hit (xs ! k))"
proof
  assume "next_line xs i = length xs"
  then show "\<forall>k. i \<le> k \<longrightarrow> k < length xs \<longrightarrow> \<not> hit (xs ! k)"
    using next_line_first [of i _ xs] by auto
next
  assume none: "\<forall>k. i \<le> k \<longrightarrow> k < length xs \<longrightarrow> \<not> hit (xs ! k)"
  show "next_line xs i = length xs"
  proof (cases "i \<le> length xs")
    case True
    have "\<not> next_line xs i < length xs"
      using next_line_hit [of xs i] next_line_ge [OF True] none by blast
    then show ?thesis using next_line_le [of xs i] by simp
  next
    case False
    then show ?thesis by (simp add: next_line [of xs i])
  qed
qed

lemma next_line_suffix:
  "next_line (p @ r) (length p) = length p + length (takeWhile (\<lambda>l. \<not> hit l) r)"
proof (induction r arbitrary: p)
  case Nil
  then show ?case by (simp add: next_line_past)
next
  case (Cons l r)
  show ?case
  proof (cases "hit l")
    case True
    then show ?thesis by (simp add: next_line_now)
  next
    case False
    have "next_line (p @ l # r) (length p) = next_line ((p @ [l]) @ r) (length (p @ [l]))"
      using False next_line_skip [of "length p" "p @ l # r"] by simp
    with Cons.IH [of "p @ [l]"] False show ?thesis by simp
  qed
qed

end

definition opens_comment :: "ustr \<Rightarrow> bool" where
  "opens_comment line \<longleftrightarrow> startswith (py_strip line) (u ''/*'')
     \<and> py_find_start (py_strip line) (u ''*/'') 2 < 0"

definition closes_comment :: "ustr \<Rightarrow> bool" where
  "closes_comment line \<longleftrightarrow> endswith (py_strip line) (u ''*/'')"

interpretation comment_start: line_search opens_comment FindNextMultiLineCommentStart
  by unfold_locales (subst FindNextMultiLineCommentStart.simps, simp add: opens_comment_def)

interpretation comment_end: line_search closes_comment FindNextMultiLineCommentEnd
  by unfold_locales (subst FindNextMultiLineCommentEnd.simps, simp add: closes_comment_def)

lemma length_blank_range [simp]:
  "length (RemoveMultiLineCommentsFromRange lines b e) = length lines"
proof -
  have "length (fold (\<lambda>i ls. ls[i := d]) is ls) = length ls" for d :: ustr and "is" ls
    by (induction "is" arbitrary: ls) auto
  then show ?thesis by (simp add: RemoveMultiLineCommentsFromRange_def)
qed

text \<open>
  The loop of \<open>RemoveMultiLineComments\<close>: the lines after it, and the error of an unclosed
  comment. It stops because each round moves past the end of a comment.
\<close>

function remove_comments_loop :: "ustr \<Rightarrow> ustr list \<Rightarrow> nat \<Rightarrow> ustr list chk" where
  "remove_comments_loop filename lines lineix =
     (if lineix < length lines then
        (let lineix_begin = FindNextMultiLineCommentStart lines lineix in
         if length lines \<le> lineix_begin then ok lines
         else
           (let lineix_end = FindNextMultiLineCommentEnd lines lineix_begin in
            if length lines \<le> lineix_end then
              andthen (error filename (int lineix_begin + 1) (u ''readability/multiline_comment'') 5
                 (u ''Could not find end of multi-line comment'')) (ok lines)
            else remove_comments_loop filename
                   (RemoveMultiLineCommentsFromRange lines lineix_begin (lineix_end + 1))
                   (lineix_end + 1)))
      else ok lines)"
  by pat_completeness auto

termination
proof (relation "measure (\<lambda>(f, lines, i). length lines - i)", goal_cases)
  case 1
  show ?case by simp
next
  case (2 filename lines lineix b e)
  then have "lineix \<le> b" using comment_start.next_line_ge [of lineix lines] by simp
  moreover have "b \<le> e" using 2 comment_end.next_line_ge [of b lines] by simp
  ultimately show ?case using 2 by simp
qed

declare remove_comments_loop.simps [simp del]

definition RemoveMultiLineComments :: "ustr \<Rightarrow> ustr list \<Rightarrow> ustr list chk" where
  "RemoveMultiLineComments filename lines = remove_comments_loop filename lines 0"

section \<open>The three copies of the lines\<close>

record cleansed =
  cl_elided :: "ustr list"
  cl_lines :: "ustr list"
  cl_raw :: "ustr list"
  cl_num :: nat

definition CleansedLines :: "ustr list \<Rightarrow> cleansed" where
  "CleansedLines lines =
     \<lparr>cl_elided = map (\<lambda>line. CleanseComments (CollapseStrings line)) lines,
      cl_lines = map CleanseComments lines,
      cl_raw = lines,
      cl_num = length lines\<rparr>"

definition NumLines :: "cleansed \<Rightarrow> nat" where
  "NumLines cl = cl_num cl"

section \<open>The end of an expression\<close>

text \<open>\<open>line.rfind(sub, 0, end)\<close>.\<close>

definition py_rfind_end :: "ustr \<Rightarrow> ustr \<Rightarrow> int \<Rightarrow> int" where
  "py_rfind_end line p endpos = py_rfind (slice_to line endpos) p"

function close_lines :: "cleansed \<Rightarrow> uchar \<Rightarrow> uchar \<Rightarrow> nat \<Rightarrow> int \<Rightarrow> (nat \<times> int) outcome" where
  "close_lines cl startchar endchar linenum num_open =
     (if linenum < NumLines cl \<and> 0 < num_open then
        (case py_index (cl_elided cl) (int (Suc linenum)) of
           Ret line \<Rightarrow> close_lines cl startchar endchar (Suc linenum)
             (num_open + (int (py_count line [startchar]) - int (py_count line [endchar])))
         | Raise e \<Rightarrow> Raise e
         | Diverge \<Rightarrow> Diverge)
      else Ret (linenum, num_open))"
  by pat_completeness auto
termination
  by (relation "measure (\<lambda>(cl, s, e, n, k). NumLines cl - n)") auto

function close_pos :: "ustr \<Rightarrow> int \<Rightarrow> int \<Rightarrow> int" where
  "close_pos line endpos num_open =
     (if 0 \<le> num_open then close_pos line (py_rfind_end line (u '')'') endpos) (num_open - 1)
      else endpos)"
  by pat_completeness auto
termination
  by (relation "measure (\<lambda>(line, endpos, k). nat (k + 1))") auto

declare close_lines.simps [simp del]
declare close_pos.simps [simp del]

definition CloseExpression :: "cleansed \<Rightarrow> nat \<Rightarrow> int \<Rightarrow> (ustr \<times> nat \<times> int) outcome" where
  "CloseExpression cl linenum pos =
     bind_out (py_index (cl_elided cl) (int linenum)) (\<lambda>line.
     bind_out (py_index line pos) (\<lambda>startchar.
       if startchar \<notin> set (u ''({['') then Ret (line, NumLines cl, - 1)
       else
         (let endchar = (if [startchar] = u ''('' then 41 else if [startchar] = u ''['' then 93 else 125);
              num_open = int (py_count line [startchar]) - int (py_count line [endchar])
          in bind_out (close_lines cl startchar endchar linenum num_open) (\<lambda>(n, k).
             bind_out (py_index (cl_elided cl) (int n)) (\<lambda>line'.
               Ret (line', n, close_pos line' (int (length line')) k + 1))))))"

section \<open>Multi-line comments by a two-state automaton\<close>

text \<open>
  The reference: reading the lines once from the top, a line is inside a comment when a
  comment was open before it or opens on it, and the comment stays open until a line that ends
  in the closing mark (the opening line included).
\<close>

fun marks :: "bool \<Rightarrow> ustr list \<Rightarrow> bool list" where
  "marks opened [] = []"
| "marks opened (l # ls) =
     (let inside = opened \<or> opens_comment l in inside # marks (inside \<and> \<not> closes_comment l) ls)"

fun still_open :: "bool \<Rightarrow> ustr list \<Rightarrow> bool" where
  "still_open opened [] = opened"
| "still_open opened (l # ls) =
     still_open ((opened \<or> opens_comment l) \<and> \<not> closes_comment l) ls"

definition blanked :: "ustr list \<Rightarrow> ustr list" where
  "blanked ls = map2 (\<lambda>inside l. if inside then dummy_comment else l) (marks False ls) ls"

lemma length_marks [simp]: "length (marks b ls) = length ls"
  by (induction ls arbitrary: b) (simp_all add: Let_def)

lemma length_blanked [simp]: "length (blanked ls) = length ls"
  by (simp add: blanked_def)

lemma marks_append: "marks b (xs @ ys) = marks b xs @ marks (still_open b xs) ys"
  by (induction xs arbitrary: b) (simp_all add: Let_def)

lemma still_open_append: "still_open b (xs @ ys) = still_open (still_open b xs) ys"
  by (induction xs arbitrary: b) simp_all

lemma blanked_append:
  "\<not> still_open False xs \<Longrightarrow> blanked (xs @ ys) = blanked xs @ blanked ys"
  by (simp add: blanked_def marks_append)

lemma outside_lines:
  "\<forall>l \<in> set xs. \<not> opens_comment l \<Longrightarrow> blanked xs = xs \<and> \<not> still_open False xs"
  by (induction xs) (simp_all add: blanked_def)

lemma inside_lines:
  "\<forall>l \<in> set xs. \<not> closes_comment l \<Longrightarrow> marks True xs = replicate (length xs) True \<and> still_open True xs"
  by (induction xs) simp_all

lemma map2_replicate: "map2 f (replicate (length xs) b) xs = map (f b) xs"
  by (induction xs) simp_all

lemma map_If_True: "map (If True d) xs = replicate (length xs) d"
  by (induction xs) simp_all

lemma comment_block:
  assumes "opens_comment (hd (xs @ [l]))" "\<forall>l \<in> set xs. \<not> closes_comment l" "closes_comment l"
  shows "blanked (xs @ [l]) = replicate (Suc (length xs)) dummy_comment \<and> \<not> still_open False (xs @ [l])"
proof -
  have "marks False (xs @ [l]) = marks True (xs @ [l])"
    and "still_open False (xs @ [l]) = still_open True (xs @ [l])"
    using assms(1) by (cases xs; simp)+
  moreover have "marks True (xs @ [l]) = replicate (length (xs @ [l])) True"
    using inside_lines [OF assms(2)] by (simp add: marks_append replicate_append_same [symmetric])
  ultimately show ?thesis
    using inside_lines [OF assms(2)] assms(3)
    by (simp only: blanked_def map2_replicate still_open_append)
      (simp add: map_If_True replicate_append_same [symmetric])
qed

lemma blank_range:
  "RemoveMultiLineCommentsFromRange (p @ b @ r) (length p) (length p + length b)
     = p @ replicate (length b) dummy_comment @ r"
proof (induction b arbitrary: p)
  case Nil
  show ?case by (simp add: RemoveMultiLineCommentsFromRange_def)
next
  case (Cons l b)
  have "[length p..<length p + length (l # b)] = length p # [length (p @ [dummy_comment])..<length (p @ [dummy_comment]) + length b]"
    by (subst upt_conv_Cons) simp_all
  then have "RemoveMultiLineCommentsFromRange (p @ (l # b) @ r) (length p) (length p + length (l # b))
      = RemoveMultiLineCommentsFromRange ((p @ [dummy_comment]) @ b @ r)
          (length (p @ [dummy_comment])) (length (p @ [dummy_comment]) + length b)"
    by (simp add: RemoveMultiLineCommentsFromRange_def del: upt_Suc)
  then show ?case using Cons.IH [of "p @ [dummy_comment]"] by simp
qed

text \<open>The three ways a round of the loop can go, on the lines not looked at yet.\<close>

lemma loop_no_comment:
  assumes "\<forall>l \<in> set r. \<not> opens_comment l"
  shows "remove_comments_loop f (p @ r) (length p) = ok (p @ r)"
proof -
  have "length (takeWhile (\<lambda>l. \<not> opens_comment l) r) = length r"
    using assms takeWhile_eq_all_conv [of _ r] by metis
  then show ?thesis
    by (subst remove_comments_loop.simps) (simp add: comment_start.next_line_suffix)
qed

lemma loop_unclosed:
  assumes "\<forall>l \<in> set pre. \<not> opens_comment l" "opens_comment (hd r)" "r \<noteq> []"
    and "\<forall>l \<in> set r. \<not> closes_comment l"
  shows "remove_comments_loop f (p @ pre @ r) (length p) =
     ([call f (int (length p + length pre) + 1) (u ''readability/multiline_comment'') 5
         (u ''Could not find end of multi-line comment'')], Ret (p @ pre @ r))"
proof -
  have "takeWhile (\<lambda>l. \<not> opens_comment l) (pre @ r) = pre"
    using assms(1-3) by (cases r) (auto simp: takeWhile_append)
  then have b: "FindNextMultiLineCommentStart (p @ pre @ r) (length p) = length p + length pre"
    using comment_start.next_line_suffix [of p "pre @ r"] by simp
  have "length (takeWhile (\<lambda>l. \<not> closes_comment l) r) = length r"
    using assms(4) takeWhile_eq_all_conv [of _ r] by metis
  then have e: "FindNextMultiLineCommentEnd (p @ pre @ r) (length p + length pre) = length (p @ pre @ r)"
    using comment_end.next_line_suffix [of "p @ pre" r] by simp
  show ?thesis
    using assms(3) b e by (subst remove_comments_loop.simps) (simp add: Let_def andthen_error)
qed

lemma loop_comment:
  assumes "\<forall>l \<in> set pre. \<not> opens_comment l" "opens_comment (hd (body @ [l]))"
    and "\<forall>l \<in> set body. \<not> closes_comment l" "closes_comment l"
  shows "remove_comments_loop f (p @ pre @ body @ l # r) (length p) =
     remove_comments_loop f ((p @ blanked (pre @ body @ [l])) @ r) (length (p @ blanked (pre @ body @ [l])))"
proof -
  have "takeWhile (\<lambda>l. \<not> opens_comment l) (pre @ body @ l # r) = pre"
    using assms(1,2) by (cases body) (auto simp: takeWhile_append)
  then have b: "FindNextMultiLineCommentStart (p @ pre @ body @ l # r) (length p) = length p + length pre"
    using comment_start.next_line_suffix [of p "pre @ body @ l # r"] by simp
  have "takeWhile (\<lambda>l. \<not> closes_comment l) (body @ l # r) = body"
    using assms(3,4) by (auto simp: takeWhile_append)
  then have e: "FindNextMultiLineCommentEnd (p @ pre @ body @ l # r) (length p + length pre)
      = length p + length pre + length body"
    using comment_end.next_line_suffix [of "p @ pre" "body @ l # r"] by simp
  have "blanked (pre @ body @ [l]) = pre @ replicate (Suc (length body)) dummy_comment"
    using outside_lines [OF assms(1)] comment_block [OF assms(2-4)] blanked_append by metis
  moreover have "RemoveMultiLineCommentsFromRange (p @ pre @ body @ l # r) (length p + length pre)
      (length p + length pre + length body + 1)
      = p @ pre @ replicate (Suc (length body)) dummy_comment @ r"
    using blank_range [of "p @ pre" "body @ [l]" r] by simp
  ultimately show ?thesis
    using b e by (subst remove_comments_loop.simps) (simp add: Let_def add.assoc del: replicate.simps)
qed

lemma comment_cases:
  obtains (none) "\<forall>l \<in> set r. \<not> opens_comment l"
  | (unclosed) pre c where "r = pre @ c" "\<forall>l \<in> set pre. \<not> opens_comment l" "c \<noteq> []"
      "opens_comment (hd c)" "\<forall>l \<in> set c. \<not> closes_comment l"
  | (closed) pre body l rest where "r = pre @ body @ l # rest" "\<forall>l \<in> set pre. \<not> opens_comment l"
      "opens_comment (hd (body @ [l]))" "\<forall>l \<in> set body. \<not> closes_comment l" "closes_comment l"
proof (cases "\<exists>l \<in> set r. opens_comment l")
  case True
  then obtain pre x zs where r: "r = pre @ x # zs" "opens_comment x" "\<forall>l \<in> set pre. \<not> opens_comment l"
    using split_list_first_prop [of r opens_comment] by blast
  show ?thesis
  proof (cases "\<exists>l \<in> set (x # zs). closes_comment l")
    case True
    then obtain body l rest where "x # zs = body @ l # rest" "closes_comment l"
      "\<forall>l \<in> set body. \<not> closes_comment l"
      using split_list_first_prop [of "x # zs" closes_comment] by blast
    moreover from this r(2) have "opens_comment (hd (body @ [l]))" by (cases body) auto
    ultimately show ?thesis using closed [of pre body l rest] r by simp
  next
    case False
    then show ?thesis using unclosed [of pre "x # zs"] r by simp
  qed
qed (use none in blast)

definition unclosed_at :: "ustr list \<Rightarrow> ustr list \<Rightarrow> bool" where
  "unclosed_at a c \<longleftrightarrow> c \<noteq> [] \<and> opens_comment (hd c) \<and> \<not> still_open False a
     \<and> (\<forall>l \<in> set c. \<not> closes_comment l)"

lemma remove_loop_spec:
  "(\<not> still_open False r \<and> remove_comments_loop f (p @ r) (length p) = ok (p @ blanked r))
   \<or> (still_open False r \<and> (\<exists>a c. r = a @ c \<and> unclosed_at a c
        \<and> remove_comments_loop f (p @ r) (length p) =
            ([call f (int (length p + length a) + 1) (u ''readability/multiline_comment'') 5
                (u ''Could not find end of multi-line comment'')], Ret (p @ blanked a @ c))))"
proof (induction "length r" arbitrary: r p rule: less_induct)
  case less
  show ?case
  proof (cases rule: comment_cases [of r])
    case none
    then show ?thesis using outside_lines [OF none] loop_no_comment [OF none] by simp
  next
    case (unclosed pre c)
    have pre: "blanked pre = pre" "\<not> still_open False pre"
      using outside_lines [OF unclosed(2)] by blast+
    obtain x zs where "c = x # zs" using unclosed(3) by (cases c) auto
    then have "still_open False c"
      using unclosed(4,5) inside_lines [of zs] by simp
    with unclosed(1) pre have "still_open False r" by (simp add: still_open_append)
    moreover have "unclosed_at pre c" using unclosed pre by (simp add: unclosed_at_def)
    ultimately show ?thesis
      using loop_unclosed [OF unclosed(2,4,3,5), of f p] unclosed(1) pre(1)
      by (intro disjI2 conjI exI [of _ pre] exI [of _ c]) simp_all
  next
    case (closed pre body l rest)
    let ?done = "pre @ body @ [l]"
    have shut: "\<not> still_open False ?done"
      using outside_lines [OF closed(2)] comment_block [OF closed(3-5)]
      by (simp add: still_open_append)
    have r: "r = ?done @ rest" using closed(1) by simp
    have state: "still_open False r = still_open False rest"
      unfolding r using shut by (simp only: still_open_append [of False ?done rest])
    note step = loop_comment [OF closed(2-5), of f p rest]
    have "length rest < length r" using r by simp
    from less [OF this, of "p @ blanked ?done"] show ?thesis
    proof (elim disjE conjE exE)
      assume "\<not> still_open False rest"
        "remove_comments_loop f ((p @ blanked ?done) @ rest) (length (p @ blanked ?done))
           = ok ((p @ blanked ?done) @ blanked rest)"
      then show ?thesis
        using state step blanked_append [OF shut, of rest] by (simp add: r)
    next
      fix a c
      assume a: "still_open False rest" "rest = a @ c" "unclosed_at a c"
        "remove_comments_loop f ((p @ blanked ?done) @ rest) (length (p @ blanked ?done)) =
            ([call f (int (length (p @ blanked ?done) + length a) + 1) (u ''readability/multiline_comment'') 5
                (u ''Could not find end of multi-line comment'')],
             Ret ((p @ blanked ?done) @ blanked a @ c))"
      have "unclosed_at (?done @ a) c"
        using a(3) shut still_open_append [of False ?done a] by (simp add: unclosed_at_def)
      then show ?thesis
        using state step a(1,2,4) blanked_append [OF shut, of a] r
        by (intro disjI2 conjI exI [of _ "?done @ a"] exI [of _ c]) (simp_all add: add.assoc)
    qed
  qed
qed

text \<open>C10: \<open>RemoveMultiLineComments\<close> agrees with the automaton. When no comment is open
  at the end of the file it reports nothing and replaces exactly the lines inside comments by
  the dummy. Otherwise the file splits where the comment that is never closed opens: the lines
  before are treated the same, the lines from there on are left alone, and one error is
  reported, for the line after the one that opens the comment.\<close>

theorem RemoveMultiLineComments_automaton:
  "if still_open False lines
   then \<exists>a c. lines = a @ c \<and> unclosed_at a c
     \<and> RemoveMultiLineComments f lines =
         ([call f (int (length a) + 1) (u ''readability/multiline_comment'') 5
             (u ''Could not find end of multi-line comment'')], Ret (blanked a @ c))
   else RemoveMultiLineComments f lines = ([], Ret (blanked lines))"
  using remove_loop_spec [of lines f "[]"] by (auto simp: RemoveMultiLineComments_def ok_def)

text \<open>C11: The preprocessing never moves a line: removing multi-line comments and cleansing
  keep the number of lines, whether or not a comment is left open, the three copies have the
  same length, and every line that differs afterwards is the dummy comment.\<close>

theorem line_numbers_are_kept:
  assumes "snd (RemoveMultiLineComments f lines) = Ret lines'"
  shows "length lines' = length lines
     \<and> (\<forall>i < length lines. lines' ! i = lines ! i \<or> lines' ! i = dummy_comment)
     \<and> length (cl_elided (CleansedLines lines')) = length lines
     \<and> length (cl_lines (CleansedLines lines')) = length lines
     \<and> cl_raw (CleansedLines lines') = lines' \<and> NumLines (CleansedLines lines') = length lines"
proof -
  have b: "i < length ls \<Longrightarrow> blanked ls ! i = ls ! i \<or> blanked ls ! i = dummy_comment" for ls i
    by (simp add: blanked_def)
  have "lines' = blanked lines \<or> (\<exists>a c. lines = a @ c \<and> lines' = blanked a @ c)"
    using remove_loop_spec [of lines f "[]"]
  proof (elim disjE conjE exE)
    fix a c
    assume "lines = a @ c" "remove_comments_loop f ([] @ lines) (length ([] :: ustr list)) =
      ([call f (int (length ([] :: ustr list) + length a) + 1) (u ''readability/multiline_comment'') 5
          (u ''Could not find end of multi-line comment'')], Ret ([] @ blanked a @ c))"
    with assms have "lines = a @ c \<and> lines' = blanked a @ c"
      by (simp add: RemoveMultiLineComments_def)
    then show ?thesis by blast
  qed (use assms in \<open>simp add: RemoveMultiLineComments_def ok_def\<close>)
  then have "length lines' = length lines \<and>
      (\<forall>i < length lines. lines' ! i = lines ! i \<or> lines' ! i = dummy_comment)"
    by (auto simp: nth_append; metis b)
  then show ?thesis by (simp add: CleansedLines_def NumLines_def)
qed

theorem line_numbers_are_kept_witness:
  "\<exists>lines'. snd (RemoveMultiLineComments (u ''a.c'') [u ''/* a'', u ''b */'', u ''c'']) = Ret lines'
     \<and> NumLines (CleansedLines lines') = 3"
proof -
  let ?ls = "[u ''/* a'', u ''b */'', u ''c'']"
  have "RemoveMultiLineComments (u ''a.c'') ?ls = ([], Ret [dummy_comment, dummy_comment, u ''c''])"
    by code_simp
  then have "snd (RemoveMultiLineComments (u ''a.c'') ?ls) = Ret [dummy_comment, dummy_comment, u ''c'']"
    by simp
  from this line_numbers_are_kept [OF this] show ?thesis by auto
qed

section \<open>What \<open>CloseExpression\<close> finds\<close>

text \<open>\<open>open_after cl s e a k\<close>: how many more brackets \<open>s\<close> than \<open>e\<close> the lines from \<open>a\<close>
  to \<open>k\<close> hold.\<close>

definition opened_on :: "cleansed \<Rightarrow> uchar \<Rightarrow> uchar \<Rightarrow> nat \<Rightarrow> int" where
  "opened_on cl s e i = int (py_count (cl_elided cl ! i) [s]) - int (py_count (cl_elided cl ! i) [e])"

definition open_after :: "cleansed \<Rightarrow> uchar \<Rightarrow> uchar \<Rightarrow> nat \<Rightarrow> nat \<Rightarrow> int" where
  "open_after cl s e a k = (\<Sum>i = a..k. opened_on cl s e i)"

lemma close_lines_stop: "k \<le> 0 \<Longrightarrow> close_lines cl s e n k = Ret (n, k)"
  by (subst close_lines.simps) simp

lemma close_lines_next:
  assumes "0 < k" "Suc n < length (cl_elided cl)" "cl_num cl = length (cl_elided cl)"
  shows "close_lines cl s e n k = close_lines cl s e (Suc n) (k + opened_on cl s e (Suc n))"
proof -
  have "py_index (cl_elided cl) (int (Suc n)) = Ret (cl_elided cl ! Suc n)"
    using assms(2) py_index_nat by blast
  with assms show ?thesis
    by (subst close_lines.simps) (simp add: NumLines_def opened_on_def del: of_nat_Suc)
qed

lemma close_lines_end:
  assumes "0 < k" "Suc n = length (cl_elided cl)" "cl_num cl = length (cl_elided cl)"
  shows "close_lines cl s e n k = Raise IndexError"
proof -
  have "py_index (cl_elided cl) (int (Suc n)) = Raise IndexError"
    using assms(2) py_index_raises [of "cl_elided cl" "Suc n"] by simp
  with assms show ?thesis
    by (subst close_lines.simps) (simp add: NumLines_def del: of_nat_Suc)
qed

lemma open_after_Suc:
  "a \<le> Suc n \<Longrightarrow> open_after cl s e a (Suc n) = open_after cl s e a n + opened_on cl s e (Suc n)"
  by (simp add: open_after_def)

lemma close_lines_found:
  assumes "n \<le> k" "a \<le> n" "k < length (cl_elided cl)" "cl_num cl = length (cl_elided cl)"
    and "\<forall>j. n \<le> j \<longrightarrow> j < k \<longrightarrow> 0 < open_after cl s e a j" "open_after cl s e a k \<le> 0"
  shows "close_lines cl s e n (open_after cl s e a n) = Ret (k, open_after cl s e a k)"
  using assms
proof (induction "k - n" arbitrary: n)
  case 0
  then show ?case by (simp add: close_lines_stop)
next
  case (Suc d)
  then have "close_lines cl s e n (open_after cl s e a n) =
      close_lines cl s e (Suc n) (open_after cl s e a (Suc n))"
    by (subst close_lines_next) (simp_all add: open_after_Suc)
  with Suc show ?case by simp
qed

lemma close_lines_never:
  assumes "a \<le> n" "n < length (cl_elided cl)" "cl_num cl = length (cl_elided cl)"
    and "\<forall>j. n \<le> j \<longrightarrow> j < length (cl_elided cl) \<longrightarrow> 0 < open_after cl s e a j"
  shows "close_lines cl s e n (open_after cl s e a n) = Raise IndexError"
  using assms
proof (induction "length (cl_elided cl) - Suc n" arbitrary: n)
  case 0
  then show ?case by (intro close_lines_end) simp_all
next
  case (Suc d)
  then have "close_lines cl s e n (open_after cl s e a n) =
      close_lines cl s e (Suc n) (open_after cl s e a (Suc n))"
    by (subst close_lines_next) (simp_all add: open_after_Suc)
  with Suc show ?case by simp
qed

definition closer :: "uchar \<Rightarrow> uchar" where
  "closer c = (if c = 40 then 41 else if c = 91 then 93 else 125)"

lemma bracket_chars:
  "u ''({['' = [40, 123, 91]" "u ''('' = [40]" "u ''['' = [91]" "u '')'' = [41]"
  by (simp_all add: u_Cons uchar_of_def)

lemma slice_to_length [simp]: "slice_to s (int (length s)) = s"
  by simp

lemma CloseExpression_eq:
  assumes "n < length (cl_elided cl)" "py_index (cl_elided cl ! n) pos = Ret c" "c \<in> {40, 91, 123}"
  shows "CloseExpression cl n pos =
     bind_out (close_lines cl c (closer c) n (open_after cl c (closer c) n n)) (\<lambda>(k, b).
       bind_out (py_index (cl_elided cl) (int k)) (\<lambda>line.
         Ret (line, k, close_pos line (int (length line)) b + 1)))"
  using assms by (auto simp: CloseExpression_def bracket_chars closer_def open_after_def opened_on_def Let_def)


text \<open>An argument list inside a longer line: the end of \<open>(a)\<close> is given as the end of
  \<open>(b)\<close>; and an expression that is still open on the last line.\<close>

definition two_lines :: "ustr \<Rightarrow> cleansed" where
  "two_lines line = \<lparr>cl_elided = [u ''//'', line], cl_lines = [u ''//'', line],
     cl_raw = [u ''//'', line], cl_num = 2\<rparr>"


end
