(* ===== verification/FileInfo.thy ===== *)
theory FileInfo
  imports ReCache "HOL-Library.Sublist"
begin

text \<open>
  The class \<open>FileInfo\<close>: the full name of a file, its name relative to the top of the
  checkout it lies in, and its parts. The functions of \<open>posixpath\<close> it calls are modelled
  from the standard library of Python 2.7; the working directory and the file system are
  parameters, in the record \<open>env\<close>.
\<close>

section \<open>The environment\<close>

text \<open>
  \<open>e_cwd\<close> is \<open>os.getcwd()\<close>, \<open>e_exists\<close> is \<open>os.path.exists\<close>,
  \<open>e_open\<close> gives the lines of a file that can be opened, each with its line end,
  \<open>e_order\<close> is the order in which a dictionary with these keys is iterated, and
  \<open>e_ucd\<close> the character database.
\<close>

record env =
  e_cwd :: ustr
  e_exists :: "ustr \<Rightarrow> bool"
  e_open :: "ustr \<Rightarrow> ustr list option"
  e_order :: "ustr list \<Rightarrow> ustr list"
  e_ucd :: ucd

section \<open>posixpath\<close>

definition all_slashes :: "ustr \<Rightarrow> bool" where
  "all_slashes s \<longleftrightarrow> list_all (\<lambda>c. c = 47) s"

text \<open>\<open>head\<close> is the part up to the last slash; trailing slashes go unless it has only those.\<close>

definition path_head :: "ustr \<Rightarrow> ustr" where
  "path_head p = slice_to p (py_rfind p (u ''/'') + 1)"

definition path_tail :: "ustr \<Rightarrow> ustr" where
  "path_tail p = slice_from p (py_rfind p (u ''/'') + 1)"

definition dirname :: "ustr \<Rightarrow> ustr" where
  "dirname p =
     (let head = path_head p
      in if head \<noteq> [] \<and> \<not> all_slashes head then rstrip_of (\<lambda>c. c = 47) head else head)"

definition path_split :: "ustr \<Rightarrow> ustr \<times> ustr" where
  "path_split p = (dirname p, path_tail p)"

definition splitext :: "ustr \<Rightarrow> ustr \<times> ustr" where
  "splitext p =
     (let sep = py_rfind p (u ''/''); dot = py_rfind p (u ''.'')
      in if sep < dot \<and> list_ex (\<lambda>c. c \<noteq> 46) (slice p (sep + 1) dot)
         then (slice_to p dot, slice_from p dot) else (p, []))"

definition path_join :: "ustr \<Rightarrow> ustr \<Rightarrow> ustr" where
  "path_join a b =
     (if startswith b (u ''/'') then b
      else if a = [] \<or> endswith a (u ''/'') then a @ b
      else a @ u ''/'' @ b)"

definition commonprefix2 :: "ustr \<Rightarrow> ustr \<Rightarrow> ustr" where
  "commonprefix2 a b = longest_common_prefix a b"

fun norm_comps :: "bool \<Rightarrow> ustr list \<Rightarrow> ustr list \<Rightarrow> ustr list" where
  "norm_comps initial acc [] = rev acc"
| "norm_comps initial acc (c # cs) =
     (if c = [] \<or> c = u ''.'' then norm_comps initial acc cs
      else if c \<noteq> u ''..'' \<or> (\<not> initial \<and> acc = []) \<or> (acc \<noteq> [] \<and> hd acc = u ''..'')
      then norm_comps initial (c # acc) cs
      else norm_comps initial (tl acc) cs)"

definition normpath :: "ustr \<Rightarrow> ustr" where
  "normpath path =
     (if path = [] then u ''.''
      else
        (let slashes = (if startswith path (u ''//'') \<and> \<not> startswith path (u ''///'') then u ''//''
                        else if startswith path (u ''/'') then u ''/'' else []);
             p = slashes @ join (u ''/'') (norm_comps (slashes \<noteq> []) [] (py_split path (u ''/'')))
         in if p = [] then u ''.'' else p))"

definition abspath :: "env \<Rightarrow> ustr \<Rightarrow> ustr" where
  "abspath e path = normpath (if startswith path (u ''/'') then path else path_join (e_cwd e) path)"

section \<open>The class\<close>

definition FullName :: "env \<Rightarrow> ustr \<Rightarrow> ustr" where
  "FullName e filename = py_replace (abspath e filename) (u ''`'') (u ''/'')"

definition has_dir :: "env \<Rightarrow> ustr \<Rightarrow> ustr \<Rightarrow> bool" where
  "has_dir e dir name = e_exists e (path_join dir name)"

text \<open>
  The loop that looks for the top of a Subversion checkout may never end: it has no test for
  the root directory.
\<close>

partial_function (option) svn_top :: "env \<Rightarrow> ustr \<Rightarrow> ustr \<Rightarrow> ustr option" where
  "svn_top e root_dir one_up_dir =
     (if has_dir e one_up_dir (u ''.svn'') then svn_top e (dirname root_dir) (dirname one_up_dir)
      else Some root_dir)"

declare svn_top.simps [code]

definition is_top :: "env \<Rightarrow> ustr \<Rightarrow> bool" where
  "is_top e dir \<longleftrightarrow> has_dir e dir (u ''.git'') \<or> has_dir e dir (u ''.hg'') \<or> has_dir e dir (u ''.svn'')"

lemma length_dirname: "length (dirname p) \<le> length p"
  by (auto simp: dirname_def path_head_def slice_to_def rstrip_of_def Let_def
      intro: le_trans [OF length_dropWhile_le])

lemma dirname_prefix: "prefix (dirname p) p"
proof -
  obtain t where "path_head p = rstrip_of (\<lambda>c. c = 47) (path_head p) @ t"
    using rstrip_of_suffix by blast
  then have "prefix (rstrip_of (\<lambda>c. c = 47) (path_head p)) (path_head p)"
    by (metis prefixI)
  moreover have "prefix (path_head p) p"
    by (simp add: path_head_def slice_to_def take_is_prefix)
  ultimately show ?thesis
    unfolding dirname_def Let_def by (auto intro: prefix_order.trans)
qed

lemma dirname_shrinks: "dirname p \<noteq> p \<Longrightarrow> length (dirname p) < length p"
  using dirname_prefix [of p] by (metis prefix_length_less strict_prefixI)

function repo_top :: "env \<Rightarrow> ustr \<Rightarrow> ustr" where
  "repo_top e root_dir =
     (if root_dir \<noteq> dirname root_dir \<and> \<not> is_top e root_dir then repo_top e (dirname root_dir)
      else root_dir)"
  by pat_completeness auto
termination
  by (relation "measure (\<lambda>(e, d). length d)") (auto intro: dirname_shrinks [OF not_sym])

declare repo_top.simps [simp del]

definition RepositoryName :: "env \<Rightarrow> ustr \<Rightarrow> ustr outcome" where
  "RepositoryName e filename =
     (let fullname = FullName e filename in
      if e_exists e fullname then
        (let project_dir = dirname fullname in
         if has_dir e project_dir (u ''.svn'') then
           (case svn_top e project_dir (dirname project_dir) of
              None \<Rightarrow> Diverge
            | Some root_dir \<Rightarrow>
                Ret (drop (length (commonprefix2 root_dir project_dir) + 1) fullname))
         else
           (let root_dir = repo_top e (dirname fullname) in
            if is_top e root_dir
            then Ret (drop (length (commonprefix2 root_dir project_dir) + 1) fullname)
            else Ret fullname))
      else Ret fullname)"

definition Split_name :: "env \<Rightarrow> ustr \<Rightarrow> (ustr \<times> ustr \<times> ustr) outcome" where
  "Split_name e filename =
     bind_out (RepositoryName e filename) (\<lambda>googlename.
       let (project, rest) = path_split googlename in Ret (project, splitext rest))"

definition BaseName :: "env \<Rightarrow> ustr \<Rightarrow> ustr outcome" where
  "BaseName e filename = bind_out (Split_name e filename) (\<lambda>(d, b, x). Ret b)"

definition Extension :: "env \<Rightarrow> ustr \<Rightarrow> ustr outcome" where
  "Extension e filename = bind_out (Split_name e filename) (\<lambda>(d, b, x). Ret x)"

definition NoExtension :: "env \<Rightarrow> ustr \<Rightarrow> ustr outcome" where
  "NoExtension e filename = bind_out (Split_name e filename) (\<lambda>(d, b, x). Ret (join (u ''/'') [d, b]))"

definition IsSource :: "env \<Rightarrow> ustr \<Rightarrow> bool outcome" where
  "IsSource e filename =
     bind_out (Extension e filename) (\<lambda>x.
       Ret (slice_from x 1 \<in> {u ''c'', u ''cc'', u ''cpp'', u ''cxx''}))"

definition GetHeaderGuardCPPVariable :: "env \<Rightarrow> ustr \<Rightarrow> ustr outcome" where
  "GetHeaderGuardCPPVariable e filename =
     bind_out (RepositoryName e (Sub (u ''_flymake`.h$'') (u ''.h'') filename)) (\<lambda>name.
       Ret (py_upper (e_ucd e) (Sub (u ''[-./`s]'') (u ''_'') name) @ u ''_''))"

section \<open>The loop over Subversion directories\<close>

lemma svn_top_step:
  "svn_top e r d = (if has_dir e d (u ''.svn'') then svn_top e (dirname r) (dirname d) else Some r)"
  by (rule svn_top.simps)

lemma svn_top_Some:
  "\<not> has_dir e ((dirname ^^ n) d) (u ''.svn'') \<Longrightarrow> \<exists>t. svn_top e r d = Some t"
proof (induction n arbitrary: r d)
  case 0
  then show ?case by (simp add: svn_top_step)
next
  case (Suc n)
  then have "\<exists>t. svn_top e (dirname r) (dirname d) = Some t" by (simp add: funpow_swap1)
  then show ?case by (simp add: svn_top_step [of e r d])
qed

definition svn_stop :: "env \<Rightarrow> ustr \<Rightarrow> ustr \<Rightarrow> ustr \<Rightarrow> bool" where
  "svn_stop e r d t \<longleftrightarrow> (\<exists>n. \<not> has_dir e ((dirname ^^ n) d) (u ''.svn'') \<and> t = (dirname ^^ n) r
     \<and> (\<forall>k < n. has_dir e ((dirname ^^ k) d) (u ''.svn'')))"

lemma svn_stop_later:
  assumes "has_dir e d (u ''.svn'')" "svn_stop e (dirname r) (dirname d) t"
  shows "svn_stop e r d t"
proof -
  obtain n where "\<not> has_dir e ((dirname ^^ n) (dirname d)) (u ''.svn'')"
      "t = (dirname ^^ n) (dirname r)"
      "\<forall>k < n. has_dir e ((dirname ^^ k) (dirname d)) (u ''.svn'')"
    using assms(2) unfolding svn_stop_def by blast
  with assms(1) show ?thesis
    unfolding svn_stop_def
    by (intro exI [of _ "Suc n"]) (auto simp: funpow_swap1 less_Suc_eq_0_disj)
qed

lemma svn_stop_now: "\<not> has_dir e d (u ''.svn'') \<Longrightarrow> svn_stop e r d r"
  unfolding svn_stop_def by (intro exI [of _ 0]) simp

lemma svn_top_found: "svn_top e r d = Some t \<Longrightarrow> svn_stop e r d t"
  by (rule svn_top.raw_induct [of svn_stop e r d t])
    (auto intro: svn_stop_later svn_stop_now split: if_splits)

lemma svn_top_None:
  "svn_top e r d = None \<longleftrightarrow> (\<forall>n. has_dir e ((dirname ^^ n) d) (u ''.svn''))"
  using svn_top_Some [of e _ d r] svn_top_found [of e r d] unfolding svn_stop_def by (metis not_Some_eq)

section \<open>The parts of a path\<close>

lemma slash_dot: "u ''/'' = [47]" "u ''.'' = [46]"
  by (simp_all add: u_Cons uchar_of_def)

lemma occurs_char: "occurs_at s [c] k \<longleftrightarrow> k < length s \<and> s ! k = c"
  by (auto simp: occurs_at_Cons occurs_at_Nil)

text \<open>\<open>rfind\<close> of one character: the last place where it stands.\<close>

lemma rfind_char:
  obtains (none) "py_rfind s [c] = - 1" "c \<notin> set s"
  | (some) a b where "s = a @ c # b" "py_rfind s [c] = int (length a)" "c \<notin> set b"
proof (cases rule: py_rfind_cases [of s "[c]"])
  case none
  then have "c \<notin> set s" by (simp add: occurs_char) (metis in_set_conv_nth)
  with none that(1) show ?thesis by blast
next
  case (some j)
  then have j: "j < length s" "s ! j = c" by (simp_all add: occurs_char)
  have "c \<notin> set (drop (Suc j) s)"
  proof
    assume "c \<in> set (drop (Suc j) s)"
    then obtain i where "i < length s - Suc j" "s ! (Suc j + i) = c"
      by (auto simp: in_set_conv_nth)
    with some(3) [of "Suc j + i"] show False by (simp add: occurs_char)
  qed
  moreover have "s = take j s @ c # drop (Suc j) s" using id_take_nth_drop [OF j(1)] j(2) by simp
  ultimately show ?thesis using that(2) [of "take j s" "drop (Suc j) s"] some(1) j(1) by simp
qed

lemma path_parts:
  "p = path_head p @ path_tail p \<and> 47 \<notin> set (path_tail p)"
proof (cases rule: rfind_char [of p 47])
  case none
  then show ?thesis
    by (simp add: path_head_def path_tail_def slash_dot slice_to_def slice_from_def bound_def)
next
  case (some a b)
  have "py_rfind p [47] + 1 = int (Suc (length a))" using some(2) by simp
  then have "path_head p = take (Suc (length a)) p" "path_tail p = drop (Suc (length a)) p"
    unfolding path_head_def path_tail_def slash_dot by (metis slice_to_nat, metis slice_from_nat)
  with some(1,3) show ?thesis by simp
qed

lemma dirname_sep: "\<exists>sep. path_head p = dirname p @ sep \<and> all_slashes sep"
proof -
  obtain t where "path_head p = rstrip_of (\<lambda>c. c = 47) (path_head p) @ t" "list_all (\<lambda>c. c = 47) t"
    using rstrip_of_suffix by blast
  then have "\<exists>sep. path_head p = rstrip_of (\<lambda>c. c = 47) (path_head p) @ sep \<and> all_slashes sep"
    unfolding all_slashes_def by blast
  moreover have "\<exists>sep. path_head p = path_head p @ sep \<and> all_slashes sep"
    by (simp add: all_slashes_def)
  ultimately show ?thesis unfolding dirname_def Let_def by presburger
qed

lemma splitext_parts:
  assumes "47 \<notin> set p" "splitext p = (b, x)"
  shows "p = b @ x \<and> (x = [] \<or> (\<exists>y. x = 46 # y \<and> 46 \<notin> set y \<and> (\<exists>c \<in> set b. c \<noteq> 46)))"
proof -
  have sep: "py_rfind p [47] = - 1"
    using assms(1) by (cases rule: rfind_char [of p 47]) auto
  show ?thesis
  proof (cases rule: rfind_char [of p 46])
    case none
    then show ?thesis using assms(2) sep by (simp add: splitext_def slash_dot)
  next
    case (some a y)
    have "slice p (sep + 1) (int (length a)) = a" if "sep = - 1" for sep
      using some(1) slice_nat [of p 0 "length a"] that by simp
    moreover have "slice_to p (int (length a)) = a" "slice_from p (int (length a)) = 46 # y"
      using some(1) by simp_all
    ultimately show ?thesis
      using assms(2) some sep by (auto simp: splitext_def slash_dot Let_def list_ex_iff split: if_splits)
  qed
qed

section \<open>Properties\<close>

text \<open>C13: The parts of a file name put together give the name back: the repository name is
  the directory, some slashes, the base name and the extension; neither of the last two holds a
  slash; an extension begins with the last period of the file name, and the base name before it
  is not made of periods alone.\<close>

theorem Split_name_roundtrip:
  assumes "RepositoryName e filename = Ret g"
  shows "\<exists>d b x sep. Split_name e filename = Ret (d, b, x) \<and> g = d @ sep @ b @ x
     \<and> all_slashes sep \<and> 47 \<notin> set b \<and> 47 \<notin> set x
     \<and> (x = [] \<or> (\<exists>y. x = 46 # y \<and> 46 \<notin> set y \<and> (\<exists>c \<in> set b. c \<noteq> 46)))
     \<and> BaseName e filename = Ret b \<and> Extension e filename = Ret x"
proof -
  obtain sep where sep: "path_head g = dirname g @ sep" "all_slashes sep" using dirname_sep by blast
  obtain b x where bx: "splitext (path_tail g) = (b, x)" by fastforce
  have tail: "g = path_head g @ path_tail g" "47 \<notin> set (path_tail g)" using path_parts [of g] by blast+
  note parts = splitext_parts [OF tail(2) bx]
  have S: "Split_name e filename = Ret (dirname g, b, x)"
    using assms bx by (simp add: Split_name_def path_split_def)
  have "g = dirname g @ sep @ b @ x" using tail(1) sep(1) parts by simp
  moreover have "47 \<notin> set b" "47 \<notin> set x" using tail(2) parts by auto
  ultimately show ?thesis
    using S sep(2) parts by (auto simp: BaseName_def Extension_def)
qed

text \<open>An environment in which nothing exists but the paths listed.\<close>

definition example_env :: "ustr list \<Rightarrow> env" where
  "example_env paths = \<lparr>e_cwd = u ''/home/me/proj/src'', e_exists = (\<lambda>p. p \<in> set paths),
     e_open = (\<lambda>p. None), e_order = (\<lambda>ks. ks), e_ucd = ascii_ucd\<rparr>"

theorem Split_name_roundtrip_witness:
  "\<exists>d b x sep. Split_name (example_env [u ''/home/me/proj/src/a.b.c'', u ''/home/me/proj/.git'']) (u ''a.b.c'')
       = Ret (d, b, x) \<and> u ''src/a.b.c'' = d @ sep @ b @ x"
proof -
  have "RepositoryName (example_env [u ''/home/me/proj/src/a.b.c'', u ''/home/me/proj/.git'']) (u ''a.b.c'')
      = Ret (u ''src/a.b.c'')"
    by code_simp
  from Split_name_roundtrip [OF this] show ?thesis by blast
qed

text \<open>C14: When \<open>RepositoryName\<close> does not return: exactly when the file exists and every
  directory from its own up to and including the root holds a \<open>.svn\<close> entry. The loop has
  no test for the root, whose parent is the root.\<close>

theorem RepositoryName_diverges:
  "RepositoryName e filename = Diverge \<longleftrightarrow>
     e_exists e (FullName e filename)
     \<and> (\<forall>n. has_dir e ((dirname ^^ Suc n) (FullName e filename)) (u ''.svn''))"
proof -
  let ?d = "dirname (FullName e filename)"
  have "(\<forall>n. has_dir e ((dirname ^^ Suc n) (FullName e filename)) (u ''.svn'')) \<longleftrightarrow>
      (\<forall>n. has_dir e ((dirname ^^ n) ?d) (u ''.svn''))"
    by (simp only: funpow_Suc_right comp_apply)
  also have "\<dots> \<longleftrightarrow> has_dir e ?d (u ''.svn'') \<and> (\<forall>n. has_dir e ((dirname ^^ n) (dirname ?d)) (u ''.svn''))"
    (is "?l \<longleftrightarrow> ?r")
  proof
    assume ?l
    then have "has_dir e ((dirname ^^ 0) ?d) (u ''.svn'')"
      "has_dir e ((dirname ^^ Suc n) ?d) (u ''.svn'')" for n by blast+
    then show ?r by (simp only: funpow_Suc_right comp_apply funpow_0) blast
  next
    assume r: ?r
    show ?l
    proof
      fix n show "has_dir e ((dirname ^^ n) ?d) (u ''.svn'')"
        using r by (cases n) (simp_all only: funpow_Suc_right comp_apply funpow_0)
    qed
  qed
  finally have all: "(\<forall>n. has_dir e ((dirname ^^ Suc n) (FullName e filename)) (u ''.svn'')) \<longleftrightarrow>
      has_dir e ?d (u ''.svn'') \<and> svn_top e ?d (dirname ?d) = None"
    unfolding svn_top_None .
  show ?thesis
    unfolding all by (auto simp: RepositoryName_def Let_def split: option.splits)
qed

lemma repo_top_nearest:
  "\<exists>n. repo_top e d = (dirname ^^ n) d \<and> (\<forall>k < n. \<not> is_top e ((dirname ^^ k) d))
     \<and> (is_top e (repo_top e d) \<or> dirname (repo_top e d) = repo_top e d)"
proof (induction e d rule: repo_top.induct)
  case (1 e d)
  show ?case
  proof (cases "d \<noteq> dirname d \<and> \<not> is_top e d")
    case True
    then have eq: "repo_top e d = repo_top e (dirname d)" by (subst repo_top.simps) simp
    from 1 [OF True] obtain n where n: "repo_top e (dirname d) = (dirname ^^ n) (dirname d)"
      "\<forall>k < n. \<not> is_top e ((dirname ^^ k) (dirname d))"
      "is_top e (repo_top e (dirname d)) \<or> dirname (repo_top e (dirname d)) = repo_top e (dirname d)"
      by blast
    have "\<forall>k < Suc n. \<not> is_top e ((dirname ^^ k) d)"
      using n(2) True by (simp add: All_less_Suc2 funpow_swap1)
    with n(1,3) show ?thesis unfolding eq by (intro exI [of _ "Suc n"]) (simp add: funpow_swap1)
  next
    case False
    then have "repo_top e d = d" by (subst repo_top.simps) auto
    with False show ?thesis by (intro exI [of _ 0]) auto
  qed
qed

lemma dirname_pow_prefix: "prefix ((dirname ^^ n) d) d"
proof (induction n)
  case (Suc n)
  then show ?case using dirname_prefix [of "(dirname ^^ n) d"] by (auto intro: prefix_order.trans)
qed simp

lemma commonprefix2_prefix: "prefix a b \<Longrightarrow> commonprefix2 a b = a"
  unfolding commonprefix2_def
  by (metis longest_common_prefix_max_prefix longest_common_prefix_prefix1 prefix_order.antisym prefix_order.refl)



end
