(* ===== verification/FileChecks.thy ===== *)
theory FileChecks
  imports LintState Cleanse FileInfo
begin

text \<open>
  The checks that look at a file as a whole (copyright, header guard, replacement characters,
  the line end at the end of the file) and the simple checks of one line (comments and strings
  over several lines, functions that are not thread safe, increments of a pointer, explicit
  template arguments of \<open>make_pair\<close>).
\<close>

section \<open>The file as a whole\<close>

definition search_nocase :: "ustr \<Rightarrow> ustr \<Rightarrow> bool" where
  "search_nocase pattern s =
     (case re_compile False True False pattern of Some p \<Rightarrow> re_search p s \<noteq> None | None \<Rightarrow> False)"

definition CheckForCopyright :: "ustr \<Rightarrow> ustr list \<Rightarrow> unit chk" where
  "CheckForCopyright filename lines =
     guard (\<not> list_ex (\<lambda>line. search_nocase (u ''Copyright'') (lines ! line))
               [1..<min (length lines) 11])
       (error filename 0 (u ''legal/copyright'') 5
          (u ''No copyright message found.  You should have a line: \"Copyright [year] <Copyright Owner>\"''))"

text \<open>What the scan for the header guard remembers.\<close>

record guard_scan =
  gs_ifndef :: "ustr option"
  gs_ifndef_linenum :: nat
  gs_define :: "ustr option"
  gs_endif :: "ustr option"
  gs_endif_linenum :: nat

definition guard_scan_init :: guard_scan where
  "guard_scan_init = \<lparr>gs_ifndef = None, gs_ifndef_linenum = 0, gs_define = None,
     gs_endif = None, gs_endif_linenum = 0\<rparr>"

definition scan_guard_line :: "nat \<Rightarrow> ustr \<Rightarrow> guard_scan \<Rightarrow> guard_scan" where
  "scan_guard_line linenum line g =
     (let linesplit = py_words line;
          g1 = (if 2 \<le> length linesplit then
                  (let g' = (if gs_ifndef g = None \<and> linesplit ! 0 = u ''#ifndef''
                             then g\<lparr>gs_ifndef := Some (linesplit ! 1), gs_ifndef_linenum := linenum\<rparr>
                             else g)
                   in if gs_define g' = None \<and> linesplit ! 0 = u ''#define''
                      then g'\<lparr>gs_define := Some (linesplit ! 1)\<rparr> else g')
                else g)
      in if startswith line (u ''#endif'')
         then g1\<lparr>gs_endif := Some line, gs_endif_linenum := linenum\<rparr> else g1)"

fun scan_guard :: "nat \<Rightarrow> ustr list \<Rightarrow> guard_scan \<Rightarrow> guard_scan" where
  "scan_guard linenum [] g = g"
| "scan_guard linenum (line # lines) g = scan_guard (Suc linenum) lines (scan_guard_line linenum line g)"

text \<open>
  The message for a missing \<open>#ifndef\<close> names \<open>cppvar\<close>, which is not bound yet there.
\<close>

definition CheckForHeaderGuard :: "ustr \<Rightarrow> ustr list \<Rightarrow> unit chk" where
  "CheckForHeaderGuard filename lines =
     (let g = scan_guard 0 lines guard_scan_init in
      case gs_ifndef g of
        None \<Rightarrow> raise (UnboundLocalError (u ''cppvar''))
      | Some ifndef \<Rightarrow>
          (let cppvar = ifndef in
           case gs_define g of
             None \<Rightarrow>
               error filename 0 (u ''build/header_guard'') 5
                 (u ''No #define header guard found, suggested CPP variable is: '' @ cppvar)
           | Some def \<Rightarrow>
               andthen
                 (guard (ifndef \<noteq> cppvar)
                   (ParseNolintSuppressions filename (lines ! gs_ifndef_linenum g)
                      (int (gs_ifndef_linenum g))))
                 (if def \<noteq> ifndef then
                    error filename 0 (u ''build/header_guard'') 5
                      (u ''#ifndef and #define don@t match, suggested CPP variable is: '' @ cppvar)
                  else
                    guard (gs_endif g \<noteq> Some (u ''#endif  // '' @ cppvar))
                      (let error_level =
                             (if gs_endif g \<noteq> Some (u ''#endif  // '' @ cppvar @ u ''_'') then 5 else 0)
                       in andthen
                            (ParseNolintSuppressions filename (lines ! gs_endif_linenum g)
                               (int (gs_endif_linenum g)))
                            (error filename (int (gs_endif_linenum g)) (u ''build/header_guard'') error_level
                               (u ''#endif line should be \"#endif  // '' @ cppvar @ u ''\"''))))))"

fun for_lines :: "nat \<Rightarrow> ustr list \<Rightarrow> (nat \<Rightarrow> ustr \<Rightarrow> unit chk) \<Rightarrow> unit chk" where
  "for_lines linenum [] f = skip"
| "for_lines linenum (line # lines) f = andthen (f linenum line) (for_lines (Suc linenum) lines f)"

definition CheckForUnicodeReplacementCharacters :: "ustr \<Rightarrow> ustr list \<Rightarrow> unit chk" where
  "CheckForUnicodeReplacementCharacters filename lines =
     for_lines 0 lines (\<lambda>linenum line.
       guard (contains line [65533])
         (error filename (int linenum) (u ''readability/utf8'') 5
            (u ''Line contains invalid UTF-8 (or Unicode replacement character).'')))"

definition CheckForNewlineAtEOF :: "ustr \<Rightarrow> ustr list \<Rightarrow> unit chk" where
  "CheckForNewlineAtEOF filename lines =
     guard (length lines < 3 \<or> lines ! (length lines - 2) \<noteq> [])
       (error filename (int (length lines) - 2) (u ''whitespace/ending_newline'') 5
          (u ''Could not find a newline character at the end of the file.''))"

section \<open>One line\<close>

definition CheckForMultilineCommentsAndStrings :: "ustr \<Rightarrow> cleansed \<Rightarrow> nat \<Rightarrow> unit chk" where
  "CheckForMultilineCommentsAndStrings filename cl linenum =
     bnd (lift (py_index (cl_elided cl) (int linenum))) (\<lambda>line0.
       let line = py_replace line0 (u ''``'') [] in
       in_order
         [guard (py_count line (u ''*/'') < py_count line (u ''/*''))
            (error filename (int linenum) (u ''readability/multiline_comment'') 5
               (u ''Complex multi-line /*...*/-style comment found. Lint may give bogus warnings.  Consider replacing these with //-style comments, with #if 0...#endif, or with more clearly structured multi-line comments.'')),
          guard ((int (py_count line (u ''\"'')) - int (py_count line (u ''`\"''))) mod 2 \<noteq> 0)
            (error filename (int linenum) (u ''readability/multiline_string'') 5
               (u ''Multi-line string (\"...\") found.  This lint script doesn@t do well with such strings, and may give bogus warnings.  They@re ugly and unnecessary, and you should use concatenation instead\".''))])"

definition threading_list :: "(ustr \<times> ustr) list" where
  "threading_list = map (\<lambda>(a, b). (u a, u b))
    [(''asctime('', ''asctime_r(''),
     (''ctime('', ''ctime_r(''),
     (''getgrgid('', ''getgrgid_r(''),
     (''getgrnam('', ''getgrnam_r(''),
     (''getlogin('', ''getlogin_r(''),
     (''getpwnam('', ''getpwnam_r(''),
     (''getpwuid('', ''getpwuid_r(''),
     (''gmtime('', ''gmtime_r(''),
     (''localtime('', ''localtime_r(''),
     (''rand('', ''rand_r(''),
     (''readdir('', ''readdir_r(''),
     (''strtok('', ''strtok_r(''),
     (''ttyname('', ''ttyname_r('')]"

text \<open>Only the first occurrence of each name on the line is looked at.\<close>

definition CheckPosixThreading :: "ucd \<Rightarrow> ustr \<Rightarrow> cleansed \<Rightarrow> nat \<Rightarrow> unit chk" where
  "CheckPosixThreading db filename cl linenum =
     bnd (lift (py_index (cl_elided cl) (int linenum))) (\<lambda>line.
       for_each threading_list (\<lambda>(single_thread_function, multithread_safe_function).
         let ix = py_find line single_thread_function in
         guard (0 \<le> ix \<and> (ix = 0 \<or> \<not> uc_alnum db (line ! nat (ix - 1))
                           \<and> line ! nat (ix - 1) \<notin> set (u ''_.>'')))
           (error filename (int linenum) (u ''runtime/threadsafe_fn'') 2
              (u ''Consider using '' @ multithread_safe_function @ u ''...) instead of ''
               @ single_thread_function @ u ''...) for improved thread safety.''))))"

definition RE_PATTERN_INVALID_INCREMENT :: ustr where
  "RE_PATTERN_INVALID_INCREMENT = u ''^`s*`*`w+(`+`+|--);''"

definition CheckInvalidIncrement :: "ustr \<Rightarrow> cleansed \<Rightarrow> nat \<Rightarrow> unit chk" where
  "CheckInvalidIncrement filename cl linenum =
     bnd (lift (py_index (cl_elided cl) (int linenum))) (\<lambda>line.
       guard (Matches RE_PATTERN_INVALID_INCREMENT line)
         (error filename (int linenum) (u ''runtime/invalid_increment'') 5
            (u ''Changing pointer instead of value (or unused value of operator*).'')))"

definition RE_PATTERN_EXPLICIT_MAKEPAIR :: ustr where
  "RE_PATTERN_EXPLICIT_MAKEPAIR = u ''`bmake_pair`s*<''"

definition CheckMakePairUsesDeduction :: "ustr \<Rightarrow> cleansed \<Rightarrow> nat \<Rightarrow> unit chk" where
  "CheckMakePairUsesDeduction filename cl linenum =
     bnd (lift (py_index (cl_raw cl) (int linenum))) (\<lambda>line.
       guard (Searches RE_PATTERN_EXPLICIT_MAKEPAIR line)
         (error filename (int linenum) (u ''build/explicit_make_pair'') 4
            (u ''Omit template arguments from make_pair OR use pair directly OR if appropriate, construct a pair directly'')))"

section \<open>The header guard\<close>

lemma total_ParseNolint [simp]: "total (ParseNolintSuppressions f l n)"
  by (auto simp: ParseNolintSuppressions_def Let_def split: option.split)

text \<open>A line whose first word is the directive and that has a second word.\<close>

definition directive :: "ustr \<Rightarrow> ustr \<Rightarrow> bool" where
  "directive name line \<longleftrightarrow> 2 \<le> length (py_words line) \<and> py_words line ! 0 = name"

definition first_name :: "ustr \<Rightarrow> ustr list \<Rightarrow> ustr option" where
  "first_name name lines = map_option (\<lambda>l. py_words l ! 1) (find (directive name) lines)"

definition last_endif :: "ustr list \<Rightarrow> ustr option" where
  "last_endif lines = find (\<lambda>l. startswith l (u ''#endif'')) (rev lines)"

lemma find_append: "find P (xs @ ys) = (case find P xs of Some x \<Rightarrow> Some x | None \<Rightarrow> find P ys)"
  by (induction xs) auto

lemma directives_differ: "u ''#ifndef'' \<noteq> u ''#define''"
  by code_simp

lemma scan_ifndef:
  "gs_ifndef (scan_guard n lines g) =
     (case gs_ifndef g of Some x \<Rightarrow> Some x | None \<Rightarrow> first_name (u ''#ifndef'') lines)"
  by (induction n lines g rule: scan_guard.induct)
    (auto simp: scan_guard_line_def first_name_def directive_def Let_def split: option.split)

lemma scan_define:
  "gs_define (scan_guard n lines g) =
     (case gs_define g of Some x \<Rightarrow> Some x | None \<Rightarrow> first_name (u ''#define'') lines)"
  using directives_differ
  by (induction n lines g rule: scan_guard.induct)
    (auto simp: scan_guard_line_def first_name_def directive_def Let_def split: option.split)

lemma scan_endif:
  "gs_endif (scan_guard n lines g) =
     (case last_endif lines of Some x \<Rightarrow> Some x | None \<Rightarrow> gs_endif g)"
  by (induction n lines g rule: scan_guard.induct)
    (auto simp: scan_guard_line_def last_endif_def Let_def find_append split: option.split)

lemma error_not_skip [simp]: "error f n c k m \<noteq> skip"
  by (simp add: error_def skip_def ok_def)

lemma scan_init:
  "gs_ifndef (scan_guard 0 lines guard_scan_init) = first_name (u ''#ifndef'') lines"
  "gs_define (scan_guard 0 lines guard_scan_init) = first_name (u ''#define'') lines"
  "gs_endif (scan_guard 0 lines guard_scan_init) = last_endif lines"
  by (auto simp: scan_ifndef scan_define scan_endif guard_scan_init_def split: option.split)




text \<open>C22: The check for replacement characters reports every line that holds one, once, in the
  order of the lines, and nothing else.\<close>

theorem replacement_characters_reported:
  "CheckForUnicodeReplacementCharacters f lines =
     (map (\<lambda>n. call f (int n) (u ''readability/utf8'') 5
          (u ''Line contains invalid UTF-8 (or Unicode replacement character).''))
        (filter (\<lambda>n. 65533 \<in> set (lines ! n)) [0..<length lines]), Ret ())"
proof -
  let ?e = "\<lambda>n :: nat. call f (int n) (u ''readability/utf8'') 5
          (u ''Line contains invalid UTF-8 (or Unicode replacement character).'')"
  have c: "contains line [x] \<longleftrightarrow> x \<in> set line" for line x
    by (auto simp: contains_iff in_set_conv_decomp)
  have "for_lines k ls (\<lambda>n line. guard (contains line [65533])
         (error f (int n) (u ''readability/utf8'') 5
            (u ''Line contains invalid UTF-8 (or Unicode replacement character).'')))
      = (map ?e (filter (\<lambda>n. 65533 \<in> set (ls ! (n - k))) [k..<k + length ls]), Ret ())" for k ls
  proof (induction ls arbitrary: k)
    case Nil
    show ?case by (simp add: skip_def ok_def)
  next
    case (Cons l ls)
    have "[k..<k + length (l # ls)] = k # [Suc k..<Suc k + length ls]"
      by (subst upt_conv_Cons) simp_all
    moreover have "filter (\<lambda>n. 65533 \<in> set ((l # ls) ! (n - k))) [Suc k..<Suc k + length ls]
        = filter (\<lambda>n. 65533 \<in> set (ls ! (n - Suc k))) [Suc k..<Suc k + length ls]"
      by (rule filter_cong) (auto simp: nth_Cons')
    ultimately show ?case
      using Cons.IH [of "Suc k"] by (simp add: c guard_def andthen_error del: upt_Suc)
  qed
  from this [of 0 lines] show ?thesis by (simp add: CheckForUnicodeReplacementCharacters_def)
qed

section \<open>Increments\<close>

lemma Matches_bol_iff_lang:
  assumes "compile p = Some (fl, RSeq RBol r)" and "regular r"
  shows "Matches p s \<longleftrightarrow> (\<exists>w t. s = w @ t \<and> w \<in> lang fl r)"
proof -
  have "Matches p s \<longleftrightarrow> (\<exists>j. (0, j) \<in> spans fl s (RSeq RBol r))"
    using assms match_at_iff_spans [of "(fl, RSeq RBol r)" 0 s] regular_no_back [OF assms(2)]
    by (simp add: Matches_def Match_def re_match_def)
  also have "\<dots> \<longleftrightarrow> (\<exists>j. (0, j) \<in> spans fl s r)"
    by (auto simp: at_bol_def relcomp_unfold)
  also have "\<dots> \<longleftrightarrow> (\<exists>j \<le> length s. take j s \<in> lang fl r)"
    using denotesD [OF spans_denote_lang [OF assms(2)], of 0 s] by auto
  finally show ?thesis by (metis append_eq_conv_conj append_take_drop_id le_add1 length_append)
qed

lemma concI: "x \<in> A \<Longrightarrow> y \<in> B \<Longrightarrow> x @ y \<in> conc A B"
  by (auto simp: conc_def)

lemma compile_INVALID_INCREMENT [compiled]:
  "compile RE_PATTERN_INVALID_INCREMENT = Some (no_flags, RSeq RBol (RSeq (RStar (RSet False [CCat Space]))
     (RSeq (RLit 42) (RSeq (RPlus (RSet False [CCat Word]))
       (RSeq (RGroup 1 (RAlt (RSeq (RLit 43) (RLit 43)) (RSeq (RLit 45) (RLit 45)))) (RLit 59))))))"
  by code_simp

text \<open>C23: The check of increments reports a line exactly when it is, after blanks, a star, a
  name, two plus or two minus signs and a semicolon, whatever follows.\<close>

theorem CheckInvalidIncrement_iff:
  assumes "linenum < length (cl_elided cl)"
  shows "CheckInvalidIncrement f cl linenum =
     (if \<exists>blanks name sign rest. cl_elided cl ! linenum = blanks @ 42 # name @ sign @ 59 # rest
           \<and> list_all is_space blanks \<and> list_all is_word name \<and> name \<noteq> [] \<and> sign \<in> {[43, 43], [45, 45]}
      then ([call f (int linenum) (u ''runtime/invalid_increment'') 5
               (u ''Changing pointer instead of value (or unused value of operator*).'')], Ret ())
      else ([], Ret ()))"
proof -
  let ?r = "RSeq (RStar (RSet False [CCat Space]))
     (RSeq (RLit 42) (RSeq (RPlus (RSet False [CCat Word]))
       (RSeq (RGroup 1 (RAlt (RSeq (RLit 43) (RLit 43)) (RSeq (RLit 45) (RLit 45)))) (RLit 59))))"
  have cls: "set_match no_flags False [CCat Space] = is_space" "set_match no_flags False [CCat Word] = is_word"
    by (auto simp: set_match_def)
  let ?shape = "\<lambda>w blanks name sign. w = blanks @ 42 # name @ sign @ [59]
      \<and> list_all is_space blanks \<and> list_all is_word name \<and> name \<noteq> [] \<and> sign \<in> {[43, 43], [45, 45]}"
  have "blanks @ ([42] @ (name @ (sign @ [59]))) \<in> lang no_flags ?r"
    if "?shape w blanks name sign" for w blanks name sign
    unfolding lang.simps(7) lang_rep_set cls using that by (intro concI) (auto simp: conc_iff Suc_le_eq)
  moreover have "\<exists>blanks name sign. ?shape w blanks name sign" if "w \<in> lang no_flags ?r" for w
    using that unfolding lang.simps(7) lang_rep_set cls
    by (auto simp: conc_iff Suc_le_eq)
  ultimately have L: "w \<in> lang no_flags ?r \<longleftrightarrow> (\<exists>blanks name sign. ?shape w blanks name sign)" for w
    by fastforce
  have "regular ?r" by simp
  note M = Matches_bol_iff_lang [OF compile_INVALID_INCREMENT this]
  have "Matches RE_PATTERN_INVALID_INCREMENT s \<longleftrightarrow>
      (\<exists>blanks name sign rest. s = (blanks @ 42 # name @ sign @ [59]) @ rest
        \<and> list_all is_space blanks \<and> list_all is_word name \<and> name \<noteq> [] \<and> sign \<in> {[43, 43], [45, 45]})" for s
    unfolding M L by blast
  then have M': "Matches RE_PATTERN_INVALID_INCREMENT s \<longleftrightarrow>
      (\<exists>blanks name sign rest. s = blanks @ 42 # name @ sign @ 59 # rest
        \<and> list_all is_space blanks \<and> list_all is_word name \<and> name \<noteq> [] \<and> sign \<in> {[43, 43], [45, 45]})" for s
    by simp
  show ?thesis
    unfolding M' [symmetric] using assms
    by (simp add: CheckInvalidIncrement_def lift_def bnd_def guard_def error_def skip_def ok_def)
qed

theorem CheckInvalidIncrement_iff_witness:
  "fst (CheckInvalidIncrement (u ''a.c'') (two_lines (u '' *n++;'')) 1) \<noteq> []"
proof -
  have n: "1 < length (cl_elided (two_lines (u '' *n++;'')))" by (simp add: two_lines_def)
  have "cl_elided (two_lines (u '' *n++;'')) ! 1 = [32] @ 42 # u ''n'' @ [43, 43] @ 59 # []"
    "list_all is_space [32]" "list_all is_word (u ''n'')" "u ''n'' \<noteq> []"
    by code_simp+
  then have "\<exists>blanks name sign rest. cl_elided (two_lines (u '' *n++;'')) ! 1 = blanks @ 42 # name @ sign @ 59 # rest
      \<and> list_all is_space blanks \<and> list_all is_word name \<and> name \<noteq> [] \<and> sign \<in> {[43, 43], [45, 45]}"
    by blast
  then show ?thesis unfolding CheckInvalidIncrement_iff [OF n] by (simp only: if_True) simp
qed

end
