(* ===== verification/Classes.thy ===== *)
theory Classes
  imports FileChecks
begin

text \<open>
  Class declarations: the classes \<open>_ClassInfo\<close> and \<open>_ClassState\<close>, a stack of the
  declarations that are open, and \<open>CheckForNonStandardConstructs\<close>, which reports some
  constructs of a line and keeps the stack.
\<close>

section \<open>The state\<close>

record class_info =
  ci_name :: ustr
  ci_linenum :: nat
  seen_open_brace :: bool
  is_derived :: bool
  virtual_method_linenumber :: "nat option"
  has_virtual_destructor :: bool
  brace_depth :: int
  last_line :: nat

text \<open>The stack grows at its end, as in the source.\<close>

type_synonym class_state = "class_info list"

definition braces_of :: "ustr \<Rightarrow> int" where
  "braces_of line = int (py_count line (u ''{'')) - int (py_count line (u ''}''))"

fun find_last_line :: "cleansed \<Rightarrow> nat list \<Rightarrow> int \<Rightarrow> nat" where
  "find_last_line cl [] depth = 0"
| "find_last_line cl (i # is) depth =
     (let depth' = depth + braces_of (cl_lines cl ! i)
      in if depth' = 0 then i else find_last_line cl is depth')"

definition ClassInfo :: "ustr \<Rightarrow> cleansed \<Rightarrow> nat \<Rightarrow> class_info" where
  "ClassInfo name cl linenum =
     \<lparr>ci_name = name, ci_linenum = linenum, seen_open_brace = False, is_derived = False,
      virtual_method_linenumber = None, has_virtual_destructor = False, brace_depth = 0,
      last_line = find_last_line cl [linenum..<NumLines cl] 0\<rparr>"

definition CheckFinished :: "ustr \<Rightarrow> class_state \<Rightarrow> unit chk" where
  "CheckFinished filename stack =
     (case stack of
        [] \<Rightarrow> skip
      | info # _ \<Rightarrow>
          error filename (int (ci_linenum info)) (u ''build/class'') 5
            (u ''Failed to find complete declaration of class '' @ ci_name info))"

section \<open>Constructs that are not standard\<close>

definition construct_reports :: "ustr \<Rightarrow> nat \<Rightarrow> ustr \<Rightarrow> ustr \<Rightarrow> unit chk" where
  "construct_reports filename linenum line0 line =
     in_order
       [guard (Searches (u ''printf`s*`(.*\".*%[-+ ]?`d*q'') line0)
          (error filename (int linenum) (u ''runtime/printf_format'') 3
             (u ''%q in format strings is deprecated.  Use %ll instead.'')),
        guard (Searches (u ''printf`s*`(.*\".*%`d+`$'') line0)
          (error filename (int linenum) (u ''runtime/printf_format'') 2
             (u ''%N$ formats are unconventional.  Try rewriting to avoid them.'')),
        guard (Searches (u ''(\"|`@).*``(%|`[|`(|{)'') (py_replace line0 (u ''``'') []))
          (error filename (int linenum) (u ''build/printf_format'') 3
             (u ''%, [, (, and { are undefined character escapes.  Unescape them.'')),
        guard (Searches (u ''`b(const|volatile|void|char|short|int|long|float|double|signed|unsigned|schar|u?int8|u?int16|u?int32|u?int64)`s+(auto|register|static|extern|typedef)`b'') line)
          (error filename (int linenum) (u ''build/storage_class'') 5
             (u ''Storage class (static, extern, typedef, etc) should be first.'')),
        guard (Matches (u ''`s*#`s*endif`s*[^/`s]+'') line)
          (error filename (int linenum) (u ''build/endif_comment'') 5
             (u ''Uncommented text after #endif is non-standard.  Use a comment.'')),
        guard (Matches (u ''`s*class`s+(`w+`s*::`s*)+`w+`s*;'') line)
          (error filename (int linenum) (u ''build/forward_decl'') 5
             (u ''Inner-style forward declarations are invalid.  Remove this line.'')),
        guard (Searches (u ''(`w+|[+-]?`d+(`.`d*)?)`s*(<|>)`?=?`s*(`w+|[+-]?`d+)(`.`d*)?'') line)
          (error filename (int linenum) (u ''build/deprecated'') 3
             (u ''>? and <? (max and min) operators are non-standard and deprecated.'')),
        guard (Searches (u ''^`s*const`s*string`s*&`s*`w+`s*;'') line)
          (error filename (int linenum) (u ''runtime/member_string_references'') 2
             (u ''const string& members are dangerous. It is much better to use alternatives, such as pointers or simple constants.''))]"

section \<open>The open class declarations\<close>

text \<open>\<open>re.escape\<close>, for patterns that are put together from a name of the program.\<close>

definition re_escape :: "ustr \<Rightarrow> ustr" where
  "re_escape s =
     concat (map (\<lambda>c. if is_digit c \<or> is_upper c \<or> is_lower c then [c] else [92, c]) s)"

definition Match_name :: "ustr \<Rightarrow> ustr \<Rightarrow> mobj option outcome" where
  "Match_name pattern s =
     (case compile pattern of Some p \<Rightarrow> Ret (re_match p s) | None \<Rightarrow> Raise (ReError pattern))"

definition Search_name :: "ustr \<Rightarrow> ustr \<Rightarrow> mobj option outcome" where
  "Search_name pattern s =
     (case compile pattern of Some p \<Rightarrow> Ret (re_search p s) | None \<Rightarrow> Raise (ReError pattern))"

definition base_classname :: "class_info \<Rightarrow> ustr" where
  "base_classname info = last (py_split (ci_name info) (u ''::''))"

definition check_explicit :: "ustr \<Rightarrow> nat \<Rightarrow> ustr \<Rightarrow> class_info \<Rightarrow> unit chk" where
  "check_explicit filename linenum line info =
     (let name = re_escape (base_classname info) in
      bnd (lift (Match_name (u ''`s+(?:inline`s+)?'' @ name @ u ''`s*`(([^,()]+)`)'') line)) (\<lambda>args.
        case args of
          None \<Rightarrow> skip
        | Some m \<Rightarrow>
            if group_str m 1 = u ''void'' then skip
            else bnd (lift (Match_name (u ''(const`s+)?'' @ name @ u ''`s*(?:<`w+>`s*)?&'')
                              (py_strip (group_str m 1)))) (\<lambda>copy.
              guard (copy = None)
                (error filename (int linenum) (u ''runtime/explicit'') 5
                   (u ''Single-argument constructors should be marked explicit.'')))))"

definition note_virtual :: "nat \<Rightarrow> ustr \<Rightarrow> class_info \<Rightarrow> class_info outcome" where
  "note_virtual linenum line info =
     (if Searches (u ''`bvirtual`b'') line then
        bind_out (Search_name (u ''~'' @ base_classname info @ u ''`s*`('') line) (\<lambda>d.
          Ret (info\<lparr>virtual_method_linenumber := Some linenum,
                    has_virtual_destructor := (has_virtual_destructor info \<or> d \<noteq> None)\<rparr>))
      else Ret info)"

definition check_virtual :: "ustr \<Rightarrow> class_info \<Rightarrow> unit chk" where
  "check_virtual filename info =
     (case virtual_method_linenumber info of
        None \<Rightarrow> skip
      | Some n \<Rightarrow>
          guard (\<not> has_virtual_destructor info \<and> \<not> is_derived info)
            (error filename (int (ci_linenum info)) (u ''runtime/virtual'') 4
               (u ''The class '' @ ci_name info @ u '' probably needs a virtual destructor due to having virtual method(s), one declared at line ''
                @ show_int (int n) @ u ''.'')))"

text \<open>A line of the innermost class, of which the opening brace has been seen.\<close>

definition class_body_line ::
    "ustr \<Rightarrow> nat \<Rightarrow> ustr \<Rightarrow> class_state \<Rightarrow> class_info \<Rightarrow> class_state chk" where
  "class_body_line filename linenum line outer info =
     bnd (check_explicit filename linenum line info) (\<lambda>_.
     bnd (lift (note_virtual linenum line info)) (\<lambda>info1.
       let depth = brace_depth info1 + braces_of line in
       if depth \<le> 0 then andthen (check_virtual filename info1) (ok outer)
       else ok (outer @ [info1\<lparr>brace_depth := depth\<rparr>])))"

definition class_decl :: "ustr \<Rightarrow> ustr option" where
  "class_decl line =
     map_option (\<lambda>m. group_str m 4)
       (Match (u ''`s*(template`s*<[`w`s<>,:]*>`s*)?(class|struct)`s+([A-Z_]+`s+)*(`w+(::`w+)*)'') line)"

definition track_classes :: "ustr \<Rightarrow> cleansed \<Rightarrow> nat \<Rightarrow> ustr \<Rightarrow> class_state \<Rightarrow> class_state chk" where
  "track_classes filename cl linenum line stack0 =
     (let stack = (case class_decl line of
                     None \<Rightarrow> stack0
                   | Some name \<Rightarrow> stack0 @ [ClassInfo name cl linenum])
      in if stack = [] then ok stack
         else
           (let info = last stack; outer = butlast stack in
            if \<not> seen_open_brace info then
              (if py_find line (u '';'') \<noteq> - 1 then ok outer
               else
                 (let info1 = info\<lparr>seen_open_brace := (py_find line (u ''{'') \<noteq> - 1),
                        is_derived := (is_derived info \<or> Searches (u ''(^|[^:]):($|[^:])'') line)\<rparr>
                  in if \<not> seen_open_brace info1 then ok (outer @ [info1])
                     else class_body_line filename linenum line outer info1))
            else class_body_line filename linenum line outer info))"

definition CheckForNonStandardConstructs ::
    "ustr \<Rightarrow> cleansed \<Rightarrow> nat \<Rightarrow> class_state \<Rightarrow> class_state chk" where
  "CheckForNonStandardConstructs filename cl linenum stack =
     bnd (lift (py_index (cl_lines cl) (int linenum))) (\<lambda>line0.
     bnd (lift (py_index (cl_elided cl) (int linenum))) (\<lambda>line.
       andthen (construct_reports filename linenum line0 line)
         (track_classes filename cl linenum line stack)))"

section \<open>What one line does to the stack\<close>

lemma total_construct_reports [simp]: "total (construct_reports f n l0 l)"
  by (simp add: construct_reports_def)

lemma total_check_virtual [simp]: "total (check_virtual f info)"
  by (simp add: check_virtual_def split: option.split)

lemma note_virtual_Ret:
  assumes "note_virtual n line info = Ret info1"
  shows "info1 = info\<lparr>virtual_method_linenumber := virtual_method_linenumber info1,
                      has_virtual_destructor := has_virtual_destructor info1\<rparr>
    \<and> virtual_method_linenumber info1 \<in> {virtual_method_linenumber info, Some n}"
  using assms by (cases "Search_name (u ''~'' @ base_classname info @ u ''`s*`('') line")
    (auto simp: note_virtual_def split: if_splits)

text \<open>\<open>same_class i j\<close>: the two records stand for one declaration.\<close>

definition same_class :: "class_info \<Rightarrow> class_info \<Rightarrow> bool" where
  "same_class i j \<longleftrightarrow> ci_name i = ci_name j \<and> ci_linenum i = ci_linenum j \<and> last_line i = last_line j"

lemma class_body_line_Ret:
  assumes "snd (class_body_line f n line outer info) = Ret st"
  shows "if brace_depth info + braces_of line \<le> 0 then st = outer
     else \<exists>info1. st = outer @ [info1] \<and> same_class info1 info
        \<and> brace_depth info1 = brace_depth info + braces_of line
        \<and> seen_open_brace info1 = seen_open_brace info
        \<and> virtual_method_linenumber info1 \<in> {virtual_method_linenumber info, Some n}"
proof -
  from assms obtain info1 where i: "note_virtual n line info = Ret info1"
    and r: "snd (let depth = brace_depth info1 + braces_of line in
       if depth \<le> 0 then andthen (check_virtual f info1) (ok outer)
       else ok (outer @ [info1\<lparr>brace_depth := depth\<rparr>])) = Ret st"
    by (auto simp: class_body_line_def snd_bnd_Ret)
  from note_virtual_Ret [OF i] have eq: "brace_depth info1 = brace_depth info"
    "ci_name info1 = ci_name info" "ci_linenum info1 = ci_linenum info" "last_line info1 = last_line info"
    "seen_open_brace info1 = seen_open_brace info"
    "virtual_method_linenumber info1 \<in> {virtual_method_linenumber info, Some n}"
    by (metis class_info.simps class_info.select_convs class_info.surjective class_info.update_convs)+
  show ?thesis using r eq by (auto simp: Let_def same_class_def split: if_splits)
qed

section \<open>The invariant of the stack\<close>

definition info_ok :: "nat \<Rightarrow> class_info \<Rightarrow> bool" where
  "info_ok n i \<longleftrightarrow> ci_linenum i < n
     \<and> (if seen_open_brace i then 0 < brace_depth i
        else brace_depth i = 0 \<and> virtual_method_linenumber i = None)
     \<and> (case virtual_method_linenumber i of None \<Rightarrow> True | Some v \<Rightarrow> ci_linenum i \<le> v \<and> v < n)"

text \<open>Before line \<open>n\<close>: each entry is sound, and the declarations nest in the order of lines.\<close>

definition stack_ok :: "nat \<Rightarrow> class_state \<Rightarrow> bool" where
  "stack_ok n st \<longleftrightarrow> list_all (info_ok n) st \<and> sorted_wrt (<) (map ci_linenum st)"

lemma info_ok_later: "info_ok n i \<Longrightarrow> info_ok (Suc n) i"
  by (auto simp: info_ok_def split: option.splits)

lemma stack_ok_snoc:
  "stack_ok n (st @ [i]) \<longleftrightarrow> stack_ok n st \<and> info_ok n i \<and> (\<forall>j \<in> set st. ci_linenum j < ci_linenum i)"
  by (auto simp: stack_ok_def sorted_wrt_append)

lemma stack_ok_later: "stack_ok n st \<Longrightarrow> stack_ok (Suc n) st"
  by (auto simp: stack_ok_def list_all_iff intro: info_ok_later)

lemma body_line_ok:
  assumes "snd (class_body_line f n line outer info) = Ret st"
    and "stack_ok n outer" "\<forall>j \<in> set outer. ci_linenum j < ci_linenum info" "ci_linenum info \<le> n"
    and "seen_open_brace info" "case virtual_method_linenumber info of None \<Rightarrow> True | Some v \<Rightarrow> ci_linenum info \<le> v \<and> v < n"
  shows "stack_ok (Suc n) st \<and> (st = outer \<or> (\<exists>i. st = outer @ [i] \<and> same_class i info))"
proof (cases "brace_depth info + braces_of line \<le> 0")
  case True
  with class_body_line_Ret [OF assms(1)] assms(2) show ?thesis by (simp add: stack_ok_later)
next
  case False
  with class_body_line_Ret [OF assms(1)] obtain i where i: "st = outer @ [i]" "same_class i info"
    "brace_depth i = brace_depth info + braces_of line" "seen_open_brace i"
    "virtual_method_linenumber i \<in> {virtual_method_linenumber info, Some n}"
    using assms(5) by auto
  have "info_ok (Suc n) i"
    using i(2-5) False assms(4,6) by (auto simp: info_ok_def same_class_def split: option.splits)
  then show ?thesis
    using i(1,2) assms(2,3) by (auto simp: stack_ok_snoc same_class_def intro: stack_ok_later)
qed

text \<open>C26: The stack of open classes, line by line. Whatever the line holds, if the check returns
  it keeps the invariant: the declarations on the stack stand on increasing lines, an entry whose
  opening brace was seen has a positive depth of braces, any other has depth zero and no virtual
  method, and the line noted for a virtual method lies inside the class. One line opens at most
  one class and closes at most one, and leaves the entries below the innermost class alone.\<close>

theorem class_stack_invariant:
  assumes "stack_ok n st"
    and "snd (CheckForNonStandardConstructs f cl n st) = Ret st'"
  shows "stack_ok (Suc n) st' \<and> length st' \<le> Suc (length st) \<and> length st \<le> Suc (length st')
     \<and> take (length st - 1) st' = butlast st"
proof -
  obtain line where "snd (track_classes f cl n line st) = Ret st'"
    using assms(2) by (auto simp: CheckForNonStandardConstructs_def snd_bnd_Ret snd_andthen_Ret)
  then show ?thesis
  proof (cases "class_decl line")
    case None
    show ?thesis
    proof (cases st rule: rev_cases)
      case Nil
      with None assms \<open>snd (track_classes f cl n line st) = Ret st'\<close> show ?thesis
        by (simp add: track_classes_def stack_ok_later)
    next
      case (snoc outer info)
      have ok: "stack_ok n outer" "info_ok n info" "\<forall>j \<in> set outer. ci_linenum j < ci_linenum info"
        using assms(1) by (simp_all add: snoc stack_ok_snoc)
      have "stack_ok (Suc n) st' \<and> (st' = outer \<or> (\<exists>i. st' = outer @ [i]))"
        using \<open>snd (track_classes f cl n line st) = Ret st'\<close> None snoc ok
        by (auto simp: track_classes_def Let_def stack_ok_later stack_ok_snoc info_ok_def
            split: if_splits option.splits dest!: body_line_ok)
      then show ?thesis using snoc by auto
    qed
  next
    case (Some name)
    let ?info = "ClassInfo name cl n"
    have "\<forall>j \<in> set st. ci_linenum j < ci_linenum ?info"
      using assms(1) by (auto simp: ClassInfo_def stack_ok_def list_all_iff info_ok_def)
    then have "stack_ok (Suc n) st' \<and> (st' = st \<or> (\<exists>i. st' = st @ [i]))"
      using \<open>snd (track_classes f cl n line st) = Ret st'\<close> Some assms(1)
      by (auto simp: track_classes_def Let_def stack_ok_later stack_ok_snoc info_ok_def ClassInfo_def
            split: if_splits option.splits dest!: body_line_ok)
    then show ?thesis by (auto simp: butlast_conv_take)
  qed
qed

text \<open>A class that is open, and the line that closes it.\<close>

definition open_class :: "int \<Rightarrow> class_info" where
  "open_class depth = \<lparr>ci_name = u ''A'', ci_linenum = 0, seen_open_brace = True, is_derived = False,
     virtual_method_linenumber = None, has_virtual_destructor = False, brace_depth = depth, last_line = 1\<rparr>"

lemma closing_a_class:
  "snd (CheckForNonStandardConstructs (u ''a.h'') (two_lines (u ''}'')) 1 [open_class 1]) = Ret []"
  by code_simp

theorem class_stack_invariant_witness:
  "stack_ok 2 [] \<and> length [open_class 1] \<le> Suc (length ([] :: class_state))"
proof -
  have "stack_ok 1 [open_class 1]" by code_simp
  from class_stack_invariant [OF this closing_a_class] show ?thesis by (simp add: numeral_2_eq_2)
qed

section \<open>The end of a class\<close>

fun run_constructs :: "ustr \<Rightarrow> cleansed \<Rightarrow> nat list \<Rightarrow> class_state \<Rightarrow> class_state chk" where
  "run_constructs f cl [] st = ok st"
| "run_constructs f cl (n # ns) st = bnd (CheckForNonStandardConstructs f cl n st) (run_constructs f cl ns)"

definition depth_after :: "cleansed \<Rightarrow> int \<Rightarrow> nat \<Rightarrow> nat \<Rightarrow> int" where
  "depth_after cl d a k = d + (\<Sum>i = a..k. braces_of (cl_elided cl ! i))"

lemma body_line_of_class:
  assumes "n < length (cl_elided cl)" "class_decl (cl_elided cl ! n) = None" "seen_open_brace info"
    and "snd (CheckForNonStandardConstructs f cl n (outer @ [info])) = Ret st"
  shows "if brace_depth info + braces_of (cl_elided cl ! n) \<le> 0 then st = outer
     else \<exists>info1. st = outer @ [info1] \<and> same_class info1 info \<and> seen_open_brace info1
        \<and> brace_depth info1 = brace_depth info + braces_of (cl_elided cl ! n)"
proof -
  have "snd (class_body_line f n (cl_elided cl ! n) outer info) = Ret st"
    using assms by (auto simp: CheckForNonStandardConstructs_def snd_bnd_Ret snd_andthen_Ret track_classes_def)
  from class_body_line_Ret [OF this] assms(3) show ?thesis by auto
qed

lemma depth_step: "a \<le> b \<Longrightarrow> depth_after cl d a b = depth_after cl (d + braces_of (cl_elided cl ! a)) (Suc a) b"
  by (simp add: depth_after_def sum.atLeast_Suc_atMost)

text \<open>C27: Where a class ends. While the innermost class is open and no other declaration begins,
  the class stays on the stack with the balance of braces counted since its own depth, until the
  first line on which this balance is no longer positive; with that line it is removed, and the
  stack is what it was below the class.\<close>

theorem class_ends_at_matching_brace:
  assumes "a \<le> b" "b < length (cl_elided cl)" "seen_open_brace info"
    and "\<forall>n. a \<le> n \<longrightarrow> n \<le> b \<longrightarrow> class_decl (cl_elided cl ! n) = None"
    and "\<forall>k. a \<le> k \<longrightarrow> k < b \<longrightarrow> 0 < depth_after cl (brace_depth info) a k"
    and "snd (run_constructs f cl [a..<Suc b] (outer @ [info])) = Ret st"
  shows "if depth_after cl (brace_depth info) a b \<le> 0 then st = outer
     else \<exists>info1. st = outer @ [info1] \<and> same_class info1 info \<and> seen_open_brace info1
        \<and> brace_depth info1 = depth_after cl (brace_depth info) a b"
  using assms
proof (induction "b - a" arbitrary: a info)
  case 0
  then have "a = b" by simp
  with 0 have "snd (CheckForNonStandardConstructs f cl b (outer @ [info])) = Ret st"
    by (simp add: snd_bnd_Ret)
  with body_line_of_class [OF _ _ _ this] 0 \<open>a = b\<close> show ?case by (simp add: depth_after_def)
next
  case (Suc d)
  then have less: "a < b" by simp
  have "[a..<Suc b] = a # [Suc a..<Suc b]" using less by (simp add: upt_conv_Cons del: upt_Suc)
  with Suc.prems(6) obtain st1 where
    s1: "snd (CheckForNonStandardConstructs f cl a (outer @ [info])) = Ret st1"
    and s2: "snd (run_constructs f cl [Suc a..<Suc b] st1) = Ret st"
    by (auto simp: snd_bnd_Ret simp del: upt_Suc)
  have "0 < brace_depth info + braces_of (cl_elided cl ! a)"
    using Suc.prems(5) less by (force simp: depth_after_def)
  with body_line_of_class [OF _ _ _ s1] Suc.prems less obtain info1 where
    i1: "st1 = outer @ [info1]" "same_class info1 info" "seen_open_brace info1"
      "brace_depth info1 = brace_depth info + braces_of (cl_elided cl ! a)"
    by (auto split: if_splits)
  have "d = b - Suc a" "Suc a \<le> b" using Suc.hyps(2) less by simp_all
  moreover have "\<forall>k. Suc a \<le> k \<longrightarrow> k < b \<longrightarrow> 0 < depth_after cl (brace_depth info1) (Suc a) k"
    using Suc.prems(5) by (simp add: i1(4) depth_step [symmetric])
  ultimately have "if depth_after cl (brace_depth info1) (Suc a) b \<le> 0 then st = outer
     else \<exists>info2. st = outer @ [info2] \<and> same_class info2 info1 \<and> seen_open_brace info2
        \<and> brace_depth info2 = depth_after cl (brace_depth info1) (Suc a) b"
    using Suc.hyps(1) [of "Suc a" info1] Suc.prems(2,4) s2 i1(1,3) by simp
  then show ?case
    using i1(2,4) less by (auto simp: depth_step [of a b] same_class_def split: if_splits)
qed

theorem class_ends_at_matching_brace_witness:
  "\<exists>st. snd (run_constructs (u ''a.h'') (two_lines (u ''}'')) [1..<Suc 1] ([] @ [open_class 1])) = Ret st \<and> st = []"
proof -
  have run: "snd (run_constructs (u ''a.h'') (two_lines (u ''}'')) [1..<Suc 1] ([] @ [open_class 1])) = Ret []"
    using closing_a_class by (simp add: snd_bnd_Ret)
  have d: "class_decl (cl_elided (two_lines (u ''}'')) ! 1) = None"
    "depth_after (two_lines (u ''}'')) (brace_depth (open_class 1)) 1 1 \<le> 0"
    by code_simp+
  have s: "seen_open_brace (open_class 1)" by (simp add: open_class_def)
  have len: "1 < length (cl_elided (two_lines (u ''}'')))" by (simp add: two_lines_def)
  have one: "\<forall>n. 1 \<le> n \<longrightarrow> n \<le> 1 \<longrightarrow> class_decl (cl_elided (two_lines (u ''}'')) ! n) = None"
    using d(1) by (metis le_antisym)
  have none: "\<forall>k. 1 \<le> k \<longrightarrow> k < 1 \<longrightarrow> 0 < depth_after (two_lines (u ''}'')) (brace_depth (open_class 1)) 1 k"
    by simp
  have "([] :: class_state) = []"
    using class_ends_at_matching_brace [OF order_refl len s one none run] d(2) by simp
  with run show ?thesis by blast
qed

end
