(* ===== verification/Functions.thy ===== *)
theory Functions
  imports Cleanse
begin

text \<open>
  The length of functions: the class \<open>_FunctionState\<close> and the check that recognises where
  a function begins and ends. The verbosity of the module is a parameter.
\<close>

section \<open>The state\<close>

record function_state =
  in_a_function :: bool
  lines_in_function :: nat
  current_function :: ustr

definition FunctionState_init :: function_state where
  "FunctionState_init = \<lparr>in_a_function = False, lines_in_function = 0, current_function = []\<rparr>"

definition NORMAL_TRIGGER :: nat where
  "NORMAL_TRIGGER = 250"

definition TEST_TRIGGER :: nat where
  "TEST_TRIGGER = 400"

definition Begin :: "ustr \<Rightarrow> function_state \<Rightarrow> function_state" where
  "Begin function_name fs =
     fs\<lparr>in_a_function := True, lines_in_function := 0, current_function := function_name\<rparr>"

definition Count :: "function_state \<Rightarrow> function_state" where
  "Count fs = (if in_a_function fs then fs\<lparr>lines_in_function := lines_in_function fs + 1\<rparr> else fs)"

definition End :: "function_state \<Rightarrow> function_state" where
  "End fs = fs\<lparr>in_a_function := False\<rparr>"

text \<open>
  \<open>int(math.log(n, 2))\<close> for a positive integer. The result is cut off at 5, and for the
  arguments below 64 that this leaves the floating point logarithm has the right whole part.
\<close>

fun log2 :: "nat \<Rightarrow> nat" where
  "log2 n = (if n < 2 then 0 else Suc (log2 (n div 2)))"

declare log2.simps [simp del]

text \<open>
  \<open>base_trigger * 2**v\<close>, an integer for \<open>v \<ge> 0\<close> and a fraction for a negative
  verbosity; the comparison with it, and its rendering with \<open>%d\<close>, which cuts the fraction.
\<close>

definition above_trigger :: "nat \<Rightarrow> nat \<Rightarrow> int \<Rightarrow> bool" where
  "above_trigger n base v =
     (if 0 \<le> v then base * 2 ^ nat v < n else base < n * 2 ^ nat (- v))"

definition trigger_shown :: "nat \<Rightarrow> int \<Rightarrow> nat" where
  "trigger_shown base v = (if 0 \<le> v then base * 2 ^ nat v else base div 2 ^ nat (- v))"

definition base_trigger :: "function_state \<Rightarrow> nat" where
  "base_trigger fs =
     (if Matches (u ''T(EST|est)'') (current_function fs) then TEST_TRIGGER else NORMAL_TRIGGER)"

text \<open>\<open>lines_in_function / base_trigger\<close> divides integers; the logarithm of zero raises.\<close>

definition Check :: "int \<Rightarrow> ustr \<Rightarrow> nat \<Rightarrow> function_state \<Rightarrow> unit chk" where
  "Check verbose filename linenum fs =
     (let base = base_trigger fs; n = lines_in_function fs in
      if above_trigger n base verbose then
        (if n div base = 0 then raise (ValueError (u ''math domain error''))
         else
           (let error_level = min 5 (log2 (n div base)) in
            error filename (int linenum) (u ''readability/fn_size'') (int error_level)
              (u ''Small and focused functions are preferred: '' @ current_function fs @ u '' has ''
               @ show_int (int n) @ u '' non-comment lines (error triggered by exceeding ''
               @ show_int (int (trigger_shown base verbose)) @ u '' lines).'')))
      else skip)"

definition IsBlankLine :: "ustr \<Rightarrow> bool" where
  "IsBlankLine line \<longleftrightarrow> line = [] \<or> isspace line"

section \<open>Where functions begin and end\<close>

text \<open>The name a line may define, when it looks like the head of a function.\<close>

definition starting_func :: "ustr \<Rightarrow> bool" where
  "starting_func line =
     (case Match (u ''(`w(`w|::|`*|`&|`s)*)`('') line of
        None \<Rightarrow> False
      | Some m \<Rightarrow>
          (let function_name = last (py_words (group_str m 1)) in
           function_name = u ''TEST'' \<or> function_name = u ''TEST_F''
           \<or> \<not> Matches (u ''[A-Z_]+$'') function_name))"

datatype body = NoBody | Declaration | Body ustr

definition function_name :: "ustr \<Rightarrow> ustr \<Rightarrow> ustr" where
  "function_name line joined_line =
     (let fn = (case Search (u ''((`w|:)*)`('') line of Some m \<Rightarrow> group_str m 1 | None \<Rightarrow> [])
      in if Matches (u ''TEST'') fn then
           (case Search (u ''(`(.*`))'') joined_line of
              Some m \<Rightarrow> fn @ group_str m 1
            | None \<Rightarrow> fn)
         else fn @ u ''()'')"

text \<open>The lines from the one that looks like a head, until one decides.\<close>

fun find_body :: "ustr \<Rightarrow> ustr list \<Rightarrow> ustr \<Rightarrow> body" where
  "find_body line [] joined_line = NoBody"
| "find_body line (start_line # rest) joined_line =
     (let joined = joined_line @ u '' '' @ py_lstrip start_line in
      if Searches (u ''(;|})'') start_line then Declaration
      else if Searches (u ''{'') start_line then Body (function_name line joined)
      else find_body line rest joined)"

definition CheckForFunctionLengths ::
    "int \<Rightarrow> ustr \<Rightarrow> cleansed \<Rightarrow> nat \<Rightarrow> function_state \<Rightarrow> function_state chk" where
  "CheckForFunctionLengths verbose filename cl linenum fs =
     bnd (lift (py_index (cl_lines cl) (int linenum))) (\<lambda>line.
     bnd (lift (py_index (cl_raw cl) (int linenum))) (\<lambda>raw_line.
       if starting_func line then
         (case find_body line (drop linenum (take (NumLines cl) (cl_lines cl))) [] of
            NoBody \<Rightarrow>
              andthen
                (error filename (int linenum) (u ''readability/fn_size'') 5
                   (u ''Lint failed to find start of function body.''))
                (ok fs)
          | Declaration \<Rightarrow> ok fs
          | Body fn \<Rightarrow> ok (Begin fn fs))
       else if Matches (u ''^`}`s*$'') line then
         andthen (Check verbose filename linenum fs) (ok (End fs))
       else if \<not> Matches (u ''^`s*$'') line then ok (Count fs)
       else ok fs))"

section \<open>The level of a report\<close>

lemma log2_bounds: "0 < n \<Longrightarrow> 2 ^ log2 n \<le> n \<and> n < 2 ^ Suc (log2 n)"
proof (induction n rule: log2.induct)
  case (1 n)
  show ?case
  proof (cases "n < 2")
    case True
    with 1(2) show ?thesis by (subst (1 2) log2.simps) simp
  next
    case False
    then have "2 ^ log2 (n div 2) \<le> n div 2" "n div 2 < 2 ^ Suc (log2 (n div 2))"
      using 1(1) [OF False] by simp_all
    moreover have "log2 n = Suc (log2 (n div 2))" using False by (subst log2.simps) simp
    moreover have "n = 2 * (n div 2) + n mod 2" "n mod 2 < 2" by simp_all
    ultimately show ?thesis unfolding \<open>log2 n = Suc (log2 (n div 2))\<close> power_Suc by linarith
  qed
qed

lemma log2_ge: "2 ^ k \<le> n \<Longrightarrow> k \<le> log2 n"
proof (rule ccontr)
  assume a: "2 ^ k \<le> n" "\<not> k \<le> log2 n"
  have "0 < n" using a(1) by (metis gr0I le_zero_eq power_not_zero zero_neq_numeral)
  then have "n < 2 ^ Suc (log2 n)" using log2_bounds by blast
  also have "(2 :: nat) ^ Suc (log2 n) \<le> 2 ^ k" using a(2) by (intro power_increasing) auto
  finally show False using a(1) by simp
qed

lemma base_trigger_pos: "0 < base_trigger fs"
  by (simp add: base_trigger_def TEST_TRIGGER_def NORMAL_TRIGGER_def)


definition long_function :: "nat \<Rightarrow> function_state" where
  "long_function n = \<lparr>in_a_function = True, lines_in_function = n, current_function = u ''f()''\<rparr>"


section \<open>The lines of a body\<close>

text \<open>Checking the lines of a range one after the other.\<close>

fun check_lengths ::
    "int \<Rightarrow> ustr \<Rightarrow> cleansed \<Rightarrow> nat list \<Rightarrow> function_state \<Rightarrow> function_state chk" where
  "check_lengths verbose f cl [] fs = ok fs"
| "check_lengths verbose f cl (n # ns) fs =
     bnd (CheckForFunctionLengths verbose f cl n fs) (check_lengths verbose f cl ns)"

definition closing_line :: "ustr \<Rightarrow> bool" where
  "closing_line line \<longleftrightarrow> Matches (u ''^`}`s*$'') line"

definition blank_line :: "ustr \<Rightarrow> bool" where
  "blank_line line \<longleftrightarrow> Matches (u ''^`s*$'') line"

definition plain_line :: "ustr \<Rightarrow> bool" where
  "plain_line line \<longleftrightarrow> \<not> starting_func line \<and> \<not> closing_line line"

lemma check_plain:
  assumes "n < length (cl_lines cl)" "n < length (cl_raw cl)" "plain_line (cl_lines cl ! n)"
  shows "CheckForFunctionLengths verbose f cl n fs = ok (if blank_line (cl_lines cl ! n) then fs else Count fs)"
  using assms
  by (simp add: CheckForFunctionLengths_def lift_def bnd_def ok_def plain_line_def closing_line_def blank_line_def)

lemma check_plain_lines:
  assumes "\<forall>n \<in> set ns. n < length (cl_lines cl) \<and> n < length (cl_raw cl) \<and> plain_line (cl_lines cl ! n)"
    and "in_a_function fs"
  shows "check_lengths verbose f cl ns fs =
     ok (fs\<lparr>lines_in_function := lines_in_function fs
            + length (filter (\<lambda>n. \<not> blank_line (cl_lines cl ! n)) ns)\<rparr>)"
  using assms
proof (induction ns arbitrary: fs)
  case Nil
  then show ?case by simp
next
  case (Cons n ns)
  let ?fs = "if blank_line (cl_lines cl ! n) then fs else Count fs"
  have "check_lengths verbose f cl (n # ns) fs = check_lengths verbose f cl ns ?fs"
    using Cons.prems by (simp add: check_plain)
  moreover have "in_a_function ?fs" using Cons.prems(2) by (simp add: Count_def)
  ultimately show ?case using Cons by (auto simp: Count_def)
qed

text \<open>C25: The length of a function, from its head to its end. When line \<open>a\<close> begins the
  body of a function, line \<open>b\<close> is a closing brace at the margin and the lines between are
  neither, then checking these lines gives exactly the report for the number of lines between
  them that are not blank, and leaves the function.\<close>

theorem function_is_measured:
  assumes "a < b" "b < length (cl_lines cl)" "b < length (cl_raw cl)"
    and "starting_func (cl_lines cl ! a)"
    and "find_body (cl_lines cl ! a) (drop a (take (NumLines cl) (cl_lines cl))) [] = Body name"
    and "\<forall>n. a < n \<longrightarrow> n < b \<longrightarrow> plain_line (cl_lines cl ! n)"
    and "closing_line (cl_lines cl ! b)" "\<not> starting_func (cl_lines cl ! b)"
  defines "nonblank \<equiv> length (filter (\<lambda>n. \<not> blank_line (cl_lines cl ! n)) [Suc a..<b])"
  shows "check_lengths verbose f cl [a..<Suc b] fs =
     andthen (Check verbose f b \<lparr>in_a_function = True, lines_in_function = nonblank, current_function = name\<rparr>)
       (ok \<lparr>in_a_function = False, lines_in_function = nonblank, current_function = name\<rparr>)"
proof -
  have split: "[a..<Suc b] = a # [Suc a..<b] @ [b]"
    using assms(1) by (simp add: upt_conv_Cons)
  have app: "check_lengths verbose f cl (xs @ ys) s =
      bnd (check_lengths verbose f cl xs s) (check_lengths verbose f cl ys)" for xs ys s
  proof (induction xs arbitrary: s)
    case Nil
    show ?case by simp
  next
    case (Cons x xs)
    then have "check_lengths verbose f cl (xs @ ys) =
        (\<lambda>s. bnd (check_lengths verbose f cl xs s) (check_lengths verbose f cl ys))" by blast
    then show ?case by (simp add: bnd_assoc)
  qed
  have head: "CheckForFunctionLengths verbose f cl a fs = ok (Begin name fs)"
    using assms(1-5) by (simp add: CheckForFunctionLengths_def lift_def bnd_def ok_def)
  have body: "check_lengths verbose f cl [Suc a..<b] (Begin name fs) =
      ok ((Begin name fs)\<lparr>lines_in_function := 0 + nonblank\<rparr>)"
    unfolding nonblank_def using assms(1-3,6)
    by (subst check_plain_lines) (auto simp: Begin_def)
  have "CheckForFunctionLengths verbose f cl b s = andthen (Check verbose f b s) (ok (End s))" for s
    using assms(2,3,7,8) by (simp add: CheckForFunctionLengths_def lift_def bnd_def ok_def closing_line_def)
  moreover have "Begin name fs = \<lparr>in_a_function = True, lines_in_function = 0, current_function = name\<rparr>"
    by (cases fs) (simp add: Begin_def)
  ultimately show ?thesis
    unfolding split using head body
    by (simp add: app End_def andthen_def bnd_assoc)
qed

definition short_file :: cleansed where
  "short_file = (let ls = [u ''f() {'', u ''x'', [], u ''}''] in
     \<lparr>cl_elided = ls, cl_lines = ls, cl_raw = ls, cl_num = 4\<rparr>)"

theorem function_is_measured_witness:
  "check_lengths 1 (u ''a.c'') short_file [0..<4] FunctionState_init =
     ([], Ret \<lparr>in_a_function = False, lines_in_function = 1, current_function = u ''f()''\<rparr>)"
proof -
  have p: "0 < (3 :: nat)" "3 < length (cl_lines short_file)" "3 < length (cl_raw short_file)"
    "starting_func (cl_lines short_file ! 0)"
    "find_body (cl_lines short_file ! 0) (drop 0 (take (NumLines short_file) (cl_lines short_file))) [] = Body (u ''f()'')"
    "closing_line (cl_lines short_file ! 3)" "\<not> starting_func (cl_lines short_file ! 3)"
    by code_simp+
  have "plain_line (cl_lines short_file ! 1)" "plain_line (cl_lines short_file ! 2)" by code_simp+
  then have q: "\<forall>n. 0 < n \<longrightarrow> n < 3 \<longrightarrow> plain_line (cl_lines short_file ! n)"
    by (auto simp: numeral_3_eq_3 less_Suc_eq numeral_2_eq_2)
  have "length (filter (\<lambda>n. \<not> blank_line (cl_lines short_file ! n)) [Suc 0..<3]) = 1"
    "Check 1 (u ''a.c'') 3 \<lparr>in_a_function = True, lines_in_function = 1, current_function = u ''f()''\<rparr> = skip"
    "[0..<4] = [0..<Suc 3]"
    by code_simp+
  then show ?thesis
    using function_is_measured [OF p(1-5) q p(6,7), of 1 "u ''a.c''" FunctionState_init]
    by (simp add: ok_def del: upt_Suc)
qed

end
