(* ===== verification/Spacing.thy ===== *)
theory Spacing
  imports Classes Functions
begin

text \<open>
  The checks of white space on a line: around function calls, in comments, around operators,
  parentheses, commas, semicolons and braces, and the blank lines at the borders of blocks and
  before the sections of a class.
\<close>

section \<open>Function calls\<close>

text \<open>The inside of the first control structure that matches, or the whole line.\<close>

fun inside_control :: "ustr list \<Rightarrow> ustr \<Rightarrow> ustr" where
  "inside_control [] line = line"
| "inside_control (pattern # patterns) line =
     (case Search pattern line of
        Some m \<Rightarrow> group_str m 1
      | None \<Rightarrow> inside_control patterns line)"

definition CheckSpacingForFunctionCall :: "ustr \<Rightarrow> ustr \<Rightarrow> nat \<Rightarrow> unit chk" where
  "CheckSpacingForFunctionCall filename line linenum =
     (let fncall = inside_control
            [u ''`bif`s*`((.*)`)`s*{'', u ''`bfor`s*`((.*)`)`s*{'',
             u ''`bwhile`s*`((.*)`)`s*[{;]'', u ''`bswitch`s*`((.*)`)`s*{''] line
      in
      guard (\<not> Searches (u ''`b(if|for|while|switch|return|delete)`b'') fncall
             \<and> \<not> Searches (u '' `([^)]+`)`([^)]*(`)|,$)'') fncall
             \<and> \<not> Searches (u '' `([^)]+`)`[[^`]]+`]'') fncall)
        (in_order
          [if Searches (u ''`w`s*`(`s(?!`s*``$)'') fncall then
             error filename (int linenum) (u ''whitespace/parens'') 4
               (u ''Extra space after ( in function call'')
           else
             guard (Searches (u ''`(`s+(?!(`s*``)|`()'') fncall)
               (error filename (int linenum) (u ''whitespace/parens'') 2 (u ''Extra space after ('')),
           guard (Searches (u ''`w`s+`('') fncall \<and> \<not> Searches (u ''#`s*define|typedef'') fncall)
             (error filename (int linenum) (u ''whitespace/parens'') 4
                (u ''Extra space before ( in function call'')),
           guard (Searches (u ''[^)]`s+`)`s*[^{`s]'') fncall)
             (if Searches (u ''^`s+`)'') fncall then
                error filename (int linenum) (u ''whitespace/parens'') 2
                  (u ''Closing ) should be moved to the previous line'')
              else
                error filename (int linenum) (u ''whitespace/parens'') 2
                  (u ''Extra space before )''))]))"

section \<open>Comments\<close>

definition RE_PATTERN_TODO :: ustr where
  "RE_PATTERN_TODO = u ''^//(`s*)TODO(`(.+?`))?:?(`s|$)?''"

text \<open>A group that took no part in the match is None, which differs from every string.\<close>

definition CheckComment :: "ustr \<Rightarrow> ustr \<Rightarrow> nat \<Rightarrow> unit chk" where
  "CheckComment comment filename linenum =
     (case Match RE_PATTERN_TODO comment of
        None \<Rightarrow> skip
      | Some m \<Rightarrow>
          in_order
            [guard (1 < length (group_str m 1))
               (error filename (int linenum) (u ''whitespace/todo'') 2 (u ''Too many spaces before TODO'')),
             guard (group m 2 = None \<or> group m 2 = Some [])
               (error filename (int linenum) (u ''readability/todo'') 2
                  (u ''Missing username in TODO; it should look like \"// TODO(my_username): Stuff.\"'')),
             guard (group m 3 \<noteq> Some (u '' '') \<and> group m 3 \<noteq> Some [])
               (error filename (int linenum) (u ''whitespace/todo'') 2
                  (u ''TODO(my_username) should be followed by a space''))])"

text \<open>The column of the comment is outside of quotes.\<close>

definition comment_unquoted :: "ustr \<Rightarrow> int \<Rightarrow> bool" where
  "comment_unquoted line commentpos \<longleftrightarrow>
     (int (py_count (slice_to line commentpos) (u ''\"''))
      - int (py_count (slice_to line commentpos) (u ''`\"''))) mod 2 = 0"

definition check_comment_spacing :: "ustr \<Rightarrow> nat \<Rightarrow> ustr \<Rightarrow> unit chk" where
  "check_comment_spacing filename linenum line =
     (let commentpos = py_find line (u ''//'') in
      guard (commentpos \<noteq> - 1 \<and> comment_unquoted line commentpos)
        (in_order
          [guard (\<not> Matches (u ''^`s*{ //'') line
               \<and> (1 \<le> commentpos \<and> \<not> is_space (line ! nat (commentpos - 1))
                  \<or> 2 \<le> commentpos \<and> \<not> is_space (line ! nat (commentpos - 2))))
             (error filename (int linenum) (u ''whitespace/comments'') 2
                (u ''At least two spaces is best between code and comments'')),
           (let commentend = commentpos + 2; text = slice_from line commentend in
            guard (commentend < int (length line) \<and> line ! nat commentend \<noteq> 32
                \<and> \<not> (Searches (u ''[=/-]{4,}`s*$'') text \<or> Searches (u ''^/$'') text
                     \<or> Searches (u ''^/+ '') text))
              (error filename (int linenum) (u ''whitespace/comments'') 4
                 (u ''Should have a space between // and comment''))),
           CheckComment (slice_from line commentpos) filename linenum]))"

section \<open>Blank lines\<close>

text \<open>The lines of an initializer list above a blank line, going up from a line.\<close>

fun initializer_top :: "cleansed \<Rightarrow> nat \<Rightarrow> int" where
  "initializer_top cl 0 = - 1"
| "initializer_top cl (Suc k) =
     (if Matches (u '' {6}`w'') (cl_elided cl ! k) then initializer_top cl k else int k)"

definition block_exception :: "cleansed \<Rightarrow> nat \<Rightarrow> ustr \<Rightarrow> bool" where
  "block_exception cl linenum prev_line \<longleftrightarrow>
     (if Matches (u '' {6}`w'') prev_line then
        (let search_position = initializer_top cl (linenum - 1)
         in 0 \<le> search_position
            \<and> slice_to (cl_elided cl ! nat search_position) 5 = u ''    :'')
      else
        Matches (u '' {4}`w[^`(]*`)`s*(const`s*)?(`{`s*$|:)'') prev_line
        \<or> Matches (u '' {4}:'') prev_line)"

definition check_blank_line :: "ustr \<Rightarrow> cleansed \<Rightarrow> nat \<Rightarrow> unit chk" where
  "check_blank_line filename cl linenum =
     bnd (lift (py_index (cl_elided cl) (int linenum - 1))) (\<lambda>prev_line.
     let prevbrace = py_rfind prev_line (u ''{'') in
     in_order
       [guard (prevbrace \<noteq> - 1 \<and> py_find (slice_from prev_line prevbrace) (u ''}'') = - 1
            \<and> py_find (slice_to prev_line prevbrace) (u ''namespace'') = - 1
            \<and> \<not> block_exception cl linenum prev_line)
          (error filename (int linenum) (u ''whitespace/blank_line'') 2
             (u ''Blank line at the start of a code block.  Is this needed?'')),
        guard (linenum + 1 < NumLines cl)
          (bnd (lift (py_index (cl_raw cl) (int (linenum + 1)))) (\<lambda>next_line.
            guard (next_line \<noteq> [] \<and> Matches (u ''`s*}'') next_line
                \<and> py_find next_line (u ''namespace'') = - 1
                \<and> py_find next_line (u ''} else '') = - 1)
              (error filename (int linenum) (u ''whitespace/blank_line'') 3
                 (u ''Blank line at the end of a code block.  Is this needed?'')))),
        (case Match (u ''`s*(public|protected|private):'') prev_line of
           None \<Rightarrow> skip
         | Some m \<Rightarrow>
             error filename (int linenum) (u ''whitespace/blank_line'') 3
               (u ''Do not leave a blank line after \"'' @ group_str m 1 @ u '':\"''))])"

section \<open>Operators, parentheses and the rest\<close>

definition check_operators :: "ustr \<Rightarrow> nat \<Rightarrow> ustr \<Rightarrow> unit chk" where
  "check_operators filename linenum line =
     in_order
       [guard (Searches (u ''[`w.]=[`w.]'') line \<and> \<not> Searches (u ''`b(if|while) '') line)
          (error filename (int linenum) (u ''whitespace/operators'') 4
             (u ''Missing spaces around =''))
       ,let found = (case Search (u ''[^<>=!`s](==|!=|<=|>=)[^<>=!`s]'') line of
              Some m \<Rightarrow> Some m
            | None \<Rightarrow>
                if \<not> Searches (u ''<[^<]*,`s*$'') line
                then Search (u ''[^<>=!`s](<)[^<>=!`s]([^>]|->)*$'') line else None)
        in (case found of
              None \<Rightarrow> skip
            | Some m \<Rightarrow>
                error filename (int linenum) (u ''whitespace/operators'') 3
                  (u ''Missing spaces around '' @ group_str m 1))
       ,case Search (u ''[^0-9`s](<<|>>)[^0-9`s]'') line of
          None \<Rightarrow> skip
        | Some m \<Rightarrow>
            error filename (int linenum) (u ''whitespace/operators'') 3
              (u ''Missing spaces around '' @ group_str m 1)
       ,case Search (u ''(!`s|~`s|[`s]--[`s;]|[`s]`+`+[`s;])'') line of
          None \<Rightarrow> skip
        | Some m \<Rightarrow>
            error filename (int linenum) (u ''whitespace/operators'') 4
              (u ''Extra space for operator '' @ group_str m 1)]"

definition check_control_parens :: "ustr \<Rightarrow> nat \<Rightarrow> ustr \<Rightarrow> unit chk" where
  "check_control_parens filename linenum line =
     in_order
       [case Search (u '' (if`(|for`(|while`(|switch`()'') line of
          None \<Rightarrow> skip
        | Some m \<Rightarrow>
            error filename (int linenum) (u ''whitespace/parens'') 5
              (u ''Missing space before ( in '' @ group_str m 1)
       ,case Search (u ''`b(if|for|while|switch)`s*`(([ ]*)(.).*[^ ]+([ ]*)`)`s*{`s*$'') line of
          None \<Rightarrow> skip
        | Some m \<Rightarrow>
            (let l2 = length (group_str m 2); l4 = length (group_str m 4) in
             in_order
               [guard (l2 \<noteq> l4
                    \<and> \<not> (group_str m 3 = u '';'' \<and> l2 = 1 + l4
                         \<or> group_str m 2 = [] \<and> Searches (u ''`bfor`s*`(.*; `)'') line))
                  (error filename (int linenum) (u ''whitespace/parens'') 5
                     (u ''Mismatching spaces inside () in '' @ group_str m 1)),
                guard (l2 \<noteq> 0 \<and> l2 \<noteq> 1)
                  (error filename (int linenum) (u ''whitespace/parens'') 5
                     (u ''Should have zero or one spaces inside ( and ) in '' @ group_str m 1))])]"

definition check_punctuation :: "ustr \<Rightarrow> nat \<Rightarrow> ustr \<Rightarrow> unit chk" where
  "check_punctuation filename linenum line =
     in_order
       [guard (Searches (u '',[^`s]'') line)
          (error filename (int linenum) (u ''whitespace/comma'') 3 (u ''Missing space after ,'')),
        guard (Searches (u '';[^`s};``)/]'') line)
          (error filename (int linenum) (u ''whitespace/semicolon'') 3 (u ''Missing space after ;'')),
        CheckSpacingForFunctionCall filename line linenum,
        guard (Searches (u ''[^ ({]{'') line)
          (error filename (int linenum) (u ''whitespace/braces'') 5 (u ''Missing space before {'')),
        guard (Searches (u ''}else'') line)
          (error filename (int linenum) (u ''whitespace/braces'') 5 (u ''Missing space before else'')),
        guard (Searches (u ''`w`s+`['') line \<and> \<not> Searches (u ''delete`s+`['') line)
          (error filename (int linenum) (u ''whitespace/braces'') 5 (u ''Extra space before ['')),
        (if Searches (u '':`s*;`s*$'') line then
           error filename (int linenum) (u ''whitespace/semicolon'') 5
             (u ''Semicolon defining empty statement. Use { } instead.'')
         else if Searches (u ''^`s*;`s*$'') line then
           error filename (int linenum) (u ''whitespace/semicolon'') 5
             (u ''Line contains only semicolon. If this should be an empty statement, use { } instead.'')
         else
           guard (Searches (u ''`s+;`s*$'') line \<and> \<not> Searches (u ''`bfor`b'') line)
             (error filename (int linenum) (u ''whitespace/semicolon'') 5
                (u ''Extra space before last semicolon. If this should be an empty statement, use { } instead.'')))]"

definition CheckSpacing :: "ustr \<Rightarrow> cleansed \<Rightarrow> nat \<Rightarrow> unit chk" where
  "CheckSpacing filename cl linenum =
     bnd (lift (py_index (cl_raw cl) (int linenum))) (\<lambda>raw_line.
     bnd (guard (IsBlankLine raw_line) (check_blank_line filename cl linenum)) (\<lambda>_.
     bnd (check_comment_spacing filename linenum raw_line) (\<lambda>_.
     bnd (lift (py_index (cl_elided cl) (int linenum))) (\<lambda>elided.
       let line = Sub (u ''operator(==|!=|<|<<|<=|>=|>>|>)`('') (u ''operator`('') elided in
       in_order
         [check_operators filename linenum line,
          check_control_parens filename linenum line,
          check_punctuation filename linenum line]))))"

section \<open>The sections of a class\<close>

definition CheckSectionSpacing :: "ustr \<Rightarrow> cleansed \<Rightarrow> class_info \<Rightarrow> nat \<Rightarrow> unit chk" where
  "CheckSectionSpacing filename cl info linenum =
     (if int (last_line info) - int (ci_linenum info) \<le> 24 \<or> linenum \<le> ci_linenum info then skip
      else
        bnd (lift (py_index (cl_lines cl) (int linenum))) (\<lambda>line.
          case Match (u ''`s*(public|protected|private):'') line of
            None \<Rightarrow> skip
          | Some m \<Rightarrow>
              bnd (lift (py_index (cl_lines cl) (int linenum - 1))) (\<lambda>prev_line.
                guard (\<not> IsBlankLine prev_line \<and> \<not> Searches (u ''`b(class|struct)`b'') prev_line)
                  (let end_class_head =
                         (case find (\<lambda>i. Searches (u ''`{`s*$'') (cl_lines cl ! i))
                                 [ci_linenum info..<linenum] of
                            Some i \<Rightarrow> i | None \<Rightarrow> ci_linenum info)
                   in guard (end_class_head + 1 < linenum)
                        (error filename (int linenum) (u ''whitespace/blank_line'') 3
                           (u ''\"'' @ group_str m 1 @ u '':\" should be preceded by a blank line''))))))"

text \<open>Every pattern the checks above use is well formed.\<close>

lemma spacing_patterns_compile:
  "list_all (\<lambda>p. compile (u p) \<noteq> None)
    [''`b(if|for|while|switch|return|delete)`b'',
     '' `([^)]+`)`([^)]*(`)|,$)'',
     '' `([^)]+`)`[[^`]]+`]'',
     ''`w`s*`(`s(?!`s*``$)'',
     ''`(`s+(?!(`s*``)|`()'',
     ''`w`s+`('',
     ''#`s*define|typedef'',
     ''[^)]`s+`)`s*[^{`s]'',
     ''^`s+`)'',
     ''^`s*{ //'',
     ''[=/-]{4,}`s*$'',
     ''^/$'',
     ''^/+ '',
     '' {6}`w'',
     '' {4}`w[^`(]*`)`s*(const`s*)?(`{`s*$|:)'',
     '' {4}:'',
     ''`s*}'',
     ''`s*(public|protected|private):'',
     ''[`w.]=[`w.]'',
     ''`b(if|while) '',
     ''[^<>=!`s](==|!=|<=|>=)[^<>=!`s]'',
     ''<[^<]*,`s*$'',
     ''[^<>=!`s](<)[^<>=!`s]([^>]|->)*$'',
     ''[^0-9`s](<<|>>)[^0-9`s]'',
     ''(!`s|~`s|[`s]--[`s;]|[`s]`+`+[`s;])'',
     '' (if`(|for`(|while`(|switch`()'',
     ''`b(if|for|while|switch)`s*`(([ ]*)(.).*[^ ]+([ ]*)`)`s*{`s*$'',
     ''`bfor`s*`(.*; `)'',
     '',[^`s]'',
     '';[^`s};``)/]'',
     ''[^ ({]{'',
     ''}else'',
     ''`w`s+`['',
     ''delete`s+`['',
     '':`s*;`s*$'',
     ''^`s*;`s*$'',
     ''`s+;`s*$'',
     ''`bfor`b'',
     ''operator(==|!=|<|<<|<=|>=|>>|>)`('',
     ''`b(class|struct)`b'',
     ''`{`s*$'']"
  by code_simp

end
