(* ===== verification/Style.thy ===== *)
theory Style
  imports Spacing FileInfo
begin

text \<open>
  The style checks of a line: where braces stand, which \<open>CHECK\<close> macro is used, the width of
  the line, tabs, indentation and labels; and \<open>CheckStyle\<close>, which calls them together with
  the checks of white space.
\<close>

section \<open>Braces\<close>

text \<open>The nearest line above \<open>linenum\<close> that is not blank, with its number.\<close>

fun previous_from :: "ustr list \<Rightarrow> nat \<Rightarrow> ustr \<times> int" where
  "previous_from elided 0 = ([], - 1)"
| "previous_from elided (Suc prevlinenum) =
     (if \<not> IsBlankLine (elided ! prevlinenum) then (elided ! prevlinenum, int prevlinenum)
      else previous_from elided prevlinenum)"

definition GetPreviousNonBlankLine :: "cleansed \<Rightarrow> int \<Rightarrow> ustr \<times> int" where
  "GetPreviousNonBlankLine cl linenum = previous_from (cl_elided cl) (nat linenum)"

definition brace_starts_line :: "ustr \<Rightarrow> cleansed \<Rightarrow> nat \<Rightarrow> ustr \<Rightarrow> unit chk" where
  "brace_starts_line filename cl linenum line =
     guard (Matches (u ''`s*{`s*$'') line)
       (let prevline = fst (GetPreviousNonBlankLine cl (int linenum)) in
        guard (\<not> Searches (u ''[;:}{]`s*$'') prevline)
          (error filename (int linenum) (u ''whitespace/braces'') 4
             (u ''{ should almost always be at the end of the previous line'')))"

definition else_after_brace :: "ustr \<Rightarrow> cleansed \<Rightarrow> nat \<Rightarrow> ustr \<Rightarrow> unit chk" where
  "else_after_brace filename cl linenum line =
     guard (Matches (u ''`s*else`s*'') line)
       (let prevline = fst (GetPreviousNonBlankLine cl (int linenum)) in
        guard (Matches (u ''`s*}`s*$'') prevline)
          (error filename (int linenum) (u ''whitespace/newline'') 4
             (u ''An else should appear on the same line as the preceding }'')))"

definition else_one_brace :: "ustr \<Rightarrow> nat \<Rightarrow> unit chk" where
  "else_one_brace filename linenum =
     error filename (int linenum) (u ''readability/braces'') 5
       (u ''If an else has a brace on one side, it should have it on both'')"

definition else_braces :: "ustr \<Rightarrow> cleansed \<Rightarrow> nat \<Rightarrow> ustr \<Rightarrow> unit chk" where
  "else_braces filename cl linenum line =
     guard (Searches (u ''}`s*else[^{]*$'') line \<or> Matches (u ''[^}]*else`s*{'') line)
       (if Searches (u ''}`s*else if([^{]*)$'') line then
          (let pos = py_find_start line (u ''('') (py_find line (u ''else if'')) in
           guard (0 < pos)
             (bnd (lift (CloseExpression cl linenum pos)) (\<lambda>(endline, _, endpos).
                guard (py_find (slice_from endline endpos) (u ''{'') = - 1)
                  (else_one_brace filename linenum))))
        else else_one_brace filename linenum)"

definition one_line_clauses :: "ustr \<Rightarrow> nat \<Rightarrow> ustr \<Rightarrow> unit chk" where
  "one_line_clauses filename linenum line =
     in_order
       [guard (Searches (u ''`belse [^`s{]'') line \<and> \<not> Searches (u ''`belse if`b'') line)
          (error filename (int linenum) (u ''whitespace/newline'') 4
             (u ''Else clause should never be on same line as else (use 2 lines)'')),
        guard (Matches (u ''`s*do [^`s{]'') line)
          (error filename (int linenum) (u ''whitespace/newline'') 4
             (u ''do/while clauses should not be on a single line''))]"

text \<open>
  The loop that puts the lines above in front of a line. It is left only when the line
  stops matching or the line above holds a semicolon; above the first line it is given the
  empty string, again and again.
\<close>

definition keeps_joining :: "ustr \<Rightarrow> ustr \<Rightarrow> bool" where
  "keeps_joining prevline line \<longleftrightarrow>
     Matches (u ''`s+{.*}`s*;'') line \<and> py_count prevline (u '';'') = 0"

partial_function (option) join_previous :: "cleansed \<Rightarrow> int \<Rightarrow> ustr \<Rightarrow> ustr option" where
  "join_previous cl prevlinenum line =
     (let (prevline, prevlinenum') = GetPreviousNonBlankLine cl prevlinenum in
      if keeps_joining prevline line then join_previous cl prevlinenum' (prevline @ line)
      else Some line)"

declare join_previous.simps [code]

definition brace_semicolon :: "ustr \<Rightarrow> cleansed \<Rightarrow> nat \<Rightarrow> ustr \<Rightarrow> unit chk" where
  "brace_semicolon filename cl linenum line0 =
     bnd (lift (case join_previous cl (int linenum) line0 of
            Some line \<Rightarrow> Ret line | None \<Rightarrow> Diverge)) (\<lambda>line.
       guard (Searches (u ''{.*}`s*;'') line
            \<and> py_count line (u ''{'') = py_count line (u ''}'')
            \<and> \<not> Searches (u ''struct|class|enum|`s*=`s*{'') line)
         (error filename (int linenum) (u ''readability/braces'') 4
            (u ''You don@t need a ; after a }'')))"

definition CheckBraces :: "ustr \<Rightarrow> cleansed \<Rightarrow> nat \<Rightarrow> unit chk" where
  "CheckBraces filename cl linenum =
     bnd (lift (py_index (cl_elided cl) (int linenum))) (\<lambda>line.
       in_order
         [brace_starts_line filename cl linenum line,
          else_after_brace filename cl linenum line,
          else_braces filename cl linenum line,
          one_line_clauses filename linenum line,
          brace_semicolon filename cl linenum line])"

section \<open>The CHECK macros\<close>

definition CHECK_MACROS :: "ustr list" where
  "CHECK_MACROS = map u
     [''DCHECK'', ''CHECK'', ''EXPECT_TRUE_M'', ''EXPECT_TRUE'', ''ASSERT_TRUE_M'', ''ASSERT_TRUE'',
      ''EXPECT_FALSE_M'', ''EXPECT_FALSE'', ''ASSERT_FALSE_M'', ''ASSERT_FALSE'']"

definition replacements :: "(ustr \<times> ustr) list" where
  "replacements = map (\<lambda>(a, b). (u a, u b))
     [(''=='', ''EQ''), (''!='', ''NE''), (''>='', ''GE''), (''>'', ''GT''), (''<='', ''LE''), (''<'', ''LT'')]"

definition inv_replacements :: "(ustr \<times> ustr) list" where
  "inv_replacements = map (\<lambda>(a, b). (u a, u b))
     [(''=='', ''NE''), (''!='', ''EQ''), (''>='', ''LT''), (''>'', ''LE''), (''<='', ''GT''), (''<'', ''GE'')]"

text \<open>The templates the two loops fill, \<open>pre ^ replacement ^ post\<close>.\<close>

definition true_templates :: "(ustr \<times> ustr \<times> ustr) list" where
  "true_templates = map (\<lambda>(m, a, b). (u m, u a, u b))
     [(''DCHECK'', ''DCHECK_'', ''''), (''CHECK'', ''CHECK_'', ''''),
      (''EXPECT_TRUE'', ''EXPECT_'', ''''), (''ASSERT_TRUE'', ''ASSERT_'', ''''),
      (''EXPECT_TRUE_M'', ''EXPECT_'', ''_M''), (''ASSERT_TRUE_M'', ''ASSERT_'', ''_M'')]"

definition false_templates :: "(ustr \<times> ustr \<times> ustr) list" where
  "false_templates = map (\<lambda>(m, a, b). (u m, u a, u b))
     [(''EXPECT_FALSE'', ''EXPECT_'', ''''), (''ASSERT_FALSE'', ''ASSERT_'', ''''),
      (''EXPECT_FALSE_M'', ''EXPECT_'', ''_M''), (''ASSERT_FALSE_M'', ''ASSERT_'', ''_M'')]"

definition fill :: "(ustr \<times> ustr) list \<Rightarrow> (ustr \<times> ustr \<times> ustr) list \<Rightarrow> ((ustr \<times> ustr) \<times> ustr) list" where
  "fill ops templates =
     concat (map (\<lambda>(operator, repl). map (\<lambda>(macro, pre, post).
        ((macro, operator), pre @ repl @ post)) templates) ops)"

definition CHECK_REPLACEMENT :: "ustr \<Rightarrow> ustr \<Rightarrow> ustr option" where
  "CHECK_REPLACEMENT macro operator =
     map_of (fill replacements true_templates @ fill inv_replacements false_templates) (macro, operator)"

definition match_constant :: ustr where
  "match_constant = u ''([-+]?(`d+|0[xX][0-9a-fA-F]+)[lLuU]{0,3}|\".*\"|`@.*`@)''"

definition match_this :: "ustr \<Rightarrow> ustr \<Rightarrow> ustr" where
  "match_this operator macro =
     u ''`s*'' @ macro @ u ''`((`s*'' @ match_constant @ u ''`s*'' @ operator @ u ''[^<>].*|''
     @ u ''.*[^<>]'' @ operator @ u ''`s*'' @ match_constant @ u ''`s*`))''"

definition ReplaceableCheck :: "ustr \<Rightarrow> ustr \<Rightarrow> ustr \<Rightarrow> bool" where
  "ReplaceableCheck operator macro line \<longleftrightarrow>
     Matches (match_this operator macro) line \<and> \<not> Searches (u ''NULL|&&|`|`|'') line"

definition check_operators_tried :: "ustr list" where
  "check_operators_tried = map u [''=='', ''!='', ''>='', ''>'', ''<='', ''<'']"

definition CheckCheck :: "ustr \<Rightarrow> cleansed \<Rightarrow> nat \<Rightarrow> unit chk" where
  "CheckCheck filename cl linenum =
     bnd (lift (py_index (cl_raw cl) (int linenum))) (\<lambda>raw_line.
       case find (\<lambda>macro. 0 \<le> py_find raw_line macro) CHECK_MACROS of
         None \<Rightarrow> skip
       | Some current_macro \<Rightarrow>
           bnd (lift (py_index (cl_elided cl) (int linenum))) (\<lambda>line.
             case find (\<lambda>operator. ReplaceableCheck operator current_macro line) check_operators_tried of
               None \<Rightarrow> skip
             | Some operator \<Rightarrow>
                 (case CHECK_REPLACEMENT current_macro operator of
                    None \<Rightarrow> raise (KeyError operator)
                  | Some repl \<Rightarrow>
                      error filename (int linenum) (u ''readability/check'') 2
                        (u ''Consider using '' @ repl @ u '' instead of '' @ current_macro
                         @ u ''(a '' @ operator @ u '' b)''))))"

section \<open>The width of a line\<close>

definition GetLineWidth :: "ucd \<Rightarrow> ustr \<Rightarrow> nat" where
  "GetLineWidth db line =
     fold (\<lambda>uc width. if uc_wide db uc then width + 2
             else if \<not> uc_combining db uc then width + 1 else width) (uc_nfc db line) 0"

section \<open>Style\<close>

definition initial_spaces :: "ustr \<Rightarrow> nat" where
  "initial_spaces line = length (takeWhile (\<lambda>c. c = 32) line)"

definition check_indent :: "ustr \<Rightarrow> nat \<Rightarrow> ustr \<Rightarrow> ustr \<Rightarrow> unit chk" where
  "check_indent filename linenum line cleansed_line =
     (if line \<noteq> [] \<and> isspace [last line] then
        error filename (int linenum) (u ''whitespace/end_of_line'') 4
          (u ''Line ends in whitespace.  Consider deleting these extra spaces.'')
      else if (initial_spaces line = 1 \<or> initial_spaces line = 3)
          \<and> \<not> Matches (u ''`s*`w+`s*:`s*$'') cleansed_line then
        error filename (int linenum) (u ''whitespace/indent'') 3
          (u ''Weird number of spaces at line-start.  Are you using a 2-space indent?'')
      else
        guard (initial_spaces line = 0 \<and> slice_to line 2 \<noteq> u ''//'' \<and> Searches (u ''[^:]:`s*$'') line)
          (error filename (int linenum) (u ''whitespace/labels'') 4
             (u ''Labels should always be indented at least one space.  If this is a member-initializer list in a constructor or the base class list in a class definition, the colon should be on the following line.'')))"

definition is_header_guard :: "env \<Rightarrow> ustr \<Rightarrow> ustr \<Rightarrow> ustr \<Rightarrow> bool outcome" where
  "is_header_guard e filename file_extension line =
     (if file_extension = u ''h'' then
        bind_out (GetHeaderGuardCPPVariable e filename) (\<lambda>cppvar.
          Ret (startswith line (u ''#ifndef '' @ cppvar) \<or> startswith line (u ''#define '' @ cppvar)
               \<or> startswith line (u ''#endif  // '' @ cppvar)))
      else Ret False)"

definition check_line_length :: "env \<Rightarrow> ustr \<Rightarrow> nat \<Rightarrow> ustr \<Rightarrow> ustr \<Rightarrow> unit chk" where
  "check_line_length e filename linenum file_extension line =
     bnd (lift (is_header_guard e filename file_extension line)) (\<lambda>guard_line.
       guard (\<not> startswith line (u ''#include'') \<and> \<not> guard_line
            \<and> \<not> Matches (u ''^`s*//.*http(s?)://`S*$'') line
            \<and> \<not> Matches (u ''^// `$Id:.*#[0-9]+ `$$'') line)
         (guard (100 < GetLineWidth (e_ucd e) line)
            (error filename (int linenum) (u ''whitespace/line_length'') 4
               (u ''Lines should very rarely be longer than 100 characters''))))"

definition check_one_command :: "ustr \<Rightarrow> cleansed \<Rightarrow> nat \<Rightarrow> ustr \<Rightarrow> unit chk" where
  "check_one_command filename cl linenum cleansed_line =
     (let prevline = fst (GetPreviousNonBlankLine cl (int linenum)) in
      guard (1 < py_count cleansed_line (u '';'')
          \<and> py_find cleansed_line (u ''for'') = - 1
          \<and> (py_find prevline (u ''for'') = - 1 \<or> py_find prevline (u '';'') \<noteq> - 1)
          \<and> \<not> ((py_find cleansed_line (u ''case '') \<noteq> - 1 \<or> py_find cleansed_line (u ''default:'') \<noteq> - 1)
               \<and> py_find cleansed_line (u ''break;'') \<noteq> - 1))
        (error filename (int linenum) (u ''whitespace/newline'') 4
           (u ''More than one command on the same line'')))"

definition CheckStyle ::
    "env \<Rightarrow> ustr \<Rightarrow> cleansed \<Rightarrow> nat \<Rightarrow> ustr \<Rightarrow> class_state \<Rightarrow> unit chk" where
  "CheckStyle e filename cl linenum file_extension classinfo_stack =
     bnd (lift (py_index (cl_raw cl) (int linenum))) (\<lambda>line.
     bnd (guard (py_find line [9] \<noteq> - 1)
            (error filename (int linenum) (u ''whitespace/tab'') 1
               (u ''Tab found; better to use spaces''))) (\<lambda>_.
     bnd (lift (py_index (cl_elided cl) (int linenum))) (\<lambda>cleansed_line.
     in_order
       [check_indent filename linenum line cleansed_line,
        check_line_length e filename linenum file_extension line,
        check_one_command filename cl linenum cleansed_line,
        CheckBraces filename cl linenum,
        CheckSpacing filename cl linenum,
        CheckCheck filename cl linenum,
        if classinfo_stack = [] then skip
        else CheckSectionSpacing filename cl (last classinfo_stack) linenum])))"

section \<open>The loop of CheckBraces\<close>

text \<open>The lines above a line that are not blank, the nearest first.\<close>

definition lines_above :: "cleansed \<Rightarrow> nat \<Rightarrow> ustr list" where
  "lines_above cl linenum = filter (\<lambda>l. \<not> IsBlankLine l) (rev (take linenum (cl_elided cl)))"

lemma previous_from_eq:
  "n \<le> length ls \<Longrightarrow> previous_from ls n =
     (case filter (\<lambda>l. \<not> IsBlankLine l) (rev (take n ls)) of
        [] \<Rightarrow> ([], - 1) | p # ps \<Rightarrow> (p, snd (previous_from ls n)))"
proof (induction n)
  case (Suc n)
  then show ?case by (simp add: take_Suc_conv_app_nth split: list.splits)
qed simp

lemma previous_from_rest:
  "n \<le> length ls \<Longrightarrow> filter (\<lambda>l. \<not> IsBlankLine l) (rev (take n ls)) = p # ps \<Longrightarrow>
     \<exists>k < n. previous_from ls n = (p, int k) \<and> filter (\<lambda>l. \<not> IsBlankLine l) (rev (take k ls)) = ps"
proof (induction n)
  case (Suc n)
  then show ?case
    by (cases "IsBlankLine (ls ! n)") (auto simp: take_Suc_conv_app_nth less_Suc_eq)
qed simp

lemma previous_none:
  assumes "n \<le> length (cl_elided cl)" "lines_above cl n = []"
  shows "GetPreviousNonBlankLine cl (int n) = ([], - 1)"
  using previous_from_eq [OF assms(1)] assms(2)
  by (simp add: GetPreviousNonBlankLine_def lines_above_def)

lemma previous_some:
  assumes "n \<le> length (cl_elided cl)" "lines_above cl n = p # ps"
  obtains k where "k < n" "GetPreviousNonBlankLine cl (int n) = (p, int k)" "lines_above cl k = ps"
  using previous_from_rest [OF assms(1)] assms(2)
  by (fastforce simp: GetPreviousNonBlankLine_def lines_above_def)

lemma previous_top: "GetPreviousNonBlankLine cl (- 1) = ([], - 1)"
  by (simp add: GetPreviousNonBlankLine_def)

text \<open>Joining as a recursion on the lines above.\<close>

fun joins :: "ustr list \<Rightarrow> ustr \<Rightarrow> ustr option" where
  "joins [] line = (if keeps_joining [] line then None else Some line)"
| "joins (p # ps) line = (if keeps_joining p line then joins ps (p @ line) else Some line)"

definition stuck :: "cleansed \<Rightarrow> int \<Rightarrow> ustr \<Rightarrow> ustr \<Rightarrow> bool" where
  "stuck cl n line r \<longleftrightarrow> (n = - 1 \<longrightarrow> \<not> keeps_joining [] line)"

lemma join_previous_stuck: "join_previous cl n line = Some r \<Longrightarrow> stuck cl n line r"
  by (rule join_previous.raw_induct [of stuck cl n line r])
    (auto simp: stuck_def previous_top split: prod.splits if_splits)

lemma join_previous_top:
  "join_previous cl (- 1) line = (if keeps_joining [] line then None else Some line)"
proof (cases "join_previous cl (- 1) line")
  case (Some r)
  then have "stuck cl (- 1) line r" by (rule join_previous_stuck)
  then have "\<not> keeps_joining [] line" by (simp add: stuck_def)
  then show ?thesis by (subst join_previous.simps) (simp add: previous_top)
next
  case None
  then show ?thesis
    by (subst (asm) join_previous.simps) (simp add: previous_top split: if_splits)
qed

lemma join_previous_joins:
  "n \<le> length (cl_elided cl) \<Longrightarrow> join_previous cl (int n) line = joins (lines_above cl n) line"
proof (induction "lines_above cl n" arbitrary: n line)
  case Nil
  then have "GetPreviousNonBlankLine cl (int n) = ([], - 1)" by (metis previous_none)
  then show ?case
    unfolding Nil(1) [symmetric]
    by (subst join_previous.simps) (simp add: join_previous_top)
next
  case (Cons p ps)
  from Cons(3) Cons(2) [symmetric] obtain k where
    k: "k < n" "GetPreviousNonBlankLine cl (int n) = (p, int k)" "lines_above cl k = ps"
    by (rule previous_some)
  then have "join_previous cl (int k) (p @ line) = joins ps (p @ line)"
    using Cons.hyps(1) [of k "p @ line"] Cons(3) by simp
  then show ?case
    unfolding Cons(2) [symmetric]
    by (subst join_previous.simps) (simp add: k)
qed

lemma joins_None_iff:
  "joins ps line = None \<longleftrightarrow>
     (\<forall>k \<le> length ps. Matches (u ''`s+{.*}`s*;'') (concat (rev (take k ps)) @ line))
     \<and> (\<forall>p \<in> set ps. py_count p (u '';'') = 0)"
proof (induction ps arbitrary: line)
  case Nil
  show ?case by (simp add: keeps_joining_def)
next
  case (Cons p ps)
  have all: "(\<forall>k \<le> length (p # ps). Q k) \<longleftrightarrow> Q 0 \<and> (\<forall>k \<le> length ps. Q (Suc k))" for Q
    by (metis le0 length_Cons not0_implies_Suc Suc_le_mono)
  show ?case unfolding all using Cons.IH [of "p @ line"] by (auto simp: keeps_joining_def)
qed

text \<open>The lines that keep the loop going: blanks, a block and a semicolon.\<close>

definition block_then_semicolon :: "ustr \<Rightarrow> bool" where
  "block_then_semicolon line \<longleftrightarrow>
     (\<exists>blanks inside gap rest. line = blanks @ 123 # inside @ 125 # gap @ 59 # rest
        \<and> blanks \<noteq> [] \<and> list_all is_space blanks \<and> 10 \<notin> set inside \<and> list_all is_space gap)"

lemma compile_block [compiled]:
  "compile (u ''`s+{.*}`s*;'') = Some (no_flags,
     RSeq (RPlus (RSet False [CCat Space])) (RSeq (RLit 123) (RSeq (RStar RAny)
       (RSeq (RLit 125) (RSeq (RStar (RSet False [CCat Space])) (RLit 59))))))"
  by code_simp

lemma Matches_block: "Matches (u ''`s+{.*}`s*;'') line \<longleftrightarrow> block_then_semicolon line"
proof -
  let ?r = "RSeq (RPlus (RSet False [CCat Space])) (RSeq (RLit 123) (RSeq (RStar RAny)
       (RSeq (RLit 125) (RSeq (RStar (RSet False [CCat Space])) (RLit 59)))))"
  let ?shape = "\<lambda>w blanks inside gap. w = blanks @ 123 # inside @ 125 # gap @ [59]
      \<and> blanks \<noteq> [] \<and> list_all is_space blanks \<and> 10 \<notin> set inside \<and> list_all is_space gap"
  have cls: "set_match no_flags False [CCat Space] = is_space" by (auto simp: set_match_def)
  have any: "list_all (\<lambda>c. c \<noteq> 10) w \<longleftrightarrow> 10 \<notin> set w" for w :: ustr by (auto simp: list_all_iff)
  have "blanks @ ([123] @ (inside @ ([125] @ (gap @ [59])))) \<in> lang no_flags ?r"
    if "?shape w blanks inside gap" for w blanks inside gap
    unfolding lang.simps(7) lang_rep_set lang_rep_any cls
    using that by (intro concI) (auto simp: Suc_le_eq any)
  moreover have "\<exists>blanks inside gap. ?shape w blanks inside gap" if "w \<in> lang no_flags ?r" for w
    using that unfolding lang.simps(7) lang_rep_set lang_rep_any cls any
    by (auto simp: conc_iff Suc_le_eq)
  ultimately have L: "w \<in> lang no_flags ?r \<longleftrightarrow> (\<exists>blanks inside gap. ?shape w blanks inside gap)" for w
    by fastforce
  have "Matches (u ''`s+{.*}`s*;'') line \<longleftrightarrow> (\<exists>w t. line = w @ t \<and> w \<in> lang no_flags ?r)"
    using re_match_iff_lang [of "(no_flags, ?r)" line]
    by (simp add: Matches_def Match_def compile_block)
  also have "\<dots> \<longleftrightarrow> block_then_semicolon line"
  proof
    assume "block_then_semicolon line"
    then obtain blanks inside gap rest where b: "line = blanks @ 123 # inside @ 125 # gap @ 59 # rest"
      "?shape (blanks @ 123 # inside @ 125 # gap @ [59]) blanks inside gap"
      unfolding block_then_semicolon_def by blast
    then have "line = (blanks @ 123 # inside @ 125 # gap @ [59]) @ rest" by simp
    with b(2) L show "\<exists>w t. line = w @ t \<and> w \<in> lang no_flags ?r" by blast
  next
    assume "\<exists>w t. line = w @ t \<and> w \<in> lang no_flags ?r"
    then obtain w t blanks inside gap where "line = w @ t" "?shape w blanks inside gap" using L by blast
    then have "line = blanks @ 123 # inside @ 125 # gap @ 59 # t"
      "?shape w blanks inside gap" by simp_all
    then show "block_then_semicolon line" unfolding block_then_semicolon_def by blast
  qed
  finally show ?thesis .
qed

lemma snd_andthen_Diverge: "snd (andthen m k) = Diverge \<longleftrightarrow> snd m = Diverge \<or> snd m = Ret () \<and> snd k = Diverge"
  by (cases "snd m") (auto simp: andthen_def bnd_def)

lemma CloseExpression_no_Diverge: "CloseExpression cl n p \<noteq> Diverge"
proof -
  have i: "py_index xs i \<noteq> Diverge" for xs :: "'b list" and i by (simp add: py_index_def Let_def)
  have c: "close_lines cl s e n k \<noteq> Diverge" for s e n k
    by (induction cl s e n k rule: close_lines.induct)
      (subst close_lines.simps, auto split: outcome.split simp: i)
  have b: "bind_out m g \<noteq> Diverge" if "m \<noteq> Diverge" "\<And>x. g x \<noteq> Diverge"
    for m :: "'c outcome" and g :: "'c \<Rightarrow> 'd outcome"
    using that by (cases m) auto
  have r: "bind_out (close_lines cl s e n k) (\<lambda>(n, k). bind_out (py_index (cl_elided cl) (int n)) (\<lambda>l. Ret (h l n k)))
      \<noteq> Diverge" for s e n k h
    by (rule b [OF c]) (auto intro!: b [OF i])
  show ?thesis
    unfolding CloseExpression_def Let_def
    by (rule b [OF i], rule b [OF i])
      (simp add: r [of _ _ _ _ "\<lambda>l n k. (l, n, close_pos l (int (length l)) k + 1)"])
qed

lemma else_braces_no_Diverge: "snd (else_braces f cl n line) \<noteq> Diverge"
  using CloseExpression_no_Diverge [of cl n]
  by (cases "CloseExpression cl n (py_find_start line (u ''('') (py_find line (u ''else if'')))")
    (auto simp: else_braces_def else_one_brace_def guard_def bnd_def Let_def split: if_splits)

lemma py_count_zero: "py_count s [c] = 0 \<longleftrightarrow> c \<notin> set s"
  by (simp add: py_count_char count_list_0_iff)

text \<open>C28: The check of braces never returns, exactly when the checks before its last loop
  return, the line starts with blanks and then holds a block followed by a semicolon, no line above it
  (blank lines aside) holds a semicolon, and each further line put in front of it up to the
  first gives a line of the same shape. So a file whose first line of code is an indented
  block with a semicolon hangs the program.\<close>

theorem CheckBraces_never_returns_iff:
  assumes "linenum < length (cl_elided cl)"
  shows "snd (CheckBraces f cl linenum) = Diverge \<longleftrightarrow>
     snd (else_braces f cl linenum (cl_elided cl ! linenum)) = Ret ()
     \<and> (\<forall>k \<le> length (lines_above cl linenum).
          block_then_semicolon (concat (rev (take k (lines_above cl linenum))) @ cl_elided cl ! linenum))
     \<and> (\<forall>p \<in> set (lines_above cl linenum). 59 \<notin> set p)"
proof -
  let ?line = "cl_elided cl ! linenum"
  have j: "join_previous cl (int linenum) ?line = joins (lines_above cl linenum) ?line"
    using assms by (intro join_previous_joins) simp
  have semi: "u '';'' = [59]" by (simp add: u_Cons uchar_of_def)
  have ret: "snd (brace_starts_line f cl linenum ?line) = Ret ()"
    "snd (else_after_brace f cl linenum ?line) = Ret ()"
    "snd (one_line_clauses f linenum ?line) = Ret ()"
    by (simp_all add: brace_starts_line_def else_after_brace_def one_line_clauses_def guard_def Let_def
        snd_andthen_Ret)
  have "snd (brace_semicolon f cl linenum ?line) = Diverge \<longleftrightarrow> joins (lines_above cl linenum) ?line = None"
    unfolding brace_semicolon_def j
    by (cases "joins (lines_above cl linenum) ?line") (auto simp: bnd_def lift_def guard_def)
  then have last: "snd (brace_semicolon f cl linenum ?line) = Diverge \<longleftrightarrow>
      (\<forall>k \<le> length (lines_above cl linenum). block_then_semicolon (concat (rev (take k (lines_above cl linenum))) @ ?line))
      \<and> (\<forall>p \<in> set (lines_above cl linenum). 59 \<notin> set p)"
    unfolding joins_None_iff Matches_block semi py_count_zero .
  have "snd (CheckBraces f cl linenum) = Diverge \<longleftrightarrow>
      snd (else_braces f cl linenum ?line) = Ret () \<and> snd (brace_semicolon f cl linenum ?line) = Diverge"
    using assms else_braces_no_Diverge [of f cl linenum ?line]
    by (simp add: CheckBraces_def lift_def bnd_def snd_andthen_Diverge ret)
  with last show ?thesis by simp
qed

definition hanging_file :: cleansed where
  "hanging_file = \<lparr>cl_elided = [[], u '' {};'', []], cl_lines = [[], u '' {};'', []],
     cl_raw = [u ''//'', u '' {};'', u ''//''], cl_num = 3\<rparr>"

lemma hanging_file_elided: "cl_elided hanging_file = [[], [32, 123, 125, 59], []]"
  by (simp add: hanging_file_def u_Cons uchar_of_def)

theorem CheckBraces_never_returns_iff_witness:
  "snd (CheckBraces (u ''a.c'') hanging_file 1) = Diverge"
proof -
  have n: "1 < length (cl_elided hanging_file)" by (simp add: hanging_file_elided)
  have e: "snd (else_braces (u ''a.c'') hanging_file 1 (cl_elided hanging_file ! 1)) = Ret ()"
    by code_simp
  have a: "lines_above hanging_file 1 = []"
    by (simp add: hanging_file_elided lines_above_def IsBlankLine_def)
  have "[32, 123, 125, 59] = [32] @ 123 # [] @ 125 # [] @ 59 # ([] :: ustr)"
    "list_all is_space [32]" by (simp_all add: is_space_def)
  then have "block_then_semicolon [32, 123, 125, 59]"
    unfolding block_then_semicolon_def by (metis list.pred_inject(1) empty_iff list.set(1) list.distinct(1))
  then show ?thesis
    unfolding CheckBraces_never_returns_iff [OF n] using e by (simp add: a [simplified] hanging_file_elided)
qed

section \<open>The suggested macros\<close>

text \<open>What an operator of the source and the relation in the name of a macro assert.\<close>

definition op_holds :: "ustr \<Rightarrow> int \<Rightarrow> int \<Rightarrow> bool" where
  "op_holds operator a b \<longleftrightarrow>
     (if operator = u ''=='' then a = b else if operator = u ''!='' then a \<noteq> b
      else if operator = u ''>='' then b \<le> a else if operator = u ''>'' then b < a
      else if operator = u ''<='' then a \<le> b else a < b)"

definition relation_holds :: "ustr \<Rightarrow> int \<Rightarrow> int \<Rightarrow> bool" where
  "relation_holds name a b \<longleftrightarrow>
     (if name = u ''EQ'' then a = b else if name = u ''NE'' then a \<noteq> b
      else if name = u ''GE'' then b \<le> a else if name = u ''GT'' then b < a
      else if name = u ''LE'' then a \<le> b else a < b)"

definition same_assertion :: "ustr \<Rightarrow> ustr \<Rightarrow> ustr \<Rightarrow> bool" where
  "same_assertion macro operator name \<longleftrightarrow>
     name \<in> snd ` set replacements
     \<and> (\<forall>a b. relation_holds name a b = (op_holds operator a b \<noteq> contains macro (u ''FALSE'')))"

definition suggestion :: "ustr \<Rightarrow> ustr \<Rightarrow> (ustr \<times> ustr \<times> ustr) option" where
  "suggestion macro operator =
     (case map_of true_templates macro of
        Some (pre, post) \<Rightarrow> map_option (\<lambda>name. (pre, name, post)) (map_of replacements operator)
      | None \<Rightarrow>
          (case map_of false_templates macro of
             Some (pre, post) \<Rightarrow> map_option (\<lambda>name. (pre, name, post)) (map_of inv_replacements operator)
           | None \<Rightarrow> None))"

definition table_ok :: bool where
  "table_ok = list_all (\<lambda>macro. list_all (\<lambda>operator.
     (case suggestion macro operator of
        None \<Rightarrow> False
      | Some (pre, name, post) \<Rightarrow> CHECK_REPLACEMENT macro operator = Some (pre @ name @ post)
          \<and> map_of (if contains macro (u ''FALSE'') then inv_replacements else replacements) operator = Some name))
     check_operators_tried) CHECK_MACROS"

lemma table_checked: "table_ok"
  by code_simp

lemma names_meaning:
  "map_of replacements operator = Some name \<Longrightarrow>
     name \<in> snd ` set replacements \<and> relation_holds name a b = op_holds operator a b"
  by (auto simp: replacements_def relation_holds_def op_holds_def u_Cons uchar_of_def
      split: if_splits)

lemma inv_names_meaning:
  "map_of inv_replacements operator = Some name \<Longrightarrow>
     name \<in> snd ` set replacements \<and> relation_holds name a b = (\<not> op_holds operator a b)"
  by (auto simp: replacements_def inv_replacements_def relation_holds_def op_holds_def u_Cons uchar_of_def
      split: if_splits)

lemma replacement_sound:
  assumes "macro \<in> set CHECK_MACROS" "operator \<in> set check_operators_tried"
  obtains pre name post where "CHECK_REPLACEMENT macro operator = Some (pre @ name @ post)"
    "same_assertion macro operator name"
proof -
  have "list_all (\<lambda>operator. (case suggestion macro operator of
        None \<Rightarrow> False
      | Some (pre, name, post) \<Rightarrow> CHECK_REPLACEMENT macro operator = Some (pre @ name @ post)
          \<and> map_of (if contains macro (u ''FALSE'') then inv_replacements else replacements) operator = Some name))
     check_operators_tried"
    using table_checked assms(1) unfolding table_ok_def list_all_iff [of _ CHECK_MACROS] by blast
  then have "case suggestion macro operator of
        None \<Rightarrow> False
      | Some (pre, name, post) \<Rightarrow> CHECK_REPLACEMENT macro operator = Some (pre @ name @ post)
          \<and> map_of (if contains macro (u ''FALSE'') then inv_replacements else replacements) operator = Some name"
    using assms(2) unfolding list_all_iff by blast
  then obtain pre name post where r: "CHECK_REPLACEMENT macro operator = Some (pre @ name @ post)"
    "map_of (if contains macro (u ''FALSE'') then inv_replacements else replacements) operator = Some name"
    by (auto split: option.splits)
  have "same_assertion macro operator name"
    using r(2) names_meaning [of operator name] inv_names_meaning [of operator name]
    unfolding same_assertion_def by (simp split: if_splits)
  with r(1) show thesis by (rule that)
qed



section \<open>The width of a line\<close>

lemma width_fold:
  "fold (\<lambda>uc width. if uc_wide db uc then width + 2
      else if \<not> uc_combining db uc then width + 1 else width) cs n =
     n + 2 * length (filter (uc_wide db) cs)
       + length (filter (\<lambda>c. \<not> uc_wide db c \<and> \<not> uc_combining db c) cs)"
  by (induction cs arbitrary: n) auto

lemma GetLineWidth_ascii:
  assumes "ucd_ok db" "list_all is_ascii line"
  shows "GetLineWidth db line = length line"
proof -
  have n: "uc_nfc db line = line" using assms by (auto simp: ucd_ok_def)
  have "\<not> uc_wide db c" "\<not> uc_combining db c" if "c \<in> set line" for c
    using assms that by (auto simp: ucd_ok_def list_all_iff)
  then have "filter (uc_wide db) line = []"
    "filter (\<lambda>c. \<not> uc_wide db c \<and> \<not> uc_combining db c) line = line"
    by (auto simp: filter_empty_conv intro!: filter_True)
  then show ?thesis unfolding GetLineWidth_def n width_fold by simp
qed

lemma GetLineWidth_bound: "GetLineWidth db line \<le> 2 * length (uc_nfc db line)"
proof -
  have "length (filter P cs) + length (filter (\<lambda>c. \<not> P c \<and> Q c) cs) \<le> length cs"
    for P Q :: "uchar \<Rightarrow> bool" and cs :: ustr
    by (induction cs) auto
  from this [where P = "uc_wide db" and Q = "\<lambda>c. \<not> uc_combining db c" and cs = "uc_nfc db line"]
  show ?thesis unfolding GetLineWidth_def width_fold by linarith
qed

text \<open>C30: The width of a line is the number of the wide characters of its normal form, twice,
  and of the other characters that are not combining, so at most twice the length of the
  normal form, and the number of characters of an ASCII line. An ASCII line is reported for its
  length exactly when it has more than a hundred characters and is not an include, a header guard,
  a comment that ends in a URL or a version keyword.\<close>

theorem line_length_reported:
  assumes "ucd_ok (e_ucd e)" "list_all is_ascii line" "is_header_guard e filename ext line = Ret g"
  shows "GetLineWidth (e_ucd e) line = length line
    \<and> check_line_length e filename n ext line =
       (if 100 < length line \<and> \<not> g \<and> \<not> startswith line (u ''#include'')
           \<and> \<not> Matches (u ''^`s*//.*http(s?)://`S*$'') line \<and> \<not> Matches (u ''^// `$Id:.*#[0-9]+ `$$'') line
        then error filename (int n) (u ''whitespace/line_length'') 4
               (u ''Lines should very rarely be longer than 100 characters'')
        else skip)
    \<and> (\<forall>any. GetLineWidth (e_ucd e) any =
          2 * length (filter (uc_wide (e_ucd e)) (uc_nfc (e_ucd e) any))
          + length (filter (\<lambda>c. \<not> uc_wide (e_ucd e) c \<and> \<not> uc_combining (e_ucd e) c) (uc_nfc (e_ucd e) any))
        \<and> GetLineWidth (e_ucd e) any \<le> 2 * length (uc_nfc (e_ucd e) any))"
proof (intro conjI allI)
  show "GetLineWidth (e_ucd e) line = length line" using assms(1,2) by (rule GetLineWidth_ascii)
  then show "check_line_length e filename n ext line =
       (if 100 < length line \<and> \<not> g \<and> \<not> startswith line (u ''#include'')
           \<and> \<not> Matches (u ''^`s*//.*http(s?)://`S*$'') line \<and> \<not> Matches (u ''^// `$Id:.*#[0-9]+ `$$'') line
        then error filename (int n) (u ''whitespace/line_length'') 4
               (u ''Lines should very rarely be longer than 100 characters'')
        else skip)"
    using assms(3) by (simp add: check_line_length_def lift_def bnd_def guard_def
        skip_def ok_def error_def)
qed (simp only: GetLineWidth_def width_fold add_0, rule GetLineWidth_bound)

theorem line_length_reported_witness:
  "GetLineWidth ascii_ucd (replicate 101 120) = 101"
proof -
  let ?e = "example_env []"
  have a: "ucd_ok (e_ucd ?e)" "list_all is_ascii (replicate 101 120)"
    by (simp_all add: example_env_def ascii_ucd_ok is_ascii_def list_all_iff)
  have "is_header_guard ?e (u ''a.c'') (u ''c'') (replicate 101 120) = Ret False"
    by (simp add: is_header_guard_def u_Cons uchar_of_def)
  from line_length_reported [OF a this] have "GetLineWidth (e_ucd ?e) (replicate 101 120) = 101"
    unfolding length_replicate by (rule conjunct1)
  then show ?thesis by (simp only: example_env_def env.simps)
qed

text \<open>Every pattern the checks above use is well formed.\<close>

lemma style_patterns_compile:
  "list_all (\<lambda>p. compile (u p) \<noteq> None)
    [''`s*{`s*$'',
     ''[;:}{]`s*$'',
     ''`s*else`s*'',
     ''`s*}`s*$'',
     ''}`s*else[^{]*$'',
     ''[^}]*else`s*{'',
     ''}`s*else if([^{]*)$'',
     ''`belse [^`s{]'',
     ''`belse if`b'',
     ''`s*do [^`s{]'',
     ''`s+{.*}`s*;'',
     ''{.*}`s*;'',
     ''struct|class|enum|`s*=`s*{'',
     ''NULL|&&|`|`|'',
     ''`s*`w+`s*:`s*$'',
     ''[^:]:`s*$'',
     ''^`s*//.*http(s?)://`S*$'',
     ''^// `$Id:.*#[0-9]+ `$$'']"
  by code_simp

end
