(* ===== verification/Includes.thy ===== *)
theory Includes
  imports Cleanse FileInfo "HOL-Library.List_Lexorder" "HOL-Library.AList"
begin

text \<open>
  The checks on \<open>#include\<close> lines: the class \<open>_IncludeState\<close> with the order of the
  sections and of the headers inside a section, the kind of a header, the check of one line,
  and the search for includes that are missing (\<open>CheckForIncludeWhatYouUse\<close>).
\<close>

section \<open>Kinds of headers and sections\<close>

datatype header_type =
    C_SYS_HEADER
  | CPP_SYS_HEADER
  | LIKELY_MY_HEADER
  | POSSIBLE_MY_HEADER
  | OTHER_HEADER

datatype header_section =
    INITIAL_SECTION
  | MY_H_SECTION
  | C_SECTION
  | CPP_SECTION
  | OTHER_H_SECTION

text \<open>The sections are small numbers in the source, and compared as such.\<close>

primrec section_number :: "header_section \<Rightarrow> nat" where
  "section_number INITIAL_SECTION = 0"
| "section_number MY_H_SECTION = 1"
| "section_number C_SECTION = 2"
| "section_number CPP_SECTION = 3"
| "section_number OTHER_H_SECTION = 4"

instantiation header_section :: linorder
begin

definition less_eq_header_section :: "header_section \<Rightarrow> header_section \<Rightarrow> bool" where
  "less_eq_header_section a b \<longleftrightarrow> section_number a \<le> section_number b"

definition less_header_section :: "header_section \<Rightarrow> header_section \<Rightarrow> bool" where
  "less_header_section a b \<longleftrightarrow> section_number a < section_number b"

instance
proof
  fix a b :: header_section
  show "a \<le> b \<Longrightarrow> b \<le> a \<Longrightarrow> a = b"
    by (cases a; cases b) (simp_all add: less_eq_header_section_def)
qed (auto simp: less_eq_header_section_def less_header_section_def)

end

primrec TYPE_NAMES :: "header_type \<Rightarrow> ustr" where
  "TYPE_NAMES C_SYS_HEADER = u ''C system header''"
| "TYPE_NAMES CPP_SYS_HEADER = u ''C++ system header''"
| "TYPE_NAMES LIKELY_MY_HEADER = u ''header this file implements''"
| "TYPE_NAMES POSSIBLE_MY_HEADER = u ''header this file may implement''"
| "TYPE_NAMES OTHER_HEADER = u ''other header''"

primrec SECTION_NAMES :: "header_section \<Rightarrow> ustr" where
  "SECTION_NAMES INITIAL_SECTION = u ''... nothing. (This can@t be an error.)''"
| "SECTION_NAMES MY_H_SECTION = u ''a header this file implements''"
| "SECTION_NAMES C_SECTION = u ''C system header''"
| "SECTION_NAMES CPP_SECTION = u ''C++ system header''"
| "SECTION_NAMES OTHER_H_SECTION = u ''other header''"

definition STL_HEADERS :: "ustr list" where
  "STL_HEADERS = map u
    [''algobase.h'', ''algorithm'', ''alloc.h'', ''bitset'', ''deque'', ''exception'',
     ''function.h'', ''functional'', ''hash_map'', ''hash_map.h'', ''hash_set'',
     ''hash_set.h'', ''iterator'', ''list'', ''list.h'', ''map'', ''memory'', ''new'',
     ''pair.h'', ''pthread_alloc'', ''queue'', ''set'', ''set.h'', ''sstream'', ''stack'',
     ''stl_alloc.h'', ''stl_relops.h'', ''type_traits.h'',
     ''utility'', ''vector'', ''vector.h'']"

definition CPP_HEADERS :: "ustr list" where
  "CPP_HEADERS = map u
    [''algo.h'', ''builtinbuf.h'', ''bvector.h'', ''cassert'', ''cctype'',
     ''cerrno'', ''cfloat'', ''ciso646'', ''climits'', ''clocale'', ''cmath'',
     ''complex'', ''complex.h'', ''csetjmp'', ''csignal'', ''cstdarg'', ''cstddef'',
     ''cstdio'', ''cstdlib'', ''cstring'', ''ctime'', ''cwchar'', ''cwctype'',
     ''defalloc.h'', ''deque.h'', ''editbuf.h'', ''exception'', ''fstream'',
     ''fstream.h'', ''hashtable.h'', ''heap.h'', ''indstream.h'', ''iomanip'',
     ''iomanip.h'', ''ios'', ''iosfwd'', ''iostream'', ''iostream.h'', ''istream'',
     ''istream.h'', ''iterator.h'', ''limits'', ''map.h'', ''multimap.h'', ''multiset.h'',
     ''numeric'', ''ostream'', ''ostream.h'', ''parsestream.h'', ''pfstream.h'',
     ''PlotFile.h'', ''procbuf.h'', ''pthread_alloc.h'', ''rope'', ''rope.h'',
     ''ropeimpl.h'', ''SFile.h'', ''slist'', ''slist.h'', ''stack.h'', ''stdexcept'',
     ''stdiostream.h'', ''streambuf.h'', ''stream.h'', ''strfile.h'', ''string'',
     ''strstream'', ''strstream.h'', ''tempbuf.h'', ''tree.h'', ''typeinfo'', ''valarray'']"

section \<open>The state of the includes of a file\<close>

text \<open>Where a header was included: a line of this file, or of a header read in addition.\<close>

datatype incl_at = AtLine int | AtFile ustr int

definition show_incl_at :: "incl_at \<Rightarrow> ustr" where
  "show_incl_at v = (case v of AtLine n \<Rightarrow> show_int n | AtFile f n \<Rightarrow> f @ u '':'' @ show_int n)"

record include_state =
  included_at :: "(ustr \<times> incl_at) list"
  sect :: header_section
  last_header :: ustr

definition IncludeState_init :: include_state where
  "IncludeState_init = \<lparr>included_at = [], sect = INITIAL_SECTION, last_header = []\<rparr>"

definition CanonicalizeAlphabeticalOrder :: "ucd \<Rightarrow> ustr \<Rightarrow> ustr" where
  "CanonicalizeAlphabeticalOrder db header_path =
     py_lower db (py_replace (py_replace header_path (u ''-inl.h'') (u ''.h'')) (u ''-'') (u ''_''))"

text \<open>\<open>last_header\<close> moves on only when the header is in order.\<close>

definition IsInAlphabeticalOrder :: "ucd \<Rightarrow> ustr \<Rightarrow> include_state \<Rightarrow> bool \<times> include_state" where
  "IsInAlphabeticalOrder db header_path st =
     (let canonical_header = CanonicalizeAlphabeticalOrder db header_path
      in if canonical_header < last_header st then (False, st)
         else (True, st\<lparr>last_header := canonical_header\<rparr>))"

definition CheckNextIncludeOrder :: "header_type \<Rightarrow> include_state \<Rightarrow> ustr \<times> include_state" where
  "CheckNextIncludeOrder header_type st =
     (let error_message = u ''Found '' @ TYPE_NAMES header_type @ u '' after '' @ SECTION_NAMES (sect st);
          out_of_order = (error_message, st\<lparr>last_header := []\<rparr>);
          enter = (\<lambda>s. ([], if sect st \<noteq> s then st\<lparr>sect := s, last_header := []\<rparr> else st\<lparr>sect := s\<rparr>))
      in case header_type of
           C_SYS_HEADER \<Rightarrow> if sect st \<le> C_SECTION then enter C_SECTION else out_of_order
         | CPP_SYS_HEADER \<Rightarrow> if sect st \<le> CPP_SECTION then enter CPP_SECTION else out_of_order
         | LIKELY_MY_HEADER \<Rightarrow>
             if sect st \<le> MY_H_SECTION then enter MY_H_SECTION else enter OTHER_H_SECTION
         | POSSIBLE_MY_HEADER \<Rightarrow>
             if sect st \<le> MY_H_SECTION then enter MY_H_SECTION else enter OTHER_H_SECTION
         | OTHER_HEADER \<Rightarrow> enter OTHER_H_SECTION)"

section \<open>The kind of a header\<close>

definition RE_PATTERN_INCLUDE_NEW_STYLE :: ustr where
  "RE_PATTERN_INCLUDE_NEW_STYLE = u ''#include +\"[^/]+`.h\"''"

definition RE_FIRST_COMPONENT :: ustr where
  "RE_FIRST_COMPONENT = u ''^[^-_.]+''"

fun drop_suffix :: "ustr \<Rightarrow> ustr list \<Rightarrow> ustr option" where
  "drop_suffix filename [] = None"
| "drop_suffix filename (sfx # rest) =
     (if endswith filename sfx \<and> length sfx < length filename
         \<and> filename ! (length filename - length sfx - 1) \<in> set (u ''-_'')
      then Some (slice_to filename (- int (length sfx) - 1))
      else drop_suffix filename rest)"

definition DropCommonSuffixes :: "ustr \<Rightarrow> ustr" where
  "DropCommonSuffixes filename =
     (case drop_suffix filename
         (map u [''test.c'', ''regtest.c'', ''unittest.c'', ''inl.h'', ''impl.h'', ''internal.h'']) of
        Some w \<Rightarrow> w
      | None \<Rightarrow> fst (splitext filename))"

definition IsTestFilename :: "ustr \<Rightarrow> bool" where
  "IsTestFilename filename \<longleftrightarrow>
     endswith filename (u ''_test.c'') \<or> endswith filename (u ''_unittest.c'')
     \<or> endswith filename (u ''_regtest.c'')"

definition ClassifyInclude :: "env \<Rightarrow> ustr \<Rightarrow> ustr \<Rightarrow> bool \<Rightarrow> header_type outcome" where
  "ClassifyInclude e filename include is_system =
     (let is_stl_h = include \<in> set STL_HEADERS;
          is_cpp_h = (is_stl_h \<or> include \<in> set CPP_HEADERS)
      in if is_system then Ret (if is_cpp_h then CPP_SYS_HEADER else C_SYS_HEADER)
         else bind_out (RepositoryName e filename) (\<lambda>name.
           let (target_dir, target_base) = path_split (DropCommonSuffixes name);
               (include_dir, include_base) = path_split (DropCommonSuffixes include)
           in if target_base = include_base
                 \<and> (include_dir = target_dir
                    \<or> include_dir = normpath (target_dir @ u ''/../public''))
              then Ret LIKELY_MY_HEADER
              else
                (case (Match RE_FIRST_COMPONENT target_base, Match RE_FIRST_COMPONENT include_base) of
                   (Some t, Some i) \<Rightarrow>
                     Ret (if group_str t 0 = group_str i 0 then POSSIBLE_MY_HEADER else OTHER_HEADER)
                 | _ \<Rightarrow> Ret OTHER_HEADER)))"

section \<open>The check of one line\<close>

definition check_new_include ::
    "env \<Rightarrow> ustr \<Rightarrow> nat \<Rightarrow> ustr \<Rightarrow> bool \<Rightarrow> include_state \<Rightarrow> include_state chk" where
  "check_new_include e filename linenum include is_system st0 =
     (let st = st0\<lparr>included_at := included_at st0 @ [(include, AtLine (int linenum))]\<rparr> in
      bnd (lift (ClassifyInclude e filename include is_system)) (\<lambda>header_type.
        let (error_message, st1) = CheckNextIncludeOrder header_type st in
        bnd (if error_message \<noteq> [] then
               bnd (lift (BaseName e filename)) (\<lambda>base.
                 error filename (int linenum) (u ''build/include_order'') 4
                   (error_message @ u ''. Should be: '' @ base @ u ''.h, c system, c++ system, other.''))
             else skip) (\<lambda>_.
        let (in_order, st2) = IsInAlphabeticalOrder (e_ucd e) include st1 in
        andthen
          (guard (\<not> in_order)
            (error filename (int linenum) (u ''build/include_alpha'') 4
               (u ''Include \"'' @ include @ u ''\" not in alphabetical order'')))
          (ok st2))))"

definition CheckIncludeLine ::
    "env \<Rightarrow> ustr \<Rightarrow> cleansed \<Rightarrow> nat \<Rightarrow> include_state \<Rightarrow> include_state chk" where
  "CheckIncludeLine e filename cl linenum st =
     bnd (lift (py_index (cl_lines cl) (int linenum))) (\<lambda>line.
     andthen
       (guard (Searches RE_PATTERN_INCLUDE_NEW_STYLE line)
         (error filename (int linenum) (u ''build/include'') 4
            (u ''Include the directory when naming .h files'')))
     (bnd
       (case Search RE_PATTERN_INCLUDE line of
          None \<Rightarrow> ok st
        | Some m \<Rightarrow>
            let include = group_str m 2; is_system = (group_str m 1 = u ''<'') in
            (case map_of (included_at st) include of
               Some v \<Rightarrow>
                 andthen
                   (error filename (int linenum) (u ''build/include'') 4
                      (u ''\"'' @ include @ u ''\" already included at '' @ filename @ u '':''
                        @ show_incl_at v))
                   (ok st)
             | None \<Rightarrow> check_new_include e filename linenum include is_system st))
       (\<lambda>st'.
          andthen
            (case Match RE_PATTERN_INCLUDE line of
               None \<Rightarrow> skip
             | Some m \<Rightarrow>
                 guard (Matches (u ''(f|ind|io|i|o|parse|pf|stdio|str|)?stream$'') (group_str m 2)
                     \<and> \<not> IsTestFilename filename)
                   (error filename (int linenum) (u ''readability/streams'') 3
                      (u ''Streams are highly discouraged.'')))
            (ok st'))))"

section \<open>Missing includes\<close>

definition HEADERS_CONTAINING_TEMPLATES :: "(ustr \<times> ustr list) list" where
  "HEADERS_CONTAINING_TEMPLATES = map (\<lambda>(h, ts). (u h, map u ts))
    [(''<deque>'', [''deque'']),
     (''<functional>'', [''unary_function'', ''binary_function'',
        ''plus'', ''minus'', ''multiplies'', ''divides'', ''modulus'',
        ''negate'',
        ''equal_to'', ''not_equal_to'', ''greater'', ''less'',
        ''greater_equal'', ''less_equal'',
        ''logical_and'', ''logical_or'', ''logical_not'',
        ''unary_negate'', ''not1'', ''binary_negate'', ''not2'',
        ''bind1st'', ''bind2nd'',
        ''pointer_to_unary_function'',
        ''pointer_to_binary_function'',
        ''ptr_fun'',
        ''mem_fun_t'', ''mem_fun'', ''mem_fun1_t'', ''mem_fun1_ref_t'',
        ''mem_fun_ref_t'',
        ''const_mem_fun_t'', ''const_mem_fun1_t'',
        ''const_mem_fun_ref_t'', ''const_mem_fun1_ref_t'',
        ''mem_fun_ref'']),
     (''<limits>'', [''numeric_limits'']),
     (''<list>'', [''list'']),
     (''<map>'', [''map'', ''multimap'']),
     (''<memory>'', [''allocator'']),
     (''<queue>'', [''queue'', ''priority_queue'']),
     (''<set>'', [''set'', ''multiset'']),
     (''<stack>'', [''stack'']),
     (''<string>'', [''char_traits'', ''basic_string'']),
     (''<utility>'', [''pair'']),
     (''<vector>'', [''vector'']),
     (''<hash_map>'', [''hash_map'', ''hash_multimap'']),
     (''<hash_set>'', [''hash_set'', ''hash_multiset'']),
     (''<slist>'', [''slist''])]"

definition RE_PATTERN_STRING :: ustr where
  "RE_PATTERN_STRING = u ''`bstring`b''"

text \<open>Triples of a pattern, the name it stands for and the header that declares it.\<close>

definition re_pattern_algorithm_header :: "(ustr \<times> ustr \<times> ustr) list" where
  "re_pattern_algorithm_header =
     map (\<lambda>t. (u ''[^>.]`b'' @ u t @ u ''(<.*?>)?`([^`)]'', u t, u ''<algorithm>''))
       [''copy'', ''max'', ''min'', ''min_element'', ''sort'', ''swap'', ''transform'']"

definition re_pattern_templates :: "(ustr \<times> ustr \<times> ustr) list" where
  "re_pattern_templates =
     concat (map (\<lambda>(header, templates).
       map (\<lambda>t. (u ''(`<|`b)'' @ t @ u ''`s*`<'', t @ u ''<>'', header)) templates)
       HEADERS_CONTAINING_TEMPLATES)"

definition FilesBelongToSameModule :: "ustr \<Rightarrow> ustr \<Rightarrow> bool \<times> ustr" where
  "FilesBelongToSameModule filename_cc filename_h =
     (if \<not> endswith filename_cc (u ''.c'') then (False, [])
      else
        (let cc1 = slice_to filename_cc (- 2);
             cc2 = (if endswith cc1 (u ''_unittest'') then slice_to cc1 (- 9)
                    else if endswith cc1 (u ''_test'') then slice_to cc1 (- 5) else cc1);
             cc = py_replace (py_replace cc2 (u ''/public/'') (u ''/'')) (u ''/internal/'') (u ''/'')
         in if \<not> endswith filename_h (u ''.h'') then (False, [])
            else
              (let h1 = slice_to filename_h (- 2);
                   h2 = (if endswith h1 (u ''-inl'') then slice_to h1 (- 4) else h1);
                   h = py_replace (py_replace h2 (u ''/public/'') (u ''/'')) (u ''/internal/'') (u ''/'')
               in if endswith cc h then (True, slice_to cc (- int (length h))) else (False, []))))"

text \<open>\<open>setdefault\<close>: a key that is present keeps its value.\<close>

definition setdefault :: "'k \<Rightarrow> 'v \<Rightarrow> ('k \<times> 'v) list \<Rightarrow> ('k \<times> 'v) list" where
  "setdefault k v m = (if k \<in> fst ` set m then m else m @ [(k, v)])"

fun add_includes :: "ustr \<Rightarrow> int \<Rightarrow> ustr list \<Rightarrow> (ustr \<times> incl_at) list \<Rightarrow> (ustr \<times> incl_at) list" where
  "add_includes filename linenum [] m = m"
| "add_includes filename linenum (line # rest) m =
     add_includes filename (linenum + 1) rest
       (case Search RE_PATTERN_INCLUDE (CleanseComments line) of
          None \<Rightarrow> m
        | Some k \<Rightarrow> setdefault (group_str k 2) (AtFile filename (linenum + 1)) m)"

definition UpdateIncludeState ::
    "env \<Rightarrow> ustr \<Rightarrow> (ustr \<times> incl_at) list \<Rightarrow> bool \<times> (ustr \<times> incl_at) list" where
  "UpdateIncludeState e filename m =
     (case e_open e filename of
        None \<Rightarrow> (False, m)
      | Some headerfile \<Rightarrow> (True, add_includes filename 0 headerfile m))"

type_synonym required = "(ustr \<times> nat \<times> ustr) list"

definition require_by :: "nat \<Rightarrow> ustr \<Rightarrow> (ustr \<times> ustr \<times> ustr) \<Rightarrow> required \<Rightarrow> required" where
  "require_by linenum line p req =
     (case p of (pattern, template, header) \<Rightarrow>
        if Searches pattern line then AList.update header (linenum, template) req else req)"

definition require_string :: "nat \<Rightarrow> ustr \<Rightarrow> required \<Rightarrow> required" where
  "require_string linenum line req =
     (case Search RE_PATTERN_STRING line of
        None \<Rightarrow> req
      | Some m \<Rightarrow>
          (let pre = slice_to line (int (mo_start m)) in
           if endswith pre (u ''std::'') \<or> \<not> endswith pre (u ''::'')
           then AList.update (u ''<string>'') (linenum, u ''string'') req else req))"

definition require_line :: "nat \<Rightarrow> ustr \<Rightarrow> required \<Rightarrow> required" where
  "require_line linenum line req =
     (if line = [] \<or> hd line = 35 then req
      else
        (let req1 = fold (require_by linenum line) re_pattern_algorithm_header
                      (require_string linenum line req)
         in if \<not> contains line (u ''<'') then req1
            else fold (require_by linenum line) re_pattern_templates req1))"

definition required_headers :: "cleansed \<Rightarrow> required" where
  "required_headers cl =
     fold (\<lambda>linenum. require_line linenum (cl_elided cl ! linenum)) [0..<NumLines cl] []"

text \<open>The loop over the headers included so far, which may open more of them.\<close>

fun open_headers ::
    "env \<Rightarrow> ustr \<Rightarrow> ustr list \<Rightarrow> (ustr \<times> incl_at) list \<Rightarrow> bool \<Rightarrow> (ustr \<times> incl_at) list \<times> bool" where
  "open_headers e abs_filename [] m header_found = (m, header_found)"
| "open_headers e abs_filename (header # rest) m header_found =
     (let (same_module, common_path) = FilesBelongToSameModule abs_filename header;
          fullpath = common_path @ header
      in if same_module then
           (let (opened, m1) = UpdateIncludeState e fullpath m
            in open_headers e abs_filename rest m1 (header_found \<or> opened))
         else open_headers e abs_filename rest m header_found)"

definition strip_header :: "ustr \<Rightarrow> ustr" where
  "strip_header h = (let P = (\<lambda>c. c \<in> set (u ''<>\"'')) in rstrip_of P (lstrip_of P h))"

definition CheckForIncludeWhatYouUse :: "env \<Rightarrow> ustr \<Rightarrow> cleansed \<Rightarrow> include_state \<Rightarrow> unit chk" where
  "CheckForIncludeWhatYouUse e filename cl st =
     (let required = required_headers cl;
          abs_filename = Sub (u ''_flymake`.c$'') (u ''.c'') (FullName e filename);
          (m, header_found) =
            open_headers e abs_filename (e_order e (map fst (included_at st))) (included_at st) False
      in if endswith filename (u ''.c'') \<and> \<not> header_found then skip
         else
           for_each (e_order e (map fst required)) (\<lambda>h.
             case map_of required h of
               None \<Rightarrow> skip
             | Some (linenum, template) \<Rightarrow>
                 guard (strip_header h \<notin> fst ` set m)
                   (error filename (int linenum) (u ''build/include_what_you_use'') 4
                      (u ''Add #include '' @ h @ u '' for '' @ template))))"

section \<open>The order of the sections\<close>

definition my_header :: "header_type \<Rightarrow> bool" where
  "my_header h \<longleftrightarrow> h = LIKELY_MY_HEADER \<or> h = POSSIBLE_MY_HEADER"

definition sys_header :: "header_type \<Rightarrow> bool" where
  "sys_header h \<longleftrightarrow> h = C_SYS_HEADER \<or> h = CPP_SYS_HEADER"

definition order_run :: "header_type list \<Rightarrow> include_state \<Rightarrow> include_state" where
  "order_run hs st = fold (\<lambda>h s. snd (CheckNextIncludeOrder h s)) hs st"

text \<open>The headers so far hold one of another module, or an own one after a system header.\<close>

definition past_system :: "header_type list \<Rightarrow> bool" where
  "past_system hs \<longleftrightarrow> OTHER_HEADER \<in> set hs
     \<or> (\<exists>a h b. hs = a @ h # b \<and> my_header h \<and> (\<exists>g \<in> set a. sys_header g))"

definition section_of :: "header_type list \<Rightarrow> header_section" where
  "section_of hs =
     (if past_system hs then OTHER_H_SECTION
      else if CPP_SYS_HEADER \<in> set hs then CPP_SECTION
      else if C_SYS_HEADER \<in> set hs then C_SECTION
      else if hs \<noteq> [] then MY_H_SECTION else INITIAL_SECTION)"

lemma past_system_snoc:
  "past_system (hs @ [h]) \<longleftrightarrow>
     past_system hs \<or> h = OTHER_HEADER \<or> my_header h \<and> (\<exists>g \<in> set hs. sys_header g)"
proof -
  have "(\<exists>a x b. hs @ [h] = a @ x # b \<and> P a x) \<longleftrightarrow> (\<exists>a x b. hs = a @ x # b \<and> P a x) \<or> P hs h" for P
  proof
    assume "\<exists>a x b. hs @ [h] = a @ x # b \<and> P a x"
    then obtain a x b where "hs @ [h] = a @ x # b" "P a x" by blast
    then show "(\<exists>a x b. hs = a @ x # b \<and> P a x) \<or> P hs h"
      by (cases b rule: rev_cases) auto
  next
    assume "(\<exists>a x b. hs = a @ x # b \<and> P a x) \<or> P hs h"
    then show "\<exists>a x b. hs @ [h] = a @ x # b \<and> P a x"
    proof
      assume "\<exists>a x b. hs = a @ x # b \<and> P a x"
      then obtain a x b where "hs = a @ x # b" "P a x" by blast
      then show ?thesis by (intro exI [of _ a] exI [of _ x] exI [of _ "b @ [h]"]) simp
    next
      assume "P hs h"
      then show ?thesis by (intro exI [of _ hs] exI [of _ h] exI [of _ "[]"]) simp
    qed
  qed
  from this [of "\<lambda>a x. my_header x \<and> (\<exists>g \<in> set a. sys_header g)"] show ?thesis
    unfolding past_system_def by auto
qed

lemma sect_step:
  "sect (snd (CheckNextIncludeOrder h st)) =
     (case h of
        C_SYS_HEADER \<Rightarrow> max (sect st) C_SECTION
      | CPP_SYS_HEADER \<Rightarrow> max (sect st) CPP_SECTION
      | OTHER_HEADER \<Rightarrow> OTHER_H_SECTION
      | _ \<Rightarrow> if sect st \<le> MY_H_SECTION then MY_H_SECTION else OTHER_H_SECTION)"
  by (auto simp: CheckNextIncludeOrder_def Let_def max_def split: header_type.split)

lemma message_iff:
  "fst (CheckNextIncludeOrder h st) \<noteq> [] \<longleftrightarrow>
     h = C_SYS_HEADER \<and> C_SECTION < sect st \<or> h = CPP_SYS_HEADER \<and> CPP_SECTION < sect st"
  by (auto simp: CheckNextIncludeOrder_def Let_def not_le split: header_type.split)

lemma sections_ordered [simp]:
  "INITIAL_SECTION \<le> s" "s \<le> OTHER_H_SECTION" "MY_H_SECTION \<le> C_SECTION" "C_SECTION \<le> CPP_SECTION"
  "MY_H_SECTION \<le> CPP_SECTION" "\<not> C_SECTION \<le> MY_H_SECTION" "\<not> CPP_SECTION \<le> MY_H_SECTION"
  "\<not> CPP_SECTION \<le> C_SECTION" "\<not> OTHER_H_SECTION \<le> MY_H_SECTION" "\<not> OTHER_H_SECTION \<le> C_SECTION"
  "\<not> OTHER_H_SECTION \<le> CPP_SECTION"
  by (simp_all add: less_eq_header_section_def) (cases s; simp)+

lemma sect_order_run: "sect (order_run hs IncludeState_init) = section_of hs"
proof (induction hs rule: rev_induct)
  case Nil
  show ?case by (simp add: order_run_def section_of_def past_system_def IncludeState_init_def)
next
  case (snoc h hs)
  have "sect (order_run (hs @ [h]) IncludeState_init) =
      sect (snd (CheckNextIncludeOrder h (order_run hs IncludeState_init)))"
    by (simp add: order_run_def)
  also have "\<dots> = section_of (hs @ [h])"
    unfolding sect_step snoc section_of_def past_system_snoc
    by (cases h) (auto simp: my_header_def sys_header_def max_def)
  finally show ?case .
qed

text \<open>C16: When a header is reported as out of order, in terms of the headers before it: a C++
  system header exactly when one of another module came before, or an own header after a system
  header; a C system header also when a C++ one came before; no other header ever. The section
  reached is a function of the headers seen, never moves back, and a report keeps it.\<close>

theorem include_order_history:
  "(fst (CheckNextIncludeOrder h (order_run hs IncludeState_init)) \<noteq> [] \<longleftrightarrow>
      h = CPP_SYS_HEADER \<and> past_system hs
      \<or> h = C_SYS_HEADER \<and> (past_system hs \<or> CPP_SYS_HEADER \<in> set hs))
   \<and> sect (order_run hs IncludeState_init) = section_of hs
   \<and> section_of hs \<le> section_of (hs @ [h])
   \<and> (fst (CheckNextIncludeOrder h (order_run hs IncludeState_init)) \<noteq> []
        \<longrightarrow> section_of (hs @ [h]) = section_of hs)"
proof -
  have mono: "section_of hs \<le> section_of (hs @ [h])"
    by (auto simp: section_of_def past_system_snoc)
  have msg: "fst (CheckNextIncludeOrder h (order_run hs IncludeState_init)) \<noteq> [] \<longleftrightarrow>
      h = CPP_SYS_HEADER \<and> past_system hs \<or> h = C_SYS_HEADER \<and> (past_system hs \<or> CPP_SYS_HEADER \<in> set hs)"
    unfolding message_iff sect_order_run not_le [symmetric] by (auto simp: section_of_def)
  show ?thesis
    unfolding msg using mono
    by (auto simp: sect_order_run section_of_def past_system_snoc my_header_def)
qed

theorem include_order_history_witness:
  "fst (CheckNextIncludeOrder C_SYS_HEADER (order_run [LIKELY_MY_HEADER, CPP_SYS_HEADER] IncludeState_init)) \<noteq> []"
  using include_order_history [of C_SYS_HEADER "[LIKELY_MY_HEADER, CPP_SYS_HEADER]"] by simp

section \<open>The order inside a section\<close>

fun alpha_run :: "ucd \<Rightarrow> ustr list \<Rightarrow> include_state \<Rightarrow> bool list" where
  "alpha_run db [] st = []"
| "alpha_run db (h # hs) st =
     (let (b, st') = IsInAlphabeticalOrder db h st in b # alpha_run db hs st')"

lemma length_alpha_run [simp]: "length (alpha_run db hs st) = length hs"
  by (induction hs arbitrary: st) (simp_all add: split_beta)

lemma alpha_step:
  "IsInAlphabeticalOrder db h st =
     (last_header st \<le> CanonicalizeAlphabeticalOrder db h,
      st\<lparr>last_header := max (last_header st) (CanonicalizeAlphabeticalOrder db h)\<rparr>)"
  by (auto simp: IsInAlphabeticalOrder_def Let_def max_def)



section \<open>The table of the includes\<close>

lemma check_new_include_state:
  assumes "snd (check_new_include e filename n include is_system st) = Ret st'"
  shows "included_at st' = included_at st @ [(include, AtLine (int n))]"
proof -
  have C: "included_at (snd (CheckNextIncludeOrder h s)) = included_at s"
    and A: "included_at (snd (IsInAlphabeticalOrder db h' s)) = included_at s" for h s db h'
    by (auto simp: CheckNextIncludeOrder_def Let_def alpha_step split: header_type.split)
  let ?st = "st\<lparr>included_at := included_at st @ [(include, AtLine (int n))]\<rparr>"
  from assms obtain h where "snd (let (error_message, st1) = CheckNextIncludeOrder h ?st in
        bnd (if error_message \<noteq> [] then
               bnd (lift (BaseName e filename)) (\<lambda>base.
                 error filename (int n) (u ''build/include_order'') 4
                   (error_message @ u ''. Should be: '' @ base @ u ''.h, c system, c++ system, other.''))
             else skip) (\<lambda>_.
        let (in_order, st2) = IsInAlphabeticalOrder (e_ucd e) include st1 in
        andthen
          (guard (\<not> in_order)
            (error filename (int n) (u ''build/include_alpha'') 4
               (u ''Include \"'' @ include @ u ''\" not in alphabetical order'')))
          (ok st2))) = Ret st'"
    unfolding check_new_include_def Let_def by (auto simp: snd_bnd_Ret)
  then have "st' = snd (IsInAlphabeticalOrder (e_ucd e) include (snd (CheckNextIncludeOrder h ?st)))"
    by (auto simp: Let_def split_beta snd_bnd_Ret snd_andthen_Ret)
  then show ?thesis by (simp add: A C)
qed

text \<open>C18: What an include line does to the table of includes. A line without an include
  changes nothing; a header that is already there is reported with the place of its first
  inclusion and changes nothing; any other is entered with the number of the line. So the table
  holds each header once, and keeps the line of the first inclusion.\<close>

theorem CheckIncludeLine_table:
  assumes "linenum < length (cl_lines cl)"
    and "CheckIncludeLine e filename cl linenum st = (fx, Ret st')"
  shows "(case Search RE_PATTERN_INCLUDE (cl_lines cl ! linenum) of
       None \<Rightarrow> st' = st
     | Some m \<Rightarrow>
         (case map_of (included_at st) (group_str m 2) of
            Some v \<Rightarrow> st' = st \<and>
              call filename (int linenum) (u ''build/include'') 4
                (u ''\"'' @ group_str m 2 @ u ''\" already included at '' @ filename @ u '':'' @ show_incl_at v)
              \<in> set fx
          | None \<Rightarrow> included_at st' = included_at st @ [(group_str m 2, AtLine (int linenum))]))
   \<and> (distinct (map fst (included_at st)) \<longrightarrow> distinct (map fst (included_at st')))
   \<and> (\<forall>h v. map_of (included_at st) h = Some v \<longrightarrow> map_of (included_at st') h = Some v)"
proof -
  let ?line = "cl_lines cl ! linenum"
  have line: "py_index (cl_lines cl) (int linenum) = Ret ?line" using assms(1) by simp
  have run: "snd (CheckIncludeLine e filename cl linenum st) = Ret st'"
    "fst (CheckIncludeLine e filename cl linenum st) = fx" using assms(2) by simp_all
  have entry: "case Search RE_PATTERN_INCLUDE ?line of
       None \<Rightarrow> st' = st
     | Some m \<Rightarrow>
         (case map_of (included_at st) (group_str m 2) of
            Some v \<Rightarrow> st' = st \<and>
              call filename (int linenum) (u ''build/include'') 4
                (u ''\"'' @ group_str m 2 @ u ''\" already included at '' @ filename @ u '':'' @ show_incl_at v)
              \<in> set fx
          | None \<Rightarrow> included_at st' = included_at st @ [(group_str m 2, AtLine (int linenum))])"
  proof (cases "Search RE_PATTERN_INCLUDE ?line")
    case None
    then show ?thesis
      using run(1) by (auto simp: CheckIncludeLine_def line snd_bnd_Ret snd_andthen_Ret)
  next
    case (Some m)
    show ?thesis
    proof (cases "map_of (included_at st) (group_str m 2)")
      case None
      then have "snd (check_new_include e filename linenum (group_str m 2) (group_str m 1 = u ''<'') st) = Ret st'"
        using run(1) Some
        by (auto simp: CheckIncludeLine_def line snd_bnd_Ret snd_andthen_Ret Let_def)
      from check_new_include_state [OF this] None Some show ?thesis by simp
    next
      fix v assume v: "map_of (included_at st) (group_str m 2) = Some v"
      show ?thesis
        using run Some v
        by (auto simp: CheckIncludeLine_def line snd_bnd_Ret snd_andthen_Ret Let_def
            fst_bnd fst_andthen)
    qed
  qed
  moreover have "map_of (included_at st) h = None \<Longrightarrow> h \<notin> fst ` set (included_at st)" for h
    by (simp add: map_of_eq_None_iff)
  ultimately show ?thesis
    by (auto split: option.splits simp: map_add_def)
qed

text \<open>A header that is included a second time.\<close>

theorem CheckIncludeLine_table_witness:
  "call (u ''a.c'') 1 (u ''build/include'') 4 (u ''\"m.h\" already included at a.c:0'')
     \<in> set (fst (CheckIncludeLine (example_env []) (u ''a.c'') (two_lines (u ''#include <m.h>'')) 1
           (IncludeState_init\<lparr>included_at := [(u ''m.h'', AtLine 0)]\<rparr>)))"
proof -
  let ?st = "IncludeState_init\<lparr>included_at := [(u ''m.h'', AtLine 0)]\<rparr>"
  let ?r = "CheckIncludeLine (example_env []) (u ''a.c'') (two_lines (u ''#include <m.h>'')) 1 ?st"
  have ok: "(case snd ?r of Ret st' \<Rightarrow> True | _ \<Rightarrow> False)" by code_simp
  then obtain st' where r: "?r = (fst ?r, Ret st')" by (cases "snd ?r") (auto simp: prod_eq_iff)
  have n: "1 < length (cl_lines (two_lines (u ''#include <m.h>'')))" by (simp add: two_lines_def)
  have m: "map_option (\<lambda>m. map_of (included_at ?st) (group_str m 2))
        (Search RE_PATTERN_INCLUDE (cl_lines (two_lines (u ''#include <m.h>'')) ! 1)) = Some (Some (AtLine 0))"
    "map_option (\<lambda>m. u ''\"'' @ group_str m 2 @ u ''\" already included at '' @ u ''a.c'' @ u '':'' @ show_incl_at (AtLine 0))
        (Search RE_PATTERN_INCLUDE (cl_lines (two_lines (u ''#include <m.h>'')) ! 1))
      = Some (u ''\"m.h\" already included at a.c:0'')"
    by code_simp+
  then obtain m where m1: "Search RE_PATTERN_INCLUDE (cl_lines (two_lines (u ''#include <m.h>'')) ! 1) = Some m"
    "map_of (included_at ?st) (group_str m 2) = Some (AtLine 0)"
    "u ''\"'' @ group_str m 2 @ u ''\" already included at '' @ u ''a.c'' @ u '':'' @ show_incl_at (AtLine 0)
      = u ''\"m.h\" already included at a.c:0''"
    by (cases "Search RE_PATTERN_INCLUDE (cl_lines (two_lines (u ''#include <m.h>'')) ! 1)") auto
  from CheckIncludeLine_table [OF n r, THEN conjunct1]
  show ?thesis unfolding m1(1) option.case m1(2) m1(3) by simp
qed

section \<open>Missing includes\<close>

lemma keys_setdefault: "fst ` set (setdefault k v m) = insert k (fst ` set m)"
  by (auto simp: setdefault_def)

definition includes_of :: "ustr list \<Rightarrow> ustr set" where
  "includes_of lines = {group_str m 2 | line m. line \<in> set lines
     \<and> Search RE_PATTERN_INCLUDE (CleanseComments line) = Some m}"

lemma keys_add_includes: "fst ` set (add_includes f n lines m) = fst ` set m \<union> includes_of lines"
  by (induction f n lines m rule: add_includes.induct)
    (auto simp: includes_of_def keys_setdefault split: option.split)

definition opened_for :: "env \<Rightarrow> ustr \<Rightarrow> ustr \<Rightarrow> ustr list option" where
  "opened_for e abs_filename header =
     (case FilesBelongToSameModule abs_filename header of
        (same, p) \<Rightarrow> if same then e_open e (p @ header) else None)"

lemma open_headers_keys:
  "open_headers e f hs m b = (m', b') \<Longrightarrow>
     fst ` set m' = fst ` set m \<union> (\<Union>h \<in> set hs. case opened_for e f h of None \<Rightarrow> {} | Some ls \<Rightarrow> includes_of ls)
     \<and> b' = (b \<or> (\<exists>h \<in> set hs. opened_for e f h \<noteq> None))"
proof (induction e f hs m b arbitrary: m' b' rule: open_headers.induct)
  case (1 e f m b)
  then show ?case by simp
next
  case (2 e f h hs m b)
  obtain same p where sp: "FilesBelongToSameModule f h = (same, p)" by fastforce
  show ?case
  proof (cases same)
    case False
    with 2 sp show ?thesis by (auto simp: opened_for_def)
  next
    case True
    obtain o1 m1 where up: "UpdateIncludeState e (p @ h) m = (o1, m1)" by fastforce
    have m1: "fst ` set m1 = fst ` set m \<union> (case opened_for e f h of None \<Rightarrow> {} | Some ls \<Rightarrow> includes_of ls)"
      "o1 = (opened_for e f h \<noteq> None)"
      using up sp True unfolding UpdateIncludeState_def opened_for_def
      by (cases "e_open e (p @ h)"; simp; metis keys_add_includes)+
    have "open_headers e f hs m1 (b \<or> o1) = (m', b')" using 2(3) sp True up by simp
    then show ?thesis using 2(1) [OF refl sp [symmetric] refl True refl up [symmetric]] m1 by auto
  qed
qed

text \<open>Iterating a dictionary visits each of its keys once, in some order.\<close>

definition order_ok :: "env \<Rightarrow> bool" where
  "order_ok e \<longleftrightarrow> (\<forall>ks. set (e_order e ks) = set ks)"

definition known_headers :: "env \<Rightarrow> ustr \<Rightarrow> include_state \<Rightarrow> ustr set" where
  "known_headers e abs_filename st = fst ` set (included_at st) \<union>
     (\<Union>h \<in> fst ` set (included_at st).
        case opened_for e abs_filename h of None \<Rightarrow> {} | Some ls \<Rightarrow> includes_of ls)"

text \<open>C19: What \<open>CheckForIncludeWhatYouUse\<close> reports, in whatever order the dictionaries
  are iterated. It never fails. For a C file of which no included header could be opened it reports
  nothing. Otherwise it reports exactly the headers that some line requires and that neither the
  file nor a header of the same module includes, each for the line and the name it was last
  required by.\<close>

theorem IncludeWhatYouUse_reports:
  fixes filename :: ustr and e :: env
  assumes "order_ok e"
  defines "abs_filename \<equiv> Sub (u ''_flymake`.c$'') (u ''.c'') (FullName e filename)"
  shows "snd (CheckForIncludeWhatYouUse e filename cl st) = Ret ()
   \<and> set (fst (CheckForIncludeWhatYouUse e filename cl st)) =
      (if endswith filename (u ''.c'')
          \<and> (\<forall>h \<in> fst ` set (included_at st). opened_for e abs_filename h = None)
       then {}
       else {call filename (int linenum) (u ''build/include_what_you_use'') 4
                 (u ''Add #include '' @ h @ u '' for '' @ template) | h linenum template.
               map_of (required_headers cl) h = Some (linenum, template)
               \<and> strip_header h \<notin> known_headers e abs_filename st})"
proof -
  obtain m b where open_h:
    "open_headers e abs_filename (e_order e (map fst (included_at st))) (included_at st) False = (m, b)"
    by fastforce
  have keys: "fst ` set m = known_headers e abs_filename st"
    "b = (\<exists>h \<in> fst ` set (included_at st). opened_for e abs_filename h \<noteq> None)"
    using open_headers_keys [OF open_h] assms(1) by (auto simp: order_ok_def known_headers_def)
  define body where "body h = (case map_of (required_headers cl) h of
                None \<Rightarrow> skip
              | Some (linenum, template) \<Rightarrow>
                  guard (strip_header h \<notin> fst ` set m)
                    (error filename (int linenum) (u ''build/include_what_you_use'') 4
                       (u ''Add #include '' @ h @ u '' for '' @ template)))" for h
  have C: "CheckForIncludeWhatYouUse e filename cl st =
      (if endswith filename (u ''.c'') \<and> \<not> b then skip
       else for_each (e_order e (map fst (required_headers cl))) body)"
    using open_h unfolding CheckForIncludeWhatYouUse_def abs_filename_def body_def by (simp add: Let_def)
  have tot: "\<forall>h \<in> set hs. total (body h)" for hs
    by (auto simp: body_def split: option.split prod.split)
  have body_set: "set (fst (body h)) = {call filename (int linenum) (u ''build/include_what_you_use'') 4
                 (u ''Add #include '' @ h @ u '' for '' @ template) | linenum template.
               map_of (required_headers cl) h = Some (linenum, template)
               \<and> strip_header h \<notin> known_headers e abs_filename st}" for h
    by (cases "map_of (required_headers cl) h") (auto simp: body_def keys(1) guard_def split: if_splits)
  have "set (fst (for_each hs body)) = {call filename (int linenum) (u ''build/include_what_you_use'') 4
                 (u ''Add #include '' @ h @ u '' for '' @ template) | h linenum template.
               h \<in> set hs \<and> map_of (required_headers cl) h = Some (linenum, template)
               \<and> strip_header h \<notin> known_headers e abs_filename st}" for hs
    unfolding fst_for_each [OF tot] set_concat set_map by (auto simp: body_set)
  moreover have "h \<in> set (e_order e (map fst (required_headers cl)))"
    if "map_of (required_headers cl) h = Some v" for h v
    using that assms(1) by (auto simp: order_ok_def dest!: map_of_SomeD intro: rev_image_eqI)
  ultimately have reports: "set (fst (for_each (e_order e (map fst (required_headers cl))) body)) =
      {call filename (int linenum) (u ''build/include_what_you_use'') 4
                 (u ''Add #include '' @ h @ u '' for '' @ template) | h linenum template.
               map_of (required_headers cl) h = Some (linenum, template)
               \<and> strip_header h \<notin> known_headers e abs_filename st}"
    by blast
  have "snd (for_each hs body) = Ret ()" for hs
    using tot by (intro total_unit) simp
  with C reports keys(2) show ?thesis by auto
qed

theorem IncludeWhatYouUse_reports_witness:
  "set (fst (CheckForIncludeWhatYouUse (example_env []) (u ''a.h'') (two_lines (u ''pair<a>'')) IncludeState_init))
     = {call (u ''a.h'') 1 (u ''build/include_what_you_use'') 4 (u ''Add #include <utility> for pair<>'')}"
proof -
  have e: "order_ok (example_env [])" by (simp add: order_ok_def example_env_def)
  have req: "required_headers (two_lines (u ''pair<a>'')) = [(u ''<utility>'', 1, u ''pair<>'')]"
    by code_simp
  have "known_headers (example_env []) f IncludeState_init = {}" for f
    by (simp add: known_headers_def IncludeState_init_def)
  moreover have "\<not> endswith (u ''a.h'') (u ''.c'')"
    "u ''Add #include '' @ u ''<utility>'' @ u '' for '' @ u ''pair<>'' = u ''Add #include <utility> for pair<>''"
    by code_simp+
  ultimately show ?thesis
    using IncludeWhatYouUse_reports [OF e, of "u ''a.h''" "two_lines (u ''pair<a>'')" IncludeState_init]
    by (simp add: req)
qed

end
