(* ===== verification/Language.thy ===== *)
theory Language
  imports Includes
begin

text \<open>
  The language checks of a line: references, casts, global strings, C types, functions that
  are discouraged, format strings, arrays of variable length and namespaces; with the
  extraction of the text between matching parentheses that the check of format strings uses.
\<close>

section \<open>The text inside of parentheses\<close>

definition matching_punctuation :: "uchar \<Rightarrow> uchar option" where
  "matching_punctuation c =
     (if c = 40 then Some 41 else if c = 123 then Some 125 else if c = 91 then Some 93 else None)"

definition closing_punctuation :: "uchar \<Rightarrow> bool" where
  "closing_punctuation c \<longleftrightarrow> c = 41 \<or> c = 125 \<or> c = 93"

text \<open>The loop: the stack of the closing characters expected, its top first.\<close>

fun punctuation_loop :: "uchar list \<Rightarrow> ustr \<Rightarrow> nat \<Rightarrow> nat option" where
  "punctuation_loop [] cs position = Some position"
| "punctuation_loop (d # stack) [] position = None"
| "punctuation_loop (d # stack) (c # cs) position =
     (if c = d then punctuation_loop stack cs (Suc position)
      else if closing_punctuation c then None
      else
        (case matching_punctuation c of
           Some d' \<Rightarrow> punctuation_loop (d' # d # stack) cs (Suc position)
         | None \<Rightarrow> punctuation_loop (d # stack) cs (Suc position)))"

text \<open>\<open>re.search(start_pattern, text, re.M)\<close>.\<close>

definition search_lines :: "ustr \<Rightarrow> ustr \<Rightarrow> mobj option" where
  "search_lines pattern content =
     (case re_compile False False True pattern of Some p \<Rightarrow> re_search p content | None \<Rightarrow> None)"

definition must_open :: exn where
  "must_open = AssertionError (u ''start_pattern must ends with an opening punctuation.'')"

definition GetTextInside :: "ustr \<Rightarrow> ustr \<Rightarrow> ustr option outcome" where
  "GetTextInside content start_pattern =
     (case search_lines start_pattern content of
        None \<Rightarrow> Ret None
      | Some m \<Rightarrow>
          let start_position = mo_end m in
          if start_position = 0 then Raise must_open
          else
            (case matching_punctuation (content ! (start_position - 1)) of
               None \<Rightarrow> Raise must_open
             | Some d \<Rightarrow>
                 (case punctuation_loop [d] (drop start_position content) start_position of
                    None \<Rightarrow> Ret None
                  | Some position \<Rightarrow>
                      Ret (Some (slice content (int start_position) (int (position - 1)))))))"

section \<open>References and casts\<close>

definition check_references :: "ustr \<Rightarrow> nat \<Rightarrow> ustr \<Rightarrow> unit chk" where
  "check_references filename linenum line =
     (let fnline = takeWhile (\<lambda>c. c \<noteq> 123) line in
      guard (length (FindAll (u ''`([^()]*`b(?:[`w:]|<[^()]*>)+(`s?&|&`s?)`w+'') fnline)
            > length (FindAll (u ''`([^()]*`bconst`s+(?:typename`s+)?(?:struct`s+)?(?:[`w:]|<[^()]*>)+(`s?&|&`s?)`w+'') fnline)
              + length (FindAll (u ''`([^()]*`b(?:[`w:]|<[^()]*>)+`s+const(`s?&|&`s?)[`w]+'') fnline)
          \<and> \<not> Searches (u ''(swap|Swap|operator[<>][<>])`s*`(`s*(?:[`w:]|<.*>)+`s*&'') fnline)
        (error filename (int linenum) (u ''runtime/references'') 2
           (u ''Is this a non-const reference? If so, make const or use a pointer.'')))"

definition check_function_casts :: "ustr \<Rightarrow> nat \<Rightarrow> ustr \<Rightarrow> unit chk" where
  "check_function_casts filename linenum line =
     (case Search (u ''(`bnew`s+)?`b(int|float|double|bool|char|int32|uint32|int64|uint64)`([^)]'') line of
        None \<Rightarrow> skip
      | Some m \<Rightarrow>
          guard (group m 1 = None
              \<and> \<not> (Matches (u ''^`s*MOCK_(CONST_)?METHOD`d+(_T)?`('') line
                   \<or> Matches (u ''^`s*MockCallback<.*>'') line))
            (error filename (int linenum) (u ''readability/casting'') 4
               (u ''Using deprecated casting style.  Use static_cast<'' @ group_str m 2
                @ u ''>(...) instead'')))"

text \<open>The function returns before its body.\<close>

definition CheckCStyleCast ::
    "ustr \<Rightarrow> nat \<Rightarrow> ustr \<Rightarrow> ustr \<Rightarrow> ustr \<Rightarrow> ustr \<Rightarrow> bool chk" where
  "CheckCStyleCast filename linenum line raw_line cast_type pattern = ok False"

definition check_c_casts :: "ustr \<Rightarrow> nat \<Rightarrow> ustr \<Rightarrow> ustr \<Rightarrow> unit chk" where
  "check_c_casts filename linenum line raw_line =
     bnd (CheckCStyleCast filename linenum line raw_line (u ''static_cast'')
            (u ''`((int|float|double|bool|char|u?int(16|32|64))`)'')) (\<lambda>_.
     bnd (CheckCStyleCast filename linenum line raw_line (u ''const_cast'')
            (u ''`((char`s?`*+`s?)`)`s*\"'')) (\<lambda>found.
     bnd (if found then ok False
          else CheckCStyleCast filename linenum line raw_line (u ''reinterpret_cast'')
                 (u ''`((`w+`s?`*+`s?)`)'')) (\<lambda>_.
     guard (Searches (u ''(&`([^)]+`)[`w(])|(&(static|dynamic|reinterpret)_cast`b)'') line)
       (error filename (int linenum) (u ''runtime/casting'') 4
          (u ''Are you taking an address of a cast?  This is dangerous: could be a temp var.  Take the address before doing the cast, rather than after'')))))"

section \<open>Declarations and types\<close>

definition check_global_strings :: "ustr \<Rightarrow> nat \<Rightarrow> ustr \<Rightarrow> unit chk" where
  "check_global_strings filename linenum line =
     (case Match (u ''((?:|static +)(?:|const +))string +([a-zA-Z0-9_:]+)`b(.*)'') line of
        None \<Rightarrow> skip
      | Some m \<Rightarrow>
          guard (\<not> Matches (u ''`s*(<.*>)?(::[a-zA-Z0-9_]+)?`s*`(([^\"]|$)'') (group_str m 3))
            (error filename (int linenum) (u ''runtime/string'') 4
               (u ''For a static/global string constant, use a C style string instead: \"''
                @ group_str m 1 @ u ''char '' @ group_str m 2 @ u ''[]\".'')))"

definition check_rtti_and_init :: "ustr \<Rightarrow> nat \<Rightarrow> ustr \<Rightarrow> unit chk" where
  "check_rtti_and_init filename linenum line =
     in_order
       [guard (Searches (u ''`bdynamic_cast<'') line \<and> \<not> IsTestFilename filename)
          (error filename (int linenum) (u ''runtime/rtti'') 5
             (u ''Do not use dynamic_cast<>.  If you need to cast within a class hierarchy, use static_cast<> to upcast.  Google doesn@t support RTTI.'')),
        guard (Searches (u ''`b([A-Za-z0-9_]*_)`(`1`)'') line)
          (error filename (int linenum) (u ''runtime/init'') 4
             (u ''You seem to be initializing a member variable with itself.''))]"

definition check_c_types :: "ustr \<Rightarrow> nat \<Rightarrow> ustr \<Rightarrow> unit chk" where
  "check_c_types filename linenum line =
     (if Searches (u ''`bshort port`b'') line then
        guard (\<not> Searches (u ''`bunsigned short port`b'') line)
          (error filename (int linenum) (u ''runtime/int'') 4
             (u ''Use \"unsigned short\" for ports, not \"short\"''))
      else
        (case Search (u ''`b(short|long(?! +double)|long long)`b'') line of
           None \<Rightarrow> skip
         | Some m \<Rightarrow>
             error filename (int linenum) (u ''runtime/int'') 4
               (u ''Use int16/int64/etc, rather than the C type '' @ group_str m 1)))"

section \<open>Functions that are discouraged\<close>

definition check_c_functions :: "ustr \<Rightarrow> nat \<Rightarrow> ustr \<Rightarrow> unit chk" where
  "check_c_functions filename linenum line =
     in_order
       [case Search (u ''snprintf`s*`(([^,]*),`s*([0-9]*)`s*,'') line of
          None \<Rightarrow> skip
        | Some m \<Rightarrow>
            guard (group_str m 2 \<noteq> u ''0'')
              (error filename (int linenum) (u ''runtime/printf'') 3
                 (u ''If you can, use sizeof('' @ group_str m 1 @ u '') instead of '' @ group_str m 2
                  @ u '' as the 2nd arg to snprintf.''))
       ,guard (Searches (u ''`bsprintf`b'') line)
          (error filename (int linenum) (u ''runtime/printf'') 5
             (u ''Never use sprintf.  Use snprintf instead.''))
       ,case Search (u ''`b(strcpy|strcat)`b'') line of
          None \<Rightarrow> skip
        | Some m \<Rightarrow>
            error filename (int linenum) (u ''runtime/printf'') 4
              (u ''Almost always, snprintf is better than '' @ group_str m 1)
       ,guard (Searches (u ''`bsscanf`b'') line)
          (error filename (int linenum) (u ''runtime/printf'') 1
             (u ''sscanf can be ok, but is slow and can overflow buffers.''))
       ,guard (Searches (u ''`boperator`s*&`s*`(`s*`)'') line)
          (error filename (int linenum) (u ''runtime/operator'') 4
             (u ''Unary operator& is dangerous.  Do not use it.''))
       ,guard (Searches (u ''`}`s*if`s*`('') line)
          (error filename (int linenum) (u ''readability/braces'') 4
             (u ''Did you mean \"else if\"? If not, start a new line for \"if\".''))]"

definition printf_pattern :: ustr where
  "printf_pattern = u ''(?i)`b(string)?printf`s*`(''"

text \<open>\<open>re.search(..., line, re.I).group(1)\<close>, an AttributeError when there is no match.\<close>

definition printf_name :: "ustr \<Rightarrow> ustr outcome" where
  "printf_name line =
     (case (case re_compile False True False (u ''`b((?:string)?printf)`s*`('') of
              Some p \<Rightarrow> re_search p line | None \<Rightarrow> None) of
        Some m \<Rightarrow> Ret (group_str m 1)
      | None \<Rightarrow> Raise (AttributeError (u ''group'')))"

definition check_format_string :: "ustr \<Rightarrow> nat \<Rightarrow> ustr \<Rightarrow> unit chk" where
  "check_format_string filename linenum line =
     bnd (lift (GetTextInside line printf_pattern)) (\<lambda>printf_args.
       case printf_args of
         None \<Rightarrow> skip
       | Some args \<Rightarrow>
           (case (if args = [] then None else Match (u ''([`w.`->()]+)$'') args) of
              None \<Rightarrow> skip
            | Some m \<Rightarrow>
                bnd (lift (printf_name line)) (\<lambda>function_name.
                  error filename (int linenum) (u ''runtime/printf'') 4
                    (u ''Potential format string bug. Do '' @ function_name @ u ''(\"%s\", ''
                     @ group_str m 1 @ u '') instead.''))))"

definition check_memset :: "ustr \<Rightarrow> nat \<Rightarrow> ustr \<Rightarrow> unit chk" where
  "check_memset filename linenum line =
     (case Search (u ''memset`s*`(([^,]*),`s*([^,]*),`s*0`s*`)'') line of
        None \<Rightarrow> skip
      | Some m \<Rightarrow>
          guard (\<not> Matches (u ''^@@|-?[0-9]+|0x[0-9A-Fa-f]$'') (group_str m 2))
            (error filename (int linenum) (u ''runtime/memset'') 4
               (u ''Did you mean \"memset('' @ group_str m 1 @ u '', 0, '' @ group_str m 2 @ u '')\"?'')))"

section \<open>Arrays of variable length\<close>

text \<open>What remains of a token of the size without the parentheses around it.\<close>

definition bare_token :: "ustr \<Rightarrow> ustr" where
  "bare_token tok = rstrip_of (\<lambda>c. c = 41) (lstrip_of (\<lambda>c. c = 40) tok)"

definition constant_token :: "ustr \<Rightarrow> bool" where
  "constant_token tok \<longleftrightarrow>
     tok = [] \<or> Matches (u ''`d+'') tok \<or> Matches (u ''0[xX][0-9a-fA-F]+'') tok
     \<or> Matches (u ''k[A-Z0-9]`w*'') tok \<or> Matches (u ''(.+::)?k[A-Z0-9]`w*'') tok
     \<or> Matches (u ''(.+::)?[A-Z][A-Z0-9_]*'') tok"

fun is_const :: "ustr list \<Rightarrow> bool \<Rightarrow> bool" where
  "is_const [] skip_next = True"
| "is_const (tok # toks) skip_next =
     (if skip_next then is_const toks False
      else if Searches (u ''sizeof`(.+`)'') tok \<or> Searches (u ''arraysize`(`w+`)'') tok
        then is_const toks False
      else if constant_token (bare_token tok) then is_const toks False
      else if startswith (bare_token tok) (u ''sizeof'') then is_const toks True
      else False)"

definition size_tokens :: "ustr \<Rightarrow> ustr list" where
  "size_tokens bound_expr = Split (u ''`s|`+|`-|`*|`/|<<|>>]'') bound_expr"

definition check_array_size :: "ustr \<Rightarrow> nat \<Rightarrow> ustr \<Rightarrow> unit chk" where
  "check_array_size filename linenum line =
     (case Match (u ''`s*(.+::)?(`w+) [a-z]`w*`[(.+)];'') line of
        None \<Rightarrow> skip
      | Some m \<Rightarrow>
          guard (group_str m 2 \<noteq> u ''return'' \<and> group_str m 2 \<noteq> u ''delete''
              \<and> py_find (group_str m 3) (u '']'') = - 1
              \<and> \<not> is_const (size_tokens (group_str m 3)) False)
            (error filename (int linenum) (u ''runtime/arrays'') 1
               (u ''Do not use variable-length arrays.  Use an appropriately named (@k@ followed by CamelCase) compile-time constant for the size.'')))"

section \<open>Classes and namespaces\<close>

definition check_disallow :: "ustr \<Rightarrow> cleansed \<Rightarrow> nat \<Rightarrow> ustr \<Rightarrow> unit chk" where
  "check_disallow filename cl linenum line =
     (case Match (u ''`s*(DISALLOW_(EVIL_CONSTRUCTORS|COPY_AND_ASSIGN|IMPLICIT_CONSTRUCTORS))`(.*`);$'') line of
        None \<Rightarrow> skip
      | Some m \<Rightarrow>
          guard (linenum + 1 < NumLines cl)
            (bnd (lift (py_index (cl_elided cl) (int (linenum + 1)))) (\<lambda>next_line.
               guard (\<not> Searches (u ''^`s*}[`w`*,`s]*;'') next_line)
                 (error filename (int linenum) (u ''readability/constructors'') 3
                    (group_str m 1 @ u '' should be the last thing in the class'')))))"

definition check_namespaces :: "ustr \<Rightarrow> nat \<Rightarrow> ustr \<Rightarrow> ustr \<Rightarrow> unit chk" where
  "check_namespaces filename linenum file_extension line =
     guard (file_extension = u ''h'' \<and> Searches (u ''`bnamespace`s*{'') line \<and> last line \<noteq> 92)
       (error filename (int linenum) (u ''build/namespaces'') 4
          (u ''Do not use unnamed namespaces in header files.  See http://google-styleguide.googlecode.com/svn/trunk/cppguide.xml#Namespaces for more information.''))"

definition check_using :: "ustr \<Rightarrow> nat \<Rightarrow> ustr \<Rightarrow> unit chk" where
  "check_using filename linenum line =
     guard (Searches (u ''`busing namespace`b'') line)
       (error filename (int linenum) (u ''build/namespaces'') 5
          (u ''Do not use namespace using-directives.  Use using-declarations instead.''))"

section \<open>The check of a line\<close>

definition CheckLanguage ::
    "env \<Rightarrow> ustr \<Rightarrow> cleansed \<Rightarrow> nat \<Rightarrow> ustr \<Rightarrow> include_state \<Rightarrow> include_state chk" where
  "CheckLanguage e filename cl linenum file_extension st =
     bnd (lift (py_index (cl_elided cl) (int linenum))) (\<lambda>line.
       if line = [] then ok st
       else if Searches RE_PATTERN_INCLUDE line then CheckIncludeLine e filename cl linenum st
       else
         bnd (lift (py_index (cl_raw cl) (int linenum))) (\<lambda>raw_line.
         andthen
           (in_order
             [check_references filename linenum line,
              check_function_casts filename linenum line,
              check_c_casts filename linenum line raw_line,
              check_global_strings filename linenum line,
              check_rtti_and_init filename linenum line,
              check_c_types filename linenum line,
              check_c_functions filename linenum line,
              check_format_string filename linenum line,
              check_memset filename linenum line,
              check_using filename linenum line,
              check_array_size filename linenum line,
              check_disallow filename cl linenum line,
              check_namespaces filename linenum file_extension line])
           (ok st)))"

text \<open>Every pattern the checks above use is well formed.\<close>

lemma language_patterns_compile:
  "list_all (\<lambda>p. compile (u p) \<noteq> None)
    [''`([^()]*`b(?:[`w:]|<[^()]*>)+(`s?&|&`s?)`w+'',
     ''`([^()]*`bconst`s+(?:typename`s+)?(?:struct`s+)?(?:[`w:]|<[^()]*>)+(`s?&|&`s?)`w+'',
     ''`([^()]*`b(?:[`w:]|<[^()]*>)+`s+const(`s?&|&`s?)[`w]+'',
     ''(swap|Swap|operator[<>][<>])`s*`(`s*(?:[`w:]|<.*>)+`s*&'',
     ''(`bnew`s+)?`b(int|float|double|bool|char|int32|uint32|int64|uint64)`([^)]'',
     ''^`s*MOCK_(CONST_)?METHOD`d+(_T)?`('',
     ''^`s*MockCallback<.*>'',
     ''(&`([^)]+`)[`w(])|(&(static|dynamic|reinterpret)_cast`b)'',
     ''((?:|static +)(?:|const +))string +([a-zA-Z0-9_:]+)`b(.*)'',
     ''`s*(<.*>)?(::[a-zA-Z0-9_]+)?`s*`(([^\"]|$)'',
     ''`bdynamic_cast<'',
     ''`b([A-Za-z0-9_]*_)`(`1`)'',
     ''`bshort port`b'',
     ''`bunsigned short port`b'',
     ''`b(short|long(?! +double)|long long)`b'',
     ''snprintf`s*`(([^,]*),`s*([0-9]*)`s*,'',
     ''`bsprintf`b'',
     ''`b(strcpy|strcat)`b'',
     ''`bsscanf`b'',
     ''`boperator`s*&`s*`(`s*`)'',
     ''`}`s*if`s*`('',
     ''([`w.`->()]+)$'',
     ''memset`s*`(([^,]*),`s*([^,]*),`s*0`s*`)'',
     ''^@@|-?[0-9]+|0x[0-9A-Fa-f]$'',
     ''`d+'',
     ''0[xX][0-9a-fA-F]+'',
     ''k[A-Z0-9]`w*'',
     ''(.+::)?k[A-Z0-9]`w*'',
     ''(.+::)?[A-Z][A-Z0-9_]*'',
     ''sizeof`(.+`)'',
     ''arraysize`(`w+`)'',
     ''`s|`+|`-|`*|`/|<<|>>]'',
     ''`s*(.+::)?(`w+) [a-z]`w*`[(.+)];'',
     ''`s*(DISALLOW_(EVIL_CONSTRUCTORS|COPY_AND_ASSIGN|IMPLICIT_CONSTRUCTORS))`(.*`);$'',
     ''^`s*}[`w`*,`s]*;'',
     ''`bnamespace`s*{'',
     ''`busing namespace`b'']"
  by code_simp

lemma printf_patterns_compile:
  "re_compile False False True printf_pattern \<noteq> None"
  "re_compile False True False (u ''`b((?:string)?printf)`s*`('') \<noteq> None"
  by code_simp+

section \<open>Balanced text\<close>

inductive balanced :: "ustr \<Rightarrow> bool" where
  empty: "balanced []"
| plain: "matching_punctuation c = None \<Longrightarrow> \<not> closing_punctuation c \<Longrightarrow> balanced w \<Longrightarrow> balanced (c # w)"
| nest: "matching_punctuation c = Some d \<Longrightarrow> balanced v \<Longrightarrow> balanced w \<Longrightarrow> balanced (c # v @ d # w)"

text \<open>Text that brings a stack of expected characters to its end.\<close>

inductive closes :: "uchar list \<Rightarrow> ustr \<Rightarrow> bool" where
  finish: "closes [] []"
| pop: "balanced w \<Longrightarrow> closes stack v \<Longrightarrow> closes (d # stack) (w @ d # v)"

inductive_cases closes_NilE: "closes [] v"
inductive_cases closes_ConsE: "closes (d # stack) v"

lemma matching_closes: "matching_punctuation c = Some d \<Longrightarrow> closing_punctuation d \<and> \<not> closing_punctuation c"
  by (auto simp: matching_punctuation_def closing_punctuation_def split: if_splits)

lemma loop_balanced:
  "balanced w \<Longrightarrow> closing_punctuation d \<Longrightarrow>
     punctuation_loop (d # stack) (w @ r) k = punctuation_loop (d # stack) r (k + length w)"
proof (induction w arbitrary: d stack r k rule: balanced.induct)
  case empty
  then show ?case by simp
next
  case (plain c w)
  then show ?case by auto
next
  case (nest c e v w)
  then have c: "c \<noteq> d" "\<not> closing_punctuation c" "closing_punctuation e"
    using matching_closes [of c e] by auto
  have "punctuation_loop (e # d # stack) (v @ e # w @ r) (Suc k)
      = punctuation_loop (e # d # stack) (e # w @ r) (Suc k + length v)"
    by (rule nest.IH(1) [OF c(3)])
  also have "\<dots> = punctuation_loop (d # stack) (w @ r) (Suc (Suc k + length v))" by simp
  also have "\<dots> = punctuation_loop (d # stack) r (Suc (Suc k + length v) + length w)"
    by (rule nest.IH(2) [OF nest.prems])
  finally show ?case using c nest.hyps by (simp add: add.assoc)
qed

lemma loop_closes:
  "closes stack v \<Longrightarrow> list_all closing_punctuation stack \<Longrightarrow>
     punctuation_loop stack (v @ r) k = Some (k + length v)"
proof (induction stack v arbitrary: k rule: closes.induct)
  case finish
  then show ?case by simp
next
  case (pop w stack v d)
  then show ?case using loop_balanced [OF pop.hyps(1), of d stack "d # v @ r" k] by simp
qed

lemma closes_plain:
  assumes "closes (d # stack) v" "matching_punctuation c = None" "\<not> closing_punctuation c"
  shows "closes (d # stack) (c # v)"
  using assms(1)
proof (rule closes_ConsE)
  fix w u assume "v = w @ d # u" "balanced w" "closes stack u"
  with assms(2,3) closes.pop [of "c # w" stack u d] show ?thesis by (simp add: balanced.plain)
qed

lemma closes_nest:
  assumes "closes (e # d # stack) v" "matching_punctuation c = Some e"
  shows "closes (d # stack) (c # v)"
  using assms(1)
proof (rule closes_ConsE)
  fix w u assume w: "v = w @ e # u" "balanced w" and "closes (d # stack) u"
  from this(3) show ?thesis
  proof (rule closes_ConsE)
    fix w' u' assume "u = w' @ d # u'" "balanced w'" "closes stack u'"
    with w assms(2) closes.pop [of "c # w @ e # w'" stack u' d] show ?thesis
      by (simp add: balanced.nest)
  qed
qed

lemma loop_sound:
  "punctuation_loop stack cs k = Some p \<Longrightarrow> \<exists>v r. cs = v @ r \<and> p = k + length v \<and> closes stack v"
proof (induction stack cs k rule: punctuation_loop.induct)
  case (1 cs position)
  then show ?case by (auto intro: closes.finish)
next
  case (2 d stack position)
  then show ?case by simp
next
  case (3 d stack c cs position)
  consider (same) "c = d" | (opens) e where "c \<noteq> d" "\<not> closing_punctuation c" "matching_punctuation c = Some e"
    | (other) "c \<noteq> d" "\<not> closing_punctuation c" "matching_punctuation c = None"
    using "3.prems" by (auto split: if_splits option.splits)
  then show ?case
  proof cases
    case same
    with 3 obtain v r where "cs = v @ r" "p = Suc position + length v" "closes stack v" by auto
    with same closes.pop [OF balanced.empty, of stack v d] show ?thesis
      by (intro exI [of _ "d # v"] exI [of _ r]) simp
  next
    case opens
    with 3 obtain v r where "cs = v @ r" "p = Suc position + length v" "closes (e # d # stack) v" by auto
    with opens closes_nest show ?thesis by (intro exI [of _ "c # v"] exI [of _ r]) simp
  next
    case other
    with 3 obtain v r where "cs = v @ r" "p = Suc position + length v" "closes (d # stack) v" by auto
    with other closes_plain show ?thesis by (intro exI [of _ "c # v"] exI [of _ r]) simp
  qed
qed

lemma closes_one: "closes [d] v \<longleftrightarrow> (\<exists>w. v = w @ [d] \<and> balanced w)"
  by (auto elim!: closes_ConsE closes_NilE dest: closes.pop [OF _ closes.finish])

text \<open>C31: The text extracted after a match that ends in an opening character is the balanced
  text before the closing character that belongs to it, whatever brackets it holds, and nothing is
  extracted exactly when there is no such text. A match that does not end in an opening
  character is an AssertionError, and without a match there is no text.\<close>

theorem GetTextInside_balanced:
  "(search_lines pattern content = None \<longrightarrow> GetTextInside content pattern = Ret None)
   \<and> (\<forall>m. search_lines pattern content = Some m \<longrightarrow>
        (if mo_end m = 0 \<or> matching_punctuation (content ! (mo_end m - 1)) = None
         then GetTextInside content pattern = Raise must_open
         else \<exists>r. GetTextInside content pattern = Ret r
           \<and> (\<forall>w. r = Some w \<longleftrightarrow>
                (\<exists>d rest. matching_punctuation (content ! (mo_end m - 1)) = Some d
                  \<and> drop (mo_end m) content = w @ d # rest \<and> balanced w))))"
proof (intro conjI allI impI)
  assume "search_lines pattern content = None"
  then show "GetTextInside content pattern = Ret None" by (simp add: GetTextInside_def)
next
  fix m assume m: "search_lines pattern content = Some m"
  let ?k = "mo_end m" and ?rest = "drop (mo_end m) content"
  show "if ?k = 0 \<or> matching_punctuation (content ! (?k - 1)) = None
         then GetTextInside content pattern = Raise must_open
         else \<exists>r. GetTextInside content pattern = Ret r
           \<and> (\<forall>w. r = Some w \<longleftrightarrow> (\<exists>d rest. matching_punctuation (content ! (?k - 1)) = Some d
                  \<and> ?rest = w @ d # rest \<and> balanced w))"
  proof (cases "?k = 0 \<or> matching_punctuation (content ! (?k - 1)) = None")
    case True
    then show ?thesis by (auto simp: GetTextInside_def m Let_def)
  next
    case False
    then obtain d where d: "matching_punctuation (content ! (?k - 1)) = Some d" "?k \<noteq> 0" by auto
    define r where "r = (case punctuation_loop [d] ?rest ?k of
        None \<Rightarrow> None | Some p \<Rightarrow> Some (slice content (int ?k) (int (p - 1))))"
    have G: "GetTextInside content pattern = Ret r"
      using d by (auto simp: GetTextInside_def m r_def Let_def split: option.split)
    have sl: "slice content (int ?k) (int (?k + length w)) = w" if "?rest = w @ d # u" for w u
    proof -
      have "drop ?k (take (?k + length w) content) = take (length w) ?rest" by (simp add: drop_take)
      then show ?thesis unfolding slice_nat that by simp
    qed
    have "r = Some w \<longleftrightarrow> (\<exists>u. ?rest = w @ d # u \<and> balanced w)" for w
    proof
      assume "r = Some w"
      then obtain p where p: "punctuation_loop [d] ?rest ?k = Some p"
        "w = slice content (int ?k) (int (p - 1))"
        by (auto simp: r_def split: option.splits)
      from loop_sound [OF p(1)] obtain v u where "?rest = v @ u" "p = ?k + length v" "closes [d] v" by blast
      moreover from this(3) obtain w' where "v = w' @ [d]" "balanced w'" by (auto simp: closes_one)
      ultimately have "?rest = w' @ d # u" "p - 1 = ?k + length w'" "balanced w'" by simp_all
      then show "\<exists>u. ?rest = w @ d # u \<and> balanced w" using p(2) sl [of w' u] by auto
    next
      assume "\<exists>u. ?rest = w @ d # u \<and> balanced w"
      then obtain u where u: "?rest = w @ d # u" "balanced w" by blast
      have "closes [d] (w @ [d])" using u(2) by (auto simp: closes_one)
      moreover have "list_all closing_punctuation [d]" using matching_closes [OF d(1)] by simp
      ultimately have "punctuation_loop [d] ?rest ?k = Some (?k + length (w @ [d]))"
        using loop_closes [of "[d]" "w @ [d]" u ?k] u(1) by simp
      then show "r = Some w" using sl [OF u(1)] by (simp add: r_def)
    qed
    with G d show ?thesis by auto
  qed
qed

theorem GetTextInside_balanced_witness:
  "GetTextInside (u ''f(a(),b[1]);'') (u ''f`('') = Ret (Some (u ''a(),b[1]''))"
proof -
  let ?s = "u ''f(a(),b[1]);''" and ?p = "u ''f`(''"
  have m: "map_option mo_end (search_lines ?p ?s) = Some 2" by code_simp
  then obtain m where m: "search_lines ?p ?s = Some m" "mo_end m = 2" by auto
  have d: "matching_punctuation (?s ! 1) = Some 41" by code_simp
  have "drop 2 ?s = u ''a(),b[1]'' @ 41 # u '';''" by code_simp
  moreover have "balanced (u ''a(),b[1]'')"
  proof -
    have "balanced (91 # [49] @ 93 # [])"
      by (intro balanced.nest balanced.plain balanced.empty)
        (simp_all add: matching_punctuation_def closing_punctuation_def)
    then have "balanced (40 # [] @ 41 # 44 # 98 # 91 # [49] @ 93 # [])"
      by (intro balanced.nest [of 40] balanced.plain [of 44] balanced.plain [of 98] balanced.empty)
        (simp_all add: matching_punctuation_def closing_punctuation_def)
    then show ?thesis
      using balanced.plain [of 97 "[40, 41, 44, 98, 91, 49, 93]"]
      by (simp add: u_Cons uchar_of_def matching_punctuation_def closing_punctuation_def)
  qed
  ultimately have b: "\<exists>d rest. matching_punctuation (?s ! (mo_end m - 1)) = Some d
      \<and> drop (mo_end m) ?s = u ''a(),b[1]'' @ d # rest \<and> balanced (u ''a(),b[1]'')"
    using d m(2) by auto
  have "\<not> (mo_end m = 0 \<or> matching_punctuation (?s ! (mo_end m - 1)) = None)"
    using d m(2) by simp
  from GetTextInside_balanced [THEN conjunct2, THEN spec, THEN mp, OF m(1), unfolded if_not_P [OF this]]
  obtain r where "GetTextInside ?s ?p = Ret r" "r = Some (u ''a(),b[1]'')" using b by blast
  then show ?thesis by simp
qed

section \<open>Right shifts in the size of an array\<close>

lemma compile_separators [compiled]:
  "compile (u ''`s|`+|`-|`*|`/|<<|>>]'') = Some (no_flags,
     RAlt (RSet False [CCat Space]) (RAlt (RLit 43) (RAlt (RLit 45) (RAlt (RLit 42) (RAlt (RLit 47)
       (RAlt (RSeq (RLit 60) (RLit 60)) (RSeq (RLit 62) (RSeq (RLit 62) (RLit 93)))))))))"
  by code_simp

lemma compile_digits [compiled]:
  "compile (u ''`d+'') = Some (no_flags, RPlus (RSet False [CCat Digit]))"
  by code_simp

definition separator_free :: "ustr \<Rightarrow> bool" where
  "separator_free s \<longleftrightarrow> list_all (\<lambda>c. \<not> is_space c \<and> c \<notin> set (u ''+-*/<]'')) s"

lemma size_tokens_one:
  assumes "separator_free s"
  shows "size_tokens s = [s]"
proof -
  let ?r = "RAlt (RSet False [CCat Space]) (RAlt (RLit 43) (RAlt (RLit 45) (RAlt (RLit 42) (RAlt (RLit 47)
       (RAlt (RSeq (RLit 60) (RLit 60)) (RSeq (RLit 62) (RSeq (RLit 62) (RLit 93))))))))"
  have cls: "set_match no_flags False [CCat Space] = is_space" by (auto simp: set_match_def)
  have hit: "\<exists>c \<in> set w. is_space c \<or> c \<in> set (u ''+-*/<]'')" if "w \<in> lang no_flags ?r" for w
    using that unfolding lang.simps Un_iff conc_single mem_Collect_eq cls
    by (elim disjE exE conjE) (simp_all add: u_Cons uchar_of_def)
  have "re_search (no_flags, ?r) s = None"
  proof (rule ccontr)
    assume "re_search (no_flags, ?r) s \<noteq> None"
    moreover have "regular (snd (no_flags, ?r))" by simp
    ultimately obtain a w b where "s = a @ w @ b" "w \<in> lang (fst (no_flags, ?r)) (snd (no_flags, ?r))"
      using re_search_iff_lang by blast
    with hit [of w] obtain c where "c \<in> set s" "is_space c \<or> c \<in> set (u ''+-*/<]'')" by fastforce
    with assms show False unfolding separator_free_def list_all_iff by blast
  qed
  then have "finditer (no_flags, ?r) s = []" by (simp add: finditer_def re_search_def)
  then show ?thesis by (simp add: size_tokens_def Split_def compile_separators re_split_def)
qed

lemma digit_token_constant:
  assumes "is_digit c"
  shows "constant_token (bare_token (c # s))"
proof -
  have c: "c \<noteq> 40" "c \<noteq> 41" using assms by (auto simp: is_digit_def)
  have "dropWhile (\<lambda>x. x = 41) (rev s @ [c]) = dropWhile (\<lambda>x. x = 41) (rev s) @ [c]"
    using c(2) by (induction "rev s") (auto simp: dropWhile_append3 dropWhile_append split: if_splits)
  then obtain t where t: "bare_token (c # s) = c # t"
    using c by (auto simp: bare_token_def lstrip_of_def rstrip_of_def)
  have cls: "set_match no_flags False [CCat Digit] = is_digit" by (auto simp: set_match_def)
  have "[c] \<in> lang no_flags (RPlus (RSet False [CCat Digit]))"
    unfolding lang_rep_set cls using assms by simp
  moreover have "c # t = [c] @ t" by simp
  ultimately have "Matches (u ''`d+'') (c # t)"
    using re_match_iff_lang [of "(no_flags, RPlus (RSet False [CCat Digit]))" "c # t"]
    unfolding Matches_def Match_def compile_digits by (metis fst_conv option.case(2) regular.simps(2,11) snd_conv)
  then show ?thesis unfolding t constant_token_def by simp
qed



end
