(* ===== verification/Process.thy ===== *)
theory Process
  imports LintState
begin

text \<open>
  The program as a process: a computation that reads and writes the module's state and the
  standard error stream, and that may raise an exception or never return. What was written and
  stored before an exception stays. The effects a check asked for are performed here.
\<close>

section \<open>Computations on the state of the module\<close>

type_synonym 'a proc = "world \<Rightarrow> 'a outcome \<times> world"

definition pret :: "'a \<Rightarrow> 'a proc" where
  "pret x w = (Ret x, w)"

definition praise :: "exn \<Rightarrow> 'a proc" where
  "praise e w = (Raise e, w)"

definition pbind :: "'a proc \<Rightarrow> ('a \<Rightarrow> 'b proc) \<Rightarrow> 'b proc" where
  "pbind m f w =
     (case m w of
        (Ret x, w') \<Rightarrow> f x w'
      | (Raise e, w') \<Rightarrow> (Raise e, w')
      | (Diverge, w') \<Rightarrow> (Diverge, w'))"

definition pthen :: "unit proc \<Rightarrow> 'b proc \<Rightarrow> 'b proc" where
  "pthen m k = pbind m (\<lambda>_. k)"

definition write_err :: "ustr \<Rightarrow> unit proc" where
  "write_err s w = (Ret (), w\<lparr>err_out := err_out w @ [s]\<rparr>)"

definition get_state :: "lint_state proc" where
  "get_state w = (Ret (cpplint_state w), w)"

definition on_state :: "(lint_state \<Rightarrow> lint_state) \<Rightarrow> unit proc" where
  "on_state f w = (Ret (), w\<lparr>cpplint_state := f (cpplint_state w)\<rparr>)"

text \<open>The effects of a check, one after the other, then its outcome.\<close>

fun perform :: "effect list \<Rightarrow> unit proc" where
  "perform [] w = (Ret (), w)"
| "perform (e # es) w =
     (case apply_effect e w of
        Ret w' \<Rightarrow> perform es w'
      | Raise x \<Rightarrow> (Raise x, w)
      | Diverge \<Rightarrow> (Diverge, w))"

definition run_chk :: "'a chk \<Rightarrow> 'a proc" where
  "run_chk m = pbind (perform (fst m)) (\<lambda>_ w. (snd m, w))"

section \<open>How they compute\<close>

named_theorems proc_simps \<open>how computations compute\<close>

lemma pbind_simps [proc_simps]:
  "m w = (Ret x, w') \<Longrightarrow> pbind m f w = f x w'"
  "m w = (Raise e, w') \<Longrightarrow> pbind m f w = (Raise e, w')"
  "m w = (Diverge, w') \<Longrightarrow> pbind m f w = (Diverge, w')"
  by (simp_all add: pbind_def)

lemma pbind_pret [simp, proc_simps]: "pbind (pret x) f = f x"
  by (rule ext) (simp add: pbind_def pret_def)

lemma pbind_praise [simp, proc_simps]: "pbind (praise e) f = praise e"
  by (rule ext) (simp add: pbind_def praise_def)

lemma pbind_write_err [proc_simps]: "pbind (write_err s) f w = f () (w\<lparr>err_out := err_out w @ [s]\<rparr>)"
  by (simp add: pbind_def write_err_def)

lemma pbind_on_state [proc_simps]:
  "pbind (on_state g) f w = f () (w\<lparr>cpplint_state := g (cpplint_state w)\<rparr>)"
  by (simp add: pbind_def on_state_def)

lemma pbind_get_state [proc_simps]: "pbind get_state f w = f (cpplint_state w) w"
  by (simp add: pbind_def get_state_def)

lemma pbind_Ret_iff:
  "pbind m f w = (Ret y, w'') \<longleftrightarrow> (\<exists>x w'. m w = (Ret x, w') \<and> f x w' = (Ret y, w''))"
  by (cases "m w"; cases "fst (m w)") (auto simp: pbind_def)

lemma pthen_Ret_iff:
  "pthen m k w = (Ret y, w'') \<longleftrightarrow> (\<exists>w'. m w = (Ret (), w') \<and> k w' = (Ret y, w''))"
  by (auto simp: pthen_def pbind_Ret_iff)

lemma perform_apply:
  "apply_effects es w = Ret w' \<Longrightarrow> perform es w = (Ret (), w')"
  unfolding apply_effects_def by (induction es arbitrary: w) (auto elim: bind_out.elims)

text \<open>
  With filters that were checked, the effects never fail: a check ends as it ends by itself,
  and each line it prints is one counted error.
\<close>

lemma run_chk_ok:
  assumes "filters_ok w"
  obtains w' where "run_chk m w = (snd m, w')" "filters_ok w'" "grows w w'"
    "apply_effects (fst m) w = Ret w'"
proof -
  from handler.run_ok [OF assms, of "fst m"] obtain w' where
    w': "apply_effects (fst m) w = Ret w'" "filters_ok w'" "grows w w'"
    unfolding apply_effects_def by blast
  then have "run_chk m w = (snd m, w')"
    by (simp add: run_chk_def pbind_def perform_apply)
  with w' that show thesis by blast
qed

text \<open>The status a process ends with: an exception that is not caught ends it with 1.\<close>

fun exit_status :: "'a outcome \<Rightarrow> int option" where
  "exit_status (Ret x) = Some 0"
| "exit_status (Raise (SystemExit (Code n))) = Some n"
| "exit_status (Raise e) = Some 1"
| "exit_status Diverge = None"

end
