(* ===== verification/Options.thy ===== *)
theory Options
  imports Process
begin

text \<open>
  The command line: the long options of \<open>getopt.getopt\<close> (Python 2.7), \<open>int\<close> of a string,
  the usage text, and \<open>_ParseArguments\<close> with its settings of the module's state.
\<close>

section \<open>int and getopt\<close>

text \<open>\<open>int(s)\<close> of a byte string: blanks, a sign, decimal digits, blanks.\<close>

definition number_of :: "ustr \<Rightarrow> nat" where
  "number_of ds = nat (fold (\<lambda>d n. 10 * n + (d - 48)) ds 0)"

definition py_int :: "ustr \<Rightarrow> int option" where
  "py_int s =
     (let t = byte_strip s;
          (neg, ds) = (case t of
              c # cs \<Rightarrow> if c = 45 then (True, cs) else if c = 43 then (False, cs) else (False, t)
            | [] \<Rightarrow> (False, []))
      in if ds \<noteq> [] \<and> list_all is_digit ds
         then Some (if neg then - int (number_of ds) else int (number_of ds)) else None)"

definition long_has_args :: "ustr \<Rightarrow> ustr list \<Rightarrow> (bool \<times> ustr) option" where
  "long_has_args opt longopts =
     (let possibilities = filter (\<lambda>o'. startswith o' opt) longopts in
      if possibilities = [] then None
      else if opt \<in> set possibilities then Some (False, opt)
      else if opt @ u ''='' \<in> set possibilities then Some (True, opt)
      else if 1 < length possibilities then None
      else
        (let unique_match = hd possibilities in
         if endswith unique_match (u ''='') then Some (True, butlast unique_match)
         else Some (False, unique_match)))"

text \<open>The option's name and its value, if it was written with an equals sign.\<close>

definition split_option :: "ustr \<Rightarrow> ustr \<times> ustr option" where
  "split_option opt =
     (if 61 \<in> set opt
      then (takeWhile (\<lambda>c. c \<noteq> 61) opt, Some (tl (dropWhile (\<lambda>c. c \<noteq> 61) opt)))
      else (opt, None))"

text \<open>No short options are declared, so any of them is an error (\<open>None\<close>).\<close>

function getopt :: "ustr list \<Rightarrow> (ustr \<times> ustr) list \<Rightarrow> ustr list \<Rightarrow>
    ((ustr \<times> ustr) list \<times> ustr list) option" where
  "getopt longopts opts [] = Some (opts, [])"
| "getopt longopts opts (a # args) =
     (if \<not> startswith a (u ''-'') \<or> a = u ''-'' then Some (opts, a # args)
      else if a = u ''--'' then Some (opts, args)
      else if startswith a (u ''--'') then
        (let (opt, optarg) = split_option (drop 2 a) in
         (case long_has_args opt longopts of
            None \<Rightarrow> None
          | Some (has_arg, name) \<Rightarrow>
              if has_arg then
                (case optarg of
                   Some v \<Rightarrow> getopt longopts (opts @ [(u ''--'' @ name, v)]) args
                 | None \<Rightarrow>
                     (case args of
                        [] \<Rightarrow> None
                      | v # args' \<Rightarrow> getopt longopts (opts @ [(u ''--'' @ name, v)]) args'))
              else if optarg = None then getopt longopts (opts @ [(u ''--'' @ name, [])]) args
              else None))
      else None)"
  by pat_completeness auto
termination
  by (relation "measure (\<lambda>(l, o', args). length args)") auto

section \<open>Leaving the program\<close>

definition USAGE :: ustr where
  "USAGE = join [10] (map u
     [
      '''',
      ''Syntax: cpplint.py [--verbose=#] [--output=vs7] [--filter=-x,+y,...]'',
      ''                   [--counting=total|toplevel|detailed]'',
      ''        <file> [file] ...'',
      '''',
      ''  The style guidelines this tries to follow are those in'',
      ''    http://google-styleguide.googlecode.com/svn/trunk/cppguide.xml'',
      '''',
      ''  Every problem is given a confidence score from 1-5, with 5 meaning we are'',
      ''  certain of the problem, and 1 meaning it could be a legitimate construct.'',
      ''  This will miss some errors, and is not a substitute for a code review.'',
      '''',
      ''  To suppress false-positive errors of a certain category, add a'',
      ''  @NOLINT(category)@ comment to the line.  NOLINT or NOLINT(*)'',
      ''  suppresses errors of all categories on that line.'',
      '''',
      ''  The files passed in will be linted; at least one file must be provided.'',
      ''  Linted extensions are .c, .cpp, and .h.  Other file types will be ignored.'',
      '''',
      ''  Flags:'',
      '''',
      ''    output=vs7'',
      ''      By default, the output is formatted to ease emacs parsing.  Visual Studio'',
      ''      compatible output (vs7) may also be used.  Other formats are unsupported.'',
      '''',
      ''    verbose=#'',
      ''      Specify a number 0-5 to restrict errors to certain verbosity levels.'',
      '''',
      ''    filter=-x,+y,...'',
      ''      Specify a comma-separated list of category-filters to apply: only'',
      ''      error messages whose category names pass the filters will be printed.'',
      ''      (Category names are printed with the message and look like'',
      ''      \"[whitespace/indent]\".)  Filters are evaluated left to right.'',
      ''      \"-FOO\" and \"FOO\" means \"do not print categories that start with FOO\".'',
      ''      \"+FOO\" means \"do print categories that start with FOO\".'',
      '''',
      ''      Examples: --filter=-whitespace,+whitespace/braces'',
      ''                --filter=whitespace,runtime/printf,+runtime/printf_format'',
      ''                --filter=-,+build/include_what_you_use'',
      '''',
      ''      To see a list of all the categories used in cpplint, pass no arg:'',
      ''         --filter='',
      '''',
      ''    counting=total|toplevel|detailed'',
      ''      The total number of errors found is always printed. If'',
      ''      @toplevel@ is provided, then the count of errors in each of'',
      ''      the top-level categories like @build@ and @whitespace@ will'',
      ''      also be printed. If @detailed@ is provided, then a count'',
      ''      is provided for each category like @build/class@.'',
      ''''])"

definition PrintUsage :: "ustr option \<Rightarrow> 'a proc" where
  "PrintUsage message =
     pthen (write_err USAGE)
       (case message of
          Some text \<Rightarrow> praise (SystemExit (Message (10 # u ''FATAL ERROR: '' @ text)))
        | None \<Rightarrow> praise (SystemExit (Code 1)))"

definition PrintCategories :: "'a proc" where
  "PrintCategories =
     pthen (write_err (concat (map (\<lambda>cat. u ''  '' @ cat @ [10]) ERROR_CATEGORIES)))
       (praise (SystemExit (Code 0)))"

section \<open>The arguments\<close>

record options =
  o_verbosity :: int
  o_output_format :: ustr
  o_filters :: ustr
  o_counting_style :: ustr

definition long_options :: "ustr list" where
  "long_options = map u [''help'', ''output='', ''verbose='', ''counting='', ''filter='']"

fun read_options :: "(ustr \<times> ustr) list \<Rightarrow> options \<Rightarrow> options proc" where
  "read_options [] o' = pret o'"
| "read_options ((opt, val) # opts) o' =
     (if opt = u ''--help'' then PrintUsage None
      else if opt = u ''--output'' then
        (if val \<notin> set [u ''emacs'', u ''vs7'']
         then PrintUsage (Some (u ''The only allowed output formats are emacs and vs7.''))
         else read_options opts (o'\<lparr>o_output_format := val\<rparr>))
      else if opt = u ''--verbose'' then
        (case py_int val of
           None \<Rightarrow> praise (ValueError (u ''invalid literal for int() with base 10''))
         | Some v \<Rightarrow> read_options opts (o'\<lparr>o_verbosity := v\<rparr>))
      else if opt = u ''--filter'' then
        (if val = [] then PrintCategories else read_options opts (o'\<lparr>o_filters := val\<rparr>))
      else if opt = u ''--counting'' then
        (if val \<notin> set [u ''total'', u ''toplevel'', u ''detailed'']
         then PrintUsage (Some (u ''Valid counting options are total, toplevel, and detailed''))
         else read_options opts (o'\<lparr>o_counting_style := val\<rparr>))
      else read_options opts o')"

definition set_filters :: "ustr \<Rightarrow> unit proc" where
  "set_filters flag w =
     (case SetFilters flag (cpplint_state w) of (r, st) \<Rightarrow> (r, w\<lparr>cpplint_state := st\<rparr>))"

definition ParseArguments :: "ustr list \<Rightarrow> ustr list proc" where
  "ParseArguments args =
     (case getopt long_options [] args of
        None \<Rightarrow> PrintUsage (Some (u ''Invalid arguments.''))
      | Some (opts, filenames) \<Rightarrow>
          pbind get_state (\<lambda>st.
          pbind (read_options opts
             \<lparr>o_verbosity = verbose_level st, o_output_format = output_format st,
              o_filters = [], o_counting_style = []\<rparr>) (\<lambda>o'.
          if filenames = [] then PrintUsage (Some (u ''No files were specified.''))
          else
            pthen (on_state (SetOutputFormat (o_output_format o')))
            (pthen (on_state (\<lambda>st. snd (SetVerboseLevel (o_verbosity o') st)))
            (pthen (set_filters (o_filters o'))
            (pthen (on_state (SetCountingStyle (o_counting_style o')))
            (pret filenames)))))))"

section \<open>What parsing the arguments leaves behind\<close>

text \<open>The ways out: the list of categories, the usage text, or a ValueError.\<close>

definition leaves :: "exn \<Rightarrow> world \<Rightarrow> world \<Rightarrow> bool" where
  "leaves e w w' \<longleftrightarrow>
     e = SystemExit (Code 0) \<and> err_out w' = err_out w @ [concat (map (\<lambda>cat. u ''  '' @ cat @ [10]) ERROR_CATEGORIES)]
     \<or> (e = SystemExit (Code 1) \<or> (\<exists>m. e = SystemExit (Message m))) \<and> err_out w' = err_out w @ [USAGE]
     \<or> (\<exists>m. e = ValueError m) \<and> err_out w' = err_out w"

definition options_ok :: "ustr \<Rightarrow> options \<Rightarrow> bool" where
  "options_ok format o' \<longleftrightarrow> o_output_format o' \<in> {format, u ''emacs'', u ''vs7''}
     \<and> o_counting_style o' \<in> {[], u ''total'', u ''toplevel'', u ''detailed''}"

lemma PrintUsage_leaves: "PrintUsage message w = (r, w') \<Longrightarrow> \<exists>e. r = Raise e \<and> leaves e w w'"
  by (cases message) (auto simp: PrintUsage_def pthen_def pbind_def write_err_def praise_def leaves_def)

lemma PrintCategories_leaves: "PrintCategories w = (r, w') \<Longrightarrow> \<exists>e. r = Raise e \<and> leaves e w w'"
  by (auto simp: PrintCategories_def pthen_def pbind_def write_err_def praise_def leaves_def)

lemma read_options_cases:
  "options_ok format o' \<Longrightarrow> read_options opts o' w = (r, w') \<Longrightarrow>
     (\<exists>o''. r = Ret o'' \<and> w' = w \<and> options_ok format o'') \<or> (\<exists>e. r = Raise e \<and> leaves e w w')"
proof (induction opts o' rule: read_options.induct)
  case (1 o')
  then show ?case by (auto simp: pret_def)
next
  case (2 opt val opts o')
  consider (o_help) "opt = u ''--help''"
    | (o_output) "opt \<noteq> u ''--help''" "opt = u ''--output''"
    | (o_verbose) "opt \<noteq> u ''--help''" "opt \<noteq> u ''--output''" "opt = u ''--verbose''"
    | (o_filter) "opt \<noteq> u ''--help''" "opt \<noteq> u ''--output''" "opt \<noteq> u ''--verbose''" "opt = u ''--filter''"
    | (o_counting) "opt \<noteq> u ''--help''" "opt \<noteq> u ''--output''" "opt \<noteq> u ''--verbose''"
        "opt \<noteq> u ''--filter''" "opt = u ''--counting''"
    | (o_other) "opt \<noteq> u ''--help''" "opt \<noteq> u ''--output''" "opt \<noteq> u ''--verbose''"
        "opt \<noteq> u ''--filter''" "opt \<noteq> u ''--counting''"
    by blast
  then show ?case
  proof cases
    case o_help
    with 2 have "PrintUsage None w = (r, w')" by simp
    then show ?thesis using PrintUsage_leaves by blast
  next
    case o_output
    show ?thesis
    proof (cases "val \<in> set [u ''emacs'', u ''vs7'']")
      case True
      then have "options_ok format (o'\<lparr>o_output_format := val\<rparr>)"
        using 2 by (auto simp: options_ok_def)
      with 2 o_output True show ?thesis by simp
    next
      case False
      with o_output 2 have "PrintUsage (Some (u ''The only allowed output formats are emacs and vs7.'')) w = (r, w')"
        by simp
      then show ?thesis using PrintUsage_leaves by blast
    qed
  next
    case o_verbose
    show ?thesis
    proof (cases "py_int val")
      case None
      with o_verbose 2 have "r = Raise (ValueError (u ''invalid literal for int() with base 10''))" "w' = w"
        by (simp_all add: praise_def)
      then show ?thesis by (auto simp: leaves_def)
    next
      case (Some v)
      then have "options_ok format (o'\<lparr>o_verbosity := v\<rparr>)" using 2 by (simp add: options_ok_def)
      with 2 o_verbose Some show ?thesis by simp
    qed
  next
    case o_filter
    show ?thesis
    proof (cases "val = []")
      case True
      with o_filter 2 have "PrintCategories w = (r, w')" by simp
      then show ?thesis using PrintCategories_leaves by blast
    next
      case False
      have "options_ok format (o'\<lparr>o_filters := val\<rparr>)" using 2 by (simp add: options_ok_def)
      with 2 o_filter False show ?thesis by simp
    qed
  next
    case o_counting
    show ?thesis
    proof (cases "val \<in> set [u ''total'', u ''toplevel'', u ''detailed'']")
      case True
      then have "options_ok format (o'\<lparr>o_counting_style := val\<rparr>)"
        using 2 by (auto simp: options_ok_def)
      with 2 o_counting True show ?thesis by simp
    next
      case False
      with o_counting have "read_options ((opt, val) # opts) o' w =
          PrintUsage (Some (u ''Valid counting options are total, toplevel, and detailed'')) w"
        by simp
      with "2.prems"(2) have
        "PrintUsage (Some (u ''Valid counting options are total, toplevel, and detailed'')) w = (r, w')"
        by (simp only:)
      then show ?thesis using PrintUsage_leaves by blast
    qed
  next
    case o_other
    with 2 show ?thesis by simp
  qed
qed

text \<open>The file names are the end of the command line.\<close>

lemma getopt_suffix: "getopt l opts args = Some (opts', fs) \<Longrightarrow> suffix fs args"
proof (induction l opts args rule: getopt.induct)
  case (2 l opts a args)
  then show ?case
    by (auto simp: suffix_ConsI Let_def split: if_splits prod.splits option.splits list.splits)
qed simp
lemma set_filters_cases:
  "set_filters flag w = (r, w') \<Longrightarrow>
     err_out w' = err_out w \<and> error_count (cpplint_state w') = error_count (cpplint_state w)
     \<and> output_format (cpplint_state w') = output_format (cpplint_state w)
     \<and> filters (cpplint_state w') = flag_filters flag
     \<and> (r = Ret () \<and> filters_ok w' \<or> (\<exists>m. r = Raise (ValueError m)))"
  by (auto simp: set_filters_def SetFilters_def Let_def filters_ok_def flag_filters_def find_list_all
      split: option.splits)

definition parsed_ok :: "ustr list \<Rightarrow> world \<Rightarrow> ustr list \<Rightarrow> world \<Rightarrow> bool" where
  "parsed_ok args w filenames w' \<longleftrightarrow> suffix filenames args \<and> filenames \<noteq> [] \<and> filters_ok w'
     \<and> err_out w' = err_out w \<and> error_count (cpplint_state w') = error_count (cpplint_state w)
     \<and> output_format (cpplint_state w') \<in> {output_format (cpplint_state w), u ''emacs'', u ''vs7''}
     \<and> counting (cpplint_state w') \<in> {[], u ''total'', u ''toplevel'', u ''detailed''}"

lemma ParseArguments_cases:
  "case ParseArguments args w of
     (Ret filenames, w') \<Rightarrow> parsed_ok args w filenames w'
   | (Raise e, w') \<Rightarrow> leaves e w w'
   | (Diverge, w') \<Rightarrow> False"
proof (cases "getopt long_options [] args")
  case None
  obtain r :: "ustr list outcome" and w' where p: "PrintUsage (Some (u ''Invalid arguments.'')) w = (r, w')" by fastforce
  with PrintUsage_leaves [OF p] None show ?thesis by (auto simp: ParseArguments_def)
next
  case (Some parsed)
  obtain opts filenames where [simp]: "parsed = (opts, filenames)" by (cases parsed)
  let ?o = "\<lparr>o_verbosity = verbose_level (cpplint_state w), o_output_format = output_format (cpplint_state w),
              o_filters = [], o_counting_style = []\<rparr>"
  obtain r w1 where r: "read_options opts ?o w = (r, w1)" by fastforce
  have "options_ok (output_format (cpplint_state w)) ?o" by (simp add: options_ok_def)
  from read_options_cases [OF this r] show ?thesis
  proof (elim disjE exE conjE)
    fix e assume "r = Raise e" "leaves e w w1"
    with r show ?thesis by (simp add: ParseArguments_def Some pbind_get_state pbind_simps)
  next
    fix o' assume o': "r = Ret o'" "w1 = w" "options_ok (output_format (cpplint_state w)) o'"
    show ?thesis
    proof (cases "filenames = []")
      case True
      obtain r' :: "ustr list outcome" and w' where p: "PrintUsage (Some (u ''No files were specified.'')) w = (r', w')" by fastforce
      with PrintUsage_leaves [OF p] True r o' show ?thesis
        by (auto simp: ParseArguments_def Some pbind_get_state pbind_simps)
    next
      case False
      let ?w2 = "w\<lparr>cpplint_state := snd (SetVerboseLevel (o_verbosity o')
          (SetOutputFormat (o_output_format o') (cpplint_state w)))\<rparr>"
      obtain r' w' where s: "set_filters (o_filters o') ?w2 = (r', w')" by fastforce
      have "ParseArguments args w =
          (case r' of Ret x \<Rightarrow> (Ret filenames, w'\<lparr>cpplint_state := SetCountingStyle (o_counting_style o') (cpplint_state w')\<rparr>)
           | Raise e \<Rightarrow> (Raise e, w') | Diverge \<Rightarrow> (Diverge, w'))"
        using False r o' s
        by (simp add: ParseArguments_def Some pbind_get_state pbind_simps pthen_def pbind_on_state)
          (auto simp: pbind_def on_state_def pret_def split: outcome.split)
      with set_filters_cases [OF s] o'(3) False getopt_suffix [of long_options "[]" args opts filenames] Some
      show ?thesis
        by (auto simp: parsed_ok_def leaves_def filters_ok_def options_ok_def SetCountingStyle_def SetVerboseLevel_def
            SetOutputFormat_def)
    qed
  qed
qed


end
