(* ===== verification/Driver.thy ===== *)
theory Driver
  imports Nolint FileChecks Style Language Options
begin

text \<open>
  From a line to the whole program: \<open>ProcessLine\<close> runs the checks of a line in their order
  on the state of the file, \<open>ProcessFileData\<close> the checks of a file, \<open>ProcessFile\<close> reads
  a file and decides by its extension, and \<open>main\<close> goes over the files of the command line.
\<close>

section \<open>The state of a file\<close>

record file_state =
  fs_include :: include_state
  fs_function :: function_state
  fs_class :: class_state

definition FileState_init :: file_state where
  "FileState_init = \<lparr>fs_include = IncludeState_init, fs_function = FunctionState_init, fs_class = []\<rparr>"

type_synonym extra_check = "ustr \<Rightarrow> cleansed \<Rightarrow> nat \<Rightarrow> unit chk"

text \<open>\<open>verbose\<close> is what \<open>_VerboseLevel()\<close> returns while the file is checked.\<close>

definition ProcessLine ::
    "env \<Rightarrow> int \<Rightarrow> ustr \<Rightarrow> ustr \<Rightarrow> cleansed \<Rightarrow> extra_check list \<Rightarrow> nat \<Rightarrow> file_state \<Rightarrow> file_state chk" where
  "ProcessLine e verbose filename file_extension cl extra_check_functions line st =
     bnd (lift (py_index (cl_raw cl) (int line))) (\<lambda>raw_line.
     bnd (ParseNolintSuppressions filename raw_line (int line)) (\<lambda>_.
     bnd (CheckForFunctionLengths verbose filename cl line (fs_function st)) (\<lambda>function_state.
     bnd (CheckForMultilineCommentsAndStrings filename cl line) (\<lambda>_.
     bnd (CheckStyle e filename cl line file_extension (fs_class st)) (\<lambda>_.
     bnd (CheckLanguage e filename cl line file_extension (fs_include st)) (\<lambda>include_state.
     bnd (CheckForNonStandardConstructs filename cl line (fs_class st)) (\<lambda>class_state.
     bnd (in_order
            [CheckPosixThreading (e_ucd e) filename cl line,
             CheckInvalidIncrement filename cl line,
             CheckMakePairUsesDeduction filename cl line]) (\<lambda>_.
     bnd (for_each extra_check_functions (\<lambda>check_fn. check_fn filename cl line)) (\<lambda>_.
     ok \<lparr>fs_include = include_state, fs_function = function_state, fs_class = class_state\<rparr>)))))))))"

fun process_lines :: "(nat \<Rightarrow> file_state \<Rightarrow> file_state chk) \<Rightarrow> nat list \<Rightarrow> file_state \<Rightarrow> file_state chk" where
  "process_lines process [] st = ok st"
| "process_lines process (n # ns) st = bnd (process n st) (process_lines process ns)"

definition first_marker :: ustr where
  "first_marker = u ''// marker so line numbers and indices both start at 1''"

definition last_marker :: ustr where
  "last_marker = u ''// marker so line numbers end in a known way''"

text \<open>
  \<open>RemoveMultiLineComments\<close> changes the list in place, so the last two checks see its result.
\<close>

definition ProcessFileData ::
    "env \<Rightarrow> int \<Rightarrow> ustr \<Rightarrow> ustr \<Rightarrow> ustr list \<Rightarrow> extra_check list \<Rightarrow> unit chk" where
  "ProcessFileData e verbose filename file_extension lines0 extra_check_functions =
     (let lines1 = first_marker # lines0 @ [last_marker] in
      bnd ResetNolintSuppressions (\<lambda>_.
      bnd (CheckForCopyright filename lines1) (\<lambda>_.
      bnd (guard (file_extension = u ''h'') (CheckForHeaderGuard filename lines1)) (\<lambda>_.
      bnd (RemoveMultiLineComments filename lines1) (\<lambda>lines.
      let cl = CleansedLines lines in
      bnd (process_lines (ProcessLine e verbose filename file_extension cl extra_check_functions)
             [0..<NumLines cl] FileState_init) (\<lambda>st.
      in_order
        [CheckFinished filename (fs_class st),
         CheckForIncludeWhatYouUse e filename cl (fs_include st),
         CheckForUnicodeReplacementCharacters filename lines,
         CheckForNewlineAtEOF filename lines]))))))"

section \<open>A file\<close>

text \<open>
  What the process finds outside: \<open>s_read\<close> is the decoded text of a file that can be read,
  \<open>s_linesep\<close> is \<open>os.linesep\<close>, \<open>s_items\<close> the order in which a dictionary of counts
  lists its keys.
\<close>

record sys = env +
  s_read :: "ustr \<Rightarrow> ustr option"
  s_linesep :: ustr
  s_items :: "(ustr \<rightharpoonup> nat) \<Rightarrow> ustr list"

text \<open>The text of standard input is there for the first reader; later ones find its end.\<close>

definition read_input :: "sys \<Rightarrow> ustr \<Rightarrow> ustr \<Rightarrow> ustr option" where
  "read_input s stdin filename = (if filename = u ''-'' then Some stdin else s_read s filename)"

definition strip_cr :: "ustr \<Rightarrow> ustr" where
  "strip_cr line = (if endswith line [13] then rstrip_of (\<lambda>c. c = 13) line else line)"

definition file_extension_of :: "ustr \<Rightarrow> ustr" where
  "file_extension_of filename = slice_from filename (py_rfind filename (u ''.'') + 1)"

definition linted :: "ustr \<Rightarrow> bool" where
  "linted filename \<longleftrightarrow>
     filename = u ''-'' \<or> file_extension_of filename \<in> set [u ''c'', u ''h'', u ''cpp'']"

definition report_cr :: "ustr \<Rightarrow> unit chk" where
  "report_cr filename =
     error filename 0 (u ''whitespace/newline'') 1
       (u ''One or more unexpected `r (^M) found;better to use only a `n'')"

definition ProcessFile :: "sys \<Rightarrow> ustr \<Rightarrow> ustr \<Rightarrow> int \<Rightarrow> extra_check list \<Rightarrow> unit proc" where
  "ProcessFile s stdin filename vlevel extra_check_functions =
     pthen (on_state (\<lambda>st. snd (SetVerboseLevel vlevel st)))
       (case read_input s stdin filename of
          None \<Rightarrow>
            write_err (bcolors_color (u ''Skipping input @'' @ filename @ u ''@: Can@t open for reading'' @ [10])
              bcolors_WARNING)
        | Some content \<Rightarrow>
            let raw_lines = split_char 10 content;
                lines = map strip_cr raw_lines;
                carriage_return_found = list_ex (\<lambda>line. endswith line [13]) raw_lines
            in
            pthen
              (if \<not> linted filename then
                 write_err (bcolors_color (u ''Ignoring '' @ filename @ u ''; not a .c or .h file'' @ [10]) [])
               else
                 pthen
                   (run_chk (ProcessFileData (env.truncate s) vlevel filename
                      (file_extension_of filename) lines extra_check_functions))
                   (run_chk (guard (carriage_return_found \<and> s_linesep s \<noteq> [13, 10])
                      (report_cr filename))))
              (write_err (bcolors_color (u ''Done processing '' @ filename @ [10]) [])))"

section \<open>The program\<close>

fun process_files :: "sys \<Rightarrow> ustr \<Rightarrow> ustr list \<Rightarrow> unit proc" where
  "process_files s stdin [] = pret ()"
| "process_files s stdin (filename # filenames) =
     pbind get_state (\<lambda>st.
       pthen (ProcessFile s stdin filename (verbose_level st) [])
         (process_files s (if filename = u ''-'' then [] else stdin) filenames))"

fun write_all :: "ustr list \<Rightarrow> unit proc" where
  "write_all [] = pret ()"
| "write_all (s # ss) = pthen (write_err s) (write_all ss)"

definition print_error_counts :: "sys \<Rightarrow> unit proc" where
  "print_error_counts s =
     pbind get_state (\<lambda>st. write_all (PrintErrorCounts (s_items s (errors_by_category st)) st))"

definition main_program :: "sys \<Rightarrow> ustr \<Rightarrow> ustr list \<Rightarrow> unit proc" where
  "main_program s stdin args =
     pbind (ParseArguments args) (\<lambda>filenames.
     pthen (on_state ResetErrorCounts)
     (pthen (process_files s stdin filenames)
     (pthen (print_error_counts s)
     (pbind get_state (\<lambda>st.
       praise (SystemExit (Code (if 0 < error_count st then 1 else 0))))))))"

text \<open>The state of the module when it has been loaded.\<close>

definition world_init :: world where
  "world_init = \<lparr>cpplint_state = CppLintState_init, error_suppressions = Map.empty, err_out = []\<rparr>"

end
