(* ===== verification/Reports.thy ===== *)
theory Reports
  imports Driver
begin

text \<open>
  What a check may do to the rest of the program. Every check reports under the name of its
  file, with a category of the table \<open>_ERROR_CATEGORIES\<close> and a confidence between 0 and 5, and
  the checks of a line silence nothing but listed categories. The rules follow the way checks are
  put together, and each check's lemma is one application of them.
\<close>

section \<open>Well-formed effects\<close>

definition listed :: "ustr \<Rightarrow> bool" where
  "listed category \<longleftrightarrow> category \<in> set ERROR_CATEGORIES"

definition report_ok :: "ustr \<Rightarrow> diag \<Rightarrow> bool" where
  "report_ok filename d \<longleftrightarrow> d_file d = filename \<and> listed (d_cat d) \<and> 0 \<le> d_conf d \<and> d_conf d \<le> 5"

fun line_effect :: "ustr \<Rightarrow> effect \<Rightarrow> bool" where
  "line_effect filename (Report d) = report_ok filename d"
| "line_effect filename (Suppress key n) = (key = None \<or> (\<exists>c. key = Some c \<and> listed c))"
| "line_effect filename ClearSuppressions = False"

lemma listed_categories:
  "listed (u ''build/class'')" "listed (u ''build/deprecated'')" "listed (u ''build/endif_comment'')"
  "listed (u ''build/explicit_make_pair'')" "listed (u ''build/forward_decl'')"
  "listed (u ''build/header_guard'')" "listed (u ''build/include'')" "listed (u ''build/include_alpha'')"
  "listed (u ''build/include_order'')" "listed (u ''build/include_what_you_use'')"
  "listed (u ''build/namespaces'')" "listed (u ''build/printf_format'')" "listed (u ''build/storage_class'')"
  "listed (u ''legal/copyright'')" "listed (u ''readability/braces'')" "listed (u ''readability/casting'')"
  "listed (u ''readability/check'')" "listed (u ''readability/constructors'')" "listed (u ''readability/fn_size'')"
  "listed (u ''readability/multiline_comment'')"
  "listed (u ''readability/multiline_string'')" "listed (u ''readability/nolint'')"
  "listed (u ''readability/streams'')" "listed (u ''readability/todo'')" "listed (u ''readability/utf8'')"
  "listed (u ''runtime/arrays'')" "listed (u ''runtime/casting'')" "listed (u ''runtime/explicit'')"
  "listed (u ''runtime/int'')" "listed (u ''runtime/init'')" "listed (u ''runtime/invalid_increment'')"
  "listed (u ''runtime/member_string_references'')" "listed (u ''runtime/memset'')"
  "listed (u ''runtime/operator'')" "listed (u ''runtime/printf'')" "listed (u ''runtime/printf_format'')"
  "listed (u ''runtime/references'')" "listed (u ''runtime/rtti'')" "listed (u ''runtime/string'')"
  "listed (u ''runtime/threadsafe_fn'')" "listed (u ''runtime/virtual'')" "listed (u ''whitespace/blank_line'')"
  "listed (u ''whitespace/braces'')" "listed (u ''whitespace/comma'')" "listed (u ''whitespace/comments'')"
  "listed (u ''whitespace/end_of_line'')" "listed (u ''whitespace/ending_newline'')"
  "listed (u ''whitespace/indent'')" "listed (u ''whitespace/labels'')" "listed (u ''whitespace/line_length'')"
  "listed (u ''whitespace/newline'')" "listed (u ''whitespace/operators'')" "listed (u ''whitespace/parens'')"
  "listed (u ''whitespace/semicolon'')" "listed (u ''whitespace/tab'')" "listed (u ''whitespace/todo'')"
  by (simp_all add: listed_def ERROR_CATEGORIES_def)

named_theorems effect_rules \<open>how well-formed effects are put together\<close>

abbreviation tidy :: "ustr \<Rightarrow> 'a chk \<Rightarrow> bool" where
  "tidy filename m \<equiv> calls_ok (line_effect filename) m"

lemma tidy_error [effect_rules]:
  "listed c \<Longrightarrow> 0 \<le> k \<Longrightarrow> k \<le> 5 \<Longrightarrow> tidy f (error f n c k m)"
  by (simp add: report_ok_def)

lemma tidy_bnd [effect_rules]: "tidy f m \<Longrightarrow> (\<And>x. tidy f (g x)) \<Longrightarrow> tidy f (bnd m g)"
  by (rule calls_ok_bnd)

lemma tidy_if [effect_rules]: "tidy f a \<Longrightarrow> tidy f b \<Longrightarrow> tidy f (if c then a else b)"
  by simp

lemma tidy_option [effect_rules]:
  "tidy f a \<Longrightarrow> (\<And>x. tidy f (g x)) \<Longrightarrow> tidy f (case z of None \<Rightarrow> a | Some x \<Rightarrow> g x)"
  by (simp split: option.split)

lemma tidy_prod [effect_rules]: "(\<And>x y. tidy f (g x y)) \<Longrightarrow> tidy f (case z of (x, y) \<Rightarrow> g x y)"
  by (simp split: prod.split)

lemma tidy_guard [effect_rules]: "tidy f m \<Longrightarrow> tidy f (guard b m)"
  by simp

lemma tidy_in_order_Nil [effect_rules]: "tidy f (in_order [])"
  and tidy_in_order_Cons [effect_rules]: "tidy f m \<Longrightarrow> tidy f (in_order ms) \<Longrightarrow> tidy f (in_order (m # ms))"
  by (auto intro: calls_ok_andthen)

lemma tidy_andthen [effect_rules]: "tidy f m \<Longrightarrow> tidy f k \<Longrightarrow> tidy f (andthen m k)"
  by (rule calls_ok_andthen)

lemma tidy_for_each [effect_rules]: "(\<And>x. x \<in> set xs \<Longrightarrow> tidy f (g x)) \<Longrightarrow> tidy f (for_each xs g)"
  by (simp add: calls_ok_for_each)

lemma tidy_leaf [effect_rules]:
  "tidy f (ok x)" "tidy f skip" "tidy f (raise e)" "tidy f (lift r)"
  by simp_all

section \<open>Every check\<close>

lemma tidy_nolint [effect_rules]: "tidy f (ParseNolintSuppressions f s n)"
  unfolding ParseNolintSuppressions_def Let_def
  by (auto split: option.split simp: report_ok_def listed_categories listed_def [symmetric])

lemma tidy_function_lengths [effect_rules]: "tidy f (CheckForFunctionLengths v f cl n fs)"
  unfolding CheckForFunctionLengths_def Check_def Let_def
  by (auto split: body.split intro!: effect_rules listed_categories)

lemma tidy_multiline [effect_rules]: "tidy f (CheckForMultilineCommentsAndStrings f cl n)"
  unfolding CheckForMultilineCommentsAndStrings_def Let_def
  by (intro effect_rules listed_categories) simp_all

lemma tidy_spacing_for_call [effect_rules]: "tidy f (CheckSpacingForFunctionCall f line n)"
  unfolding CheckSpacingForFunctionCall_def Let_def
  by (intro effect_rules listed_categories) simp_all

lemma tidy_comment [effect_rules]: "tidy f (CheckComment c f n)"
  unfolding CheckComment_def by (intro effect_rules listed_categories) simp_all

lemma tidy_comment_spacing [effect_rules]: "tidy f (check_comment_spacing f n line)"
  unfolding check_comment_spacing_def Let_def by (intro effect_rules listed_categories) simp_all

lemma tidy_blank_line [effect_rules]: "tidy f (check_blank_line f cl n)"
  unfolding check_blank_line_def Let_def by (intro effect_rules listed_categories) simp_all

lemma tidy_operators [effect_rules]: "tidy f (check_operators f n line)"
  unfolding check_operators_def Let_def by (intro effect_rules listed_categories) simp_all

lemma tidy_control_parens [effect_rules]: "tidy f (check_control_parens f n line)"
  unfolding check_control_parens_def Let_def by (intro effect_rules listed_categories) simp_all

lemma tidy_punctuation [effect_rules]: "tidy f (check_punctuation f n line)"
  unfolding check_punctuation_def by (intro effect_rules listed_categories) simp_all

lemma tidy_spacing [effect_rules]: "tidy f (CheckSpacing f cl n)"
  unfolding CheckSpacing_def Let_def by (intro effect_rules)

lemma tidy_section_spacing [effect_rules]: "tidy f (CheckSectionSpacing f cl info n)"
  unfolding CheckSectionSpacing_def Let_def by (intro effect_rules listed_categories) simp_all

lemma tidy_braces [effect_rules]: "tidy f (CheckBraces f cl n)"
  unfolding CheckBraces_def brace_starts_line_def else_after_brace_def else_braces_def
    else_one_brace_def one_line_clauses_def brace_semicolon_def Let_def
  by (intro effect_rules listed_categories) simp_all

lemma tidy_check [effect_rules]: "tidy f (CheckCheck f cl n)"
  unfolding CheckCheck_def by (intro effect_rules listed_categories) simp_all

lemma tidy_style [effect_rules]: "tidy f (CheckStyle e f cl n ext st)"
  unfolding CheckStyle_def check_indent_def check_line_length_def check_one_command_def Let_def
  by (intro effect_rules listed_categories) simp_all

lemma tidy_include_line [effect_rules]: "tidy f (CheckIncludeLine e f cl n st)"
  unfolding CheckIncludeLine_def check_new_include_def Let_def
  by (intro effect_rules listed_categories) simp_all

lemma tidy_language [effect_rules]: "tidy f (CheckLanguage e f cl n ext st)"
  unfolding CheckLanguage_def check_references_def check_function_casts_def check_c_casts_def
    CheckCStyleCast_def check_global_strings_def check_rtti_and_init_def check_c_types_def
    check_c_functions_def check_format_string_def check_memset_def check_using_def
    check_array_size_def check_disallow_def check_namespaces_def Let_def
  by (intro effect_rules listed_categories) simp_all

lemma tidy_constructs [effect_rules]: "tidy f (CheckForNonStandardConstructs f cl n st)"
  unfolding CheckForNonStandardConstructs_def construct_reports_def track_classes_def
    class_body_line_def check_explicit_def check_virtual_def Let_def
  by (intro effect_rules listed_categories) simp_all

lemma tidy_small_checks [effect_rules]:
  "tidy f (CheckPosixThreading db f cl n)" "tidy f (CheckInvalidIncrement f cl n)"
  "tidy f (CheckMakePairUsesDeduction f cl n)"
  unfolding CheckPosixThreading_def CheckInvalidIncrement_def CheckMakePairUsesDeduction_def Let_def
  by (intro effect_rules listed_categories; simp)+

lemma tidy_line:
  assumes "\<And>check. check \<in> set extra \<Longrightarrow> tidy f (check f cl n)"
  shows "tidy f (ProcessLine e v f ext cl extra n st)"
  unfolding ProcessLine_def by (intro effect_rules assms)

lemma tidy_lines:
  "(\<And>n st. tidy f (process n st)) \<Longrightarrow> tidy f (process_lines process ns st)"
  by (induction ns arbitrary: st) (auto intro: effect_rules)

section \<open>A file\<close>

lemma tidy_multi_line_comments: "tidy f (RemoveMultiLineComments f ls)"
proof -
  have "tidy f (remove_comments_loop f ls 0)"
    using remove_loop_spec [where r = ls and p = "[]" and f = f]
    by (auto simp: calls_ok_def ok_def report_ok_def listed_categories)
  then show ?thesis by (simp add: RemoveMultiLineComments_def)
qed

lemma tidy_for_lines: "(\<And>n l. tidy f (g n l)) \<Longrightarrow> tidy f (for_lines k ls g)"
  by (induction ls arbitrary: k) (auto intro: effect_rules)

lemma tidy_file_checks:
  "tidy f (CheckForCopyright f ls)" "tidy f (CheckForNewlineAtEOF f ls)"
  "tidy f (CheckForUnicodeReplacementCharacters f ls)" "tidy f (CheckFinished f st)"
  "tidy f (CheckForIncludeWhatYouUse e f cl ist)"
  unfolding CheckForCopyright_def CheckForNewlineAtEOF_def CheckForUnicodeReplacementCharacters_def
    CheckFinished_def CheckForIncludeWhatYouUse_def Let_def
  by (auto intro!: effect_rules tidy_for_lines listed_categories split: list.split simp: report_ok_def)

lemma tidy_header_guard: "tidy f (CheckForHeaderGuard f ls)"
  unfolding CheckForHeaderGuard_def Let_def
  by (intro effect_rules listed_categories) simp_all

text \<open>A file starts by clearing the suppressions; nothing else does.\<close>

lemma tidy_file:
  assumes "\<And>check cl n. check \<in> set extra \<Longrightarrow> tidy f (check f cl n)"
  obtains m where "ProcessFileData e v f ext ls extra = bnd ResetNolintSuppressions (\<lambda>_. m)" "tidy f m"
proof -
  have "tidy f (process_lines (ProcessLine e v f ext cl extra) ns st)" for cl ns st
    using assms by (intro tidy_lines tidy_line) blast
  note rules = this effect_rules tidy_multi_line_comments tidy_file_checks tidy_header_guard
  show thesis
    by (rule that, unfold ProcessFileData_def Let_def, rule refl) (intro rules)
qed

text \<open>C34: Whatever a file holds, its checks report under its name only, with categories of the
  published list and confidences between 0 and 5, and the only categories a NOLINT comment can
  silence are listed ones: the suppressions of the file before are cleared at once and never
  again.\<close>

theorem reports_are_listed:
  "\<exists>es. fst (ProcessFileData e v f ext ls []) = ClearSuppressions # es
    \<and> list_all (line_effect f) es"
proof -
  obtain m where m: "ProcessFileData e v f ext ls [] = bnd ResetNolintSuppressions (\<lambda>_. m)" "tidy f m"
    by (rule tidy_file [of "[]"]) auto
  then have "fst (ProcessFileData e v f ext ls []) = ClearSuppressions # fst m"
    by (simp add: bnd_def ResetNolintSuppressions_def effect_def)
  with m(2) show ?thesis by (auto simp: calls_ok_def list_all_iff)
qed

section \<open>Lines with a NOLINT comment\<close>

lemma suppressed_stays:
  assumes "apply_effects es w = Ret w'" "list_all (line_effect f) es"
    and "IsErrorSuppressedByNolint c n (error_suppressions w)"
  shows "IsErrorSuppressedByNolint c n (error_suppressions w')"
  using assms unfolding apply_effects_def
proof (induction es arbitrary: w)
  case (Cons x es)
  then obtain w1 where w1: "apply_effect x w = Ret w1" "run_steps apply_effect es w1 = Ret w'"
    by (auto elim: bind_out.elims)
  have "IsErrorSuppressedByNolint c n (error_suppressions w1)"
  proof (cases x)
    case (Report d)
    then have "error_suppressions w1 = error_suppressions w"
      using w1(1) by (auto simp: Error_def Let_def elim!: bind_out.elims split: if_splits)
    with Cons.prems(3) show ?thesis by simp
  next
    case (Suppress key k)
    with w1(1) Cons.prems(3) show ?thesis
      by (auto simp: suppress_def IsErrorSuppressedByNolint_def split: option.splits if_splits)
  next
    case ClearSuppressions
    with Cons.prems(2) show ?thesis by simp
  qed
  with Cons.IH [OF w1(2)] Cons.prems(2) show ?case by simp
qed simp

text \<open>C35: A line that carries a plain NOLINT comment is silent: whenever one of its checks
  reports an error on this line, the handler neither counts nor prints it, in whatever state the
  checks before it have left the program.\<close>

theorem nolint_line_is_silent:
  assumes "line < length (cl_raw cl)" "first_nolint (cl_raw cl ! line) i"
    and "\<not> startswith (drop (i + 6) (cl_raw cl ! line)) (u ''('') \<or> 41 \<notin> set (drop (i + 6) (cl_raw cl ! line))"
    and "fst (ProcessLine e v f ext cl [] line st) = before @ Report d # after"
    and "d_line d = int line" "apply_effects before w = Ret w'"
  shows "Error d w' = Ret w'"
proof -
  let ?s = "cl_raw cl ! line"
  have P: "ParseNolintSuppressions f ?s (int line) = ([Suppress None (int line)], Ret ())"
    by (rule Parse_plain [OF assms(2,3)])
  have "\<exists>K. ProcessLine e v f ext cl [] line st =
      bnd (lift (py_index (cl_raw cl) (int line))) (\<lambda>raw. bnd (ParseNolintSuppressions f raw (int line)) K)"
    unfolding ProcessLine_def by (rule exI) (rule refl)
  then obtain K where "ProcessLine e v f ext cl [] line st =
      bnd (lift (py_index (cl_raw cl) (int line))) (\<lambda>raw. bnd (ParseNolintSuppressions f raw (int line)) K)" ..
  then have "fst (ProcessLine e v f ext cl [] line st) = Suppress None (int line) # fst (K ())"
    using assms(1) by (simp add: P lift_def fst_bnd)
  then obtain rest where "before @ Report d # after = Suppress None (int line) # rest"
    using assms(4) by auto
  then obtain es where b: "before = Suppress None (int line) # es" by (cases before) auto
  have "tidy f (ProcessLine e v f ext cl [] line st)" by (rule tidy_line) simp
  then have es: "list_all (line_effect f) es"
    unfolding calls_ok_def assms(4) b by (simp add: list_all_iff)
  let ?w = "w\<lparr>error_suppressions := suppress None (int line) (error_suppressions w)\<rparr>"
  have run: "apply_effects es ?w = Ret w'" using assms(6) b by (simp add: apply_effects_def)
  have "IsErrorSuppressedByNolint (d_cat d) (int line) (error_suppressions ?w)"
    by (simp add: IsErrorSuppressedByNolint_def suppress_def)
  then have "IsErrorSuppressedByNolint (d_cat d) (int line) (error_suppressions w')"
    by (rule suppressed_stays [OF run es])
  with assms(5) show ?thesis by (simp add: Error_def ShouldPrintError_def)
qed

text \<open>A line with a tab and a NOLINT comment.\<close>

definition silenced_line :: ustr where
  "silenced_line = 9 # u ''//NOLINT''"

definition silenced_file :: cleansed where
  "silenced_file = \<lparr>cl_elided = [[], []], cl_lines = [[], []], cl_raw = [[], silenced_line], cl_num = 2\<rparr>"

theorem nolint_line_is_silent_witness:
  "\<exists>before d after w'. fst (ProcessLine (example_env []) 1 (u ''a.c'') (u ''c'') silenced_file [] 1 FileState_init)
       = before @ Report d # after
     \<and> d_cat d = u ''whitespace/tab'' \<and> apply_effects before world_init = Ret w' \<and> Error d w' = Ret w'"
proof -
  let ?s = "cl_raw silenced_file ! 1"
  let ?p = "ProcessLine (example_env []) 1 (u ''a.c'') (u ''c'') silenced_file [] 1 FileState_init"
  have s: "?s = silenced_line" "1 < length (cl_raw silenced_file)" by (simp_all add: silenced_file_def)
  have "list_all (\<lambda>k. \<not> nolint_at silenced_line k) [0..<3] \<and> nolint_at silenced_line 3" by code_simp
  then have n: "first_nolint ?s 3" unfolding s(1) by (simp add: first_nolint_def list_all_iff)
  have plain: "\<not> startswith (drop (3 + 6) ?s) (u ''('') \<or> 41 \<notin> set (drop (3 + 6) ?s)"
    unfolding s by code_simp
  have e: "case fst ?p of a # Report d # _ \<Rightarrow> a = Suppress None 1 \<and> d_cat d = u ''whitespace/tab'' \<and> d_line d = 1
      | _ \<Rightarrow> False"
    by code_simp
  then obtain d after where d: "fst ?p = [Suppress None 1] @ Report d # after"
    "d_cat d = u ''whitespace/tab''" "d_line d = int 1"
    by (auto split: list.splits effect.splits)
  obtain w' where w': "apply_effects [Suppress None 1] world_init = Ret w'" by (simp add: apply_effects_def)
  from nolint_line_is_silent [OF s(2) n plain d(1,3) w'] d w' show ?thesis by blast
qed

end
