(* ===== verification/Trace.thy ===== *)
theory Trace
  imports Reports
begin

text \<open>
  The error handler against its specification: the trace of effects of a file decides what is
  printed and counted, independently of the table of suppressions and of the files before; and
  what one file does to the state of the program.
\<close>

section \<open>The trace of a file decides its output\<close>

text \<open>
  The specification of the error handler, over the trace of effects alone: an error is
  shown when it is confident enough, passes the filters, and no NOLINT comment read before
  it in the same file names its line and its category.
\<close>

definition since_clear :: "effect list \<Rightarrow> effect list" where
  "since_clear es = rev (takeWhile (\<lambda>e. e \<noteq> ClearSuppressions) (rev es))"

definition silenced :: "effect list \<Rightarrow> ustr \<Rightarrow> int \<Rightarrow> bool" where
  "silenced before category n \<longleftrightarrow>
     Suppress None n \<in> set (since_clear before) \<or> Suppress (Some category) n \<in> set (since_clear before)"

definition shown :: "int \<Rightarrow> ustr list \<Rightarrow> effect list \<Rightarrow> diag \<Rightarrow> bool" where
  "shown verbose fs before d \<longleftrightarrow>
     verbose \<le> d_conf d \<and> \<not> filtered_out (d_cat d) fs \<and> \<not> silenced before (d_cat d) (d_line d)"

fun shown_after :: "int \<Rightarrow> ustr list \<Rightarrow> effect list \<Rightarrow> effect list \<Rightarrow> diag list" where
  "shown_after verbose fs before [] = []"
| "shown_after verbose fs before (Report d # es) =
     (if shown verbose fs before d then [d] else []) @ shown_after verbose fs (before @ [Report d]) es"
| "shown_after verbose fs before (e # es) = shown_after verbose fs (before @ [e]) es"

text \<open>The table of suppressions stands for the part of the trace since it was cleared.\<close>

definition table_for :: "effect list \<Rightarrow> suppressions \<Rightarrow> bool" where
  "table_for before table \<longleftrightarrow>
     (\<forall>c n. IsErrorSuppressedByNolint c n table = silenced before c n)"

lemma since_clear_snoc:
  "since_clear (es @ [e]) = (if e = ClearSuppressions then [] else since_clear es @ [e])"
  by (simp add: since_clear_def)

lemma table_for_clear: "table_for (before @ [ClearSuppressions]) Map.empty"
  by (simp add: table_for_def silenced_def since_clear_snoc IsErrorSuppressedByNolint_def)

lemma table_for_report: "table_for before table \<Longrightarrow> table_for (before @ [Report d]) table"
  by (simp add: table_for_def silenced_def since_clear_snoc)

lemma suppressed_after:
  "IsErrorSuppressedByNolint c n (suppress key k table) \<longleftrightarrow>
     IsErrorSuppressedByNolint c n table \<or> n = k \<and> (key = None \<or> key = Some c)"
  by (cases key) (auto simp: IsErrorSuppressedByNolint_def suppress_def)

lemma silenced_after:
  "silenced (before @ [Suppress key k]) c n \<longleftrightarrow>
     silenced before c n \<or> n = k \<and> (key = None \<or> key = Some c)"
  unfolding silenced_def since_clear_snoc by auto

lemma table_for_suppress:
  "table_for before table \<Longrightarrow> table_for (before @ [Suppress key k]) (suppress key k table)"
  by (simp add: table_for_def suppressed_after silenced_after)

definition advances :: "world \<Rightarrow> diag list \<Rightarrow> world \<Rightarrow> bool" where
  "advances w ds w' \<longleftrightarrow>
     err_out w' = err_out w @ map (error_text (output_format (cpplint_state w))) ds
     \<and> error_count (cpplint_state w') = error_count (cpplint_state w) + length ds
     \<and> filters (cpplint_state w') = filters (cpplint_state w)
     \<and> verbose_level (cpplint_state w') = verbose_level (cpplint_state w)
     \<and> output_format (cpplint_state w') = output_format (cpplint_state w)"

lemma Error_advances:
  assumes "filters_ok w" "table_for before (error_suppressions w)"
  obtains w' where "Error d w = Ret w'" "filters_ok w'" "table_for (before @ [Report d]) (error_suppressions w')"
    "advances w (if shown (verbose_level (cpplint_state w)) (filters (cpplint_state w)) before d then [d] else []) w'"
proof -
  have p: "prints d w \<longleftrightarrow> shown (verbose_level (cpplint_state w)) (filters (cpplint_state w)) before d"
    using assms(2) by (auto simp: prints_def shown_def table_for_def)
  note t = table_for_report [OF assms(2), of d]
  show thesis
  proof (cases "prints d w")
    case True
    with assms(1) t show thesis
      by (intro that [of "w\<lparr>cpplint_state := IncrementErrorCount (d_cat d) (cpplint_state w),
              err_out := err_out w @ [error_text (output_format (cpplint_state w)) d]\<rparr>"])
        (simp_all add: Error_eq p [symmetric] advances_def filters_ok_def)
  next
    case False
    with assms(1) t show thesis
      by (intro that [of w]) (simp_all add: Error_eq p [symmetric] advances_def)
  qed
qed

lemma effects_advance:
  "filters_ok w \<Longrightarrow> table_for before (error_suppressions w) \<Longrightarrow>
     \<exists>w'. apply_effects es w = Ret w' \<and> filters_ok w' \<and> table_for (before @ es) (error_suppressions w')
       \<and> advances w (shown_after (verbose_level (cpplint_state w)) (filters (cpplint_state w)) before es) w'"
proof (induction es arbitrary: before w)
  case Nil
  then show ?case by (simp add: apply_effects_def advances_def)
next
  case (Cons e es)
  let ?v = "verbose_level (cpplint_state w)" and ?fs = "filters (cpplint_state w)"
  have "\<exists>w1 ds. apply_effect e w = Ret w1 \<and> filters_ok w1 \<and> table_for (before @ [e]) (error_suppressions w1)
      \<and> advances w ds w1 \<and> shown_after ?v ?fs before (e # es) = ds @ shown_after ?v ?fs (before @ [e]) es"
  proof (cases e)
    case (Report d)
    from Error_advances [OF Cons.prems, of d] Report show ?thesis by (metis apply_effect.simps(1) shown_after.simps(2))
  next
    case (Suppress key k)
    with Cons.prems table_for_suppress [OF Cons.prems(2)] show ?thesis
      by (simp add: advances_def filters_ok_def)
  next
    case ClearSuppressions
    with Cons.prems table_for_clear show ?thesis by (simp add: advances_def filters_ok_def)
  qed
  then obtain w1 ds where w1: "apply_effect e w = Ret w1" "filters_ok w1"
    "table_for (before @ [e]) (error_suppressions w1)" "advances w ds w1"
    "shown_after ?v ?fs before (e # es) = ds @ shown_after ?v ?fs (before @ [e]) es" by blast
  from Cons.IH [OF w1(2,3)] obtain w2 where w2: "apply_effects es w1 = Ret w2" "filters_ok w2"
    "table_for (before @ e # es) (error_suppressions w2)"
    "advances w1 (shown_after (verbose_level (cpplint_state w1)) (filters (cpplint_state w1)) (before @ [e]) es) w2"
    by auto
  have "advances w (shown_after ?v ?fs before (e # es)) w2"
    using w1(4,5) w2(4) by (simp add: advances_def)
  with w1(1) w2 show ?case by (auto simp: apply_effects_def)
qed

text \<open>A header file with one empty line: it has no copyright message, and without a header guard
  the check of the guard fails on a variable that was never assigned.\<close>

definition no_copyright :: "ustr \<Rightarrow> diag" where
  "no_copyright f = \<lparr>d_file = f, d_line = 0, d_cat = u ''legal/copyright'', d_conf = 5,
     d_msg = u ''No copyright message found.  You should have a line: \"Copyright [year] <Copyright Owner>\"''\<rparr>"

lemma example_header_checks:
  "CheckForCopyright f [first_marker, [], last_marker] = ([Report (no_copyright f)], Ret ())"
  "CheckForHeaderGuard f [first_marker, [], last_marker] = ([], Raise (UnboundLocalError (u ''cppvar'')))"
  subgoal by code_simp
  subgoal by code_simp
  done

lemma example_header:
  "ProcessFileData e v f (u ''h'') [[]] [] =
     ([ClearSuppressions, Report (no_copyright f)], Raise (UnboundLocalError (u ''cppvar'')))"
  by (simp only: ProcessFileData_def Let_def append.simps example_header_checks ResetNolintSuppressions_def
      guard_def effect_def bnd_def fst_conv snd_conv outcome.case if_True simp_thms)

text \<open>C36: What a file adds to the output is decided by the trace of its own checks, the verbosity
  and the filters: exactly the errors the specification shows, in order, each counted once. The
  suppressions another file left behind play no part.\<close>

theorem file_output_is_its_trace:
  assumes "filters_ok w"
  shows "\<exists>w'. run_chk (ProcessFileData e v f ext ls []) w = (snd (ProcessFileData e v f ext ls []), w')
    \<and> advances w (shown_after (verbose_level (cpplint_state w)) (filters (cpplint_state w)) []
        (fst (ProcessFileData e v f ext ls []))) w'"
proof -
  obtain m where m: "ProcessFileData e v f ext ls [] = bnd ResetNolintSuppressions (\<lambda>_. m)"
    by (rule tidy_file [of "[]"]) auto
  let ?p = "ProcessFileData e v f ext ls []" and ?w = "w\<lparr>error_suppressions := Map.empty\<rparr>"
  have es: "fst ?p = ClearSuppressions # fst m"
    by (simp add: m bnd_def ResetNolintSuppressions_def effect_def)
  have "filters_ok ?w" "table_for [ClearSuppressions] (error_suppressions ?w)"
    using assms table_for_clear [of "[]"] by (simp_all add: filters_ok_def)
  from effects_advance [OF this, of "fst m"] obtain w' where w': "apply_effects (fst m) ?w = Ret w'"
    "advances ?w (shown_after (verbose_level (cpplint_state w)) (filters (cpplint_state w)) [ClearSuppressions] (fst m)) w'"
    by auto
  then have "apply_effects (fst ?p) w = Ret w'" unfolding es by (simp add: apply_effects_def)
  then have "run_chk ?p w = (snd ?p, w')"
    by (simp add: run_chk_def pbind_def perform_apply)
  moreover have "advances w (shown_after (verbose_level (cpplint_state w)) (filters (cpplint_state w)) [] (fst ?p)) w'"
    using w'(2) unfolding es by (simp add: advances_def)
  ultimately show ?thesis by blast
qed

theorem file_output_is_its_trace_witness:
  "\<exists>w'. run_chk (ProcessFileData (example_env []) 1 (u ''a.h'') (u ''h'') [[]] []) example_world
     = (Raise (UnboundLocalError (u ''cppvar'')), w')
     \<and> err_out w' = [error_text (u ''emacs'') (no_copyright (u ''a.h''))]
     \<and> error_count (cpplint_state w') = 1"
proof -
  have w: "err_out example_world = []" "error_count (cpplint_state example_world) = 0"
    "output_format (cpplint_state example_world) = u ''emacs''"
    by code_simp+
  have "shown_after (verbose_level (cpplint_state example_world)) (filters (cpplint_state example_world)) []
      [ClearSuppressions, Report (no_copyright (u ''a.h''))] = [no_copyright (u ''a.h'')]"
    by code_simp
  with w show ?thesis
    using file_output_is_its_trace [OF example_world_ok, of "example_env []" 1 "u ''a.h''" "u ''h''" "[[]]"]
    unfolding example_header by (auto simp: advances_def)
qed

section \<open>The run over the files\<close>

text \<open>The lines of the error handler are the ones in red; each of them is a counted error.\<close>

definition is_error_line :: "ustr \<Rightarrow> bool" where
  "is_error_line s \<longleftrightarrow> startswith s bcolors_FAIL"

definition tells :: "world \<Rightarrow> world \<Rightarrow> bool" where
  "tells w w' \<longleftrightarrow>
     (\<exists>new. err_out w' = err_out w @ new
        \<and> error_count (cpplint_state w') = error_count (cpplint_state w) + length (filter is_error_line new))
     \<and> filters (cpplint_state w') = filters (cpplint_state w)
     \<and> verbose_level (cpplint_state w') = verbose_level (cpplint_state w)"

lemma tells_refl: "tells w w"
  by (simp add: tells_def)

lemma tells_trans: "tells w w' \<Longrightarrow> tells w' w'' \<Longrightarrow> tells w w''"
  by (fastforce simp: tells_def)

lemma error_text_line: "is_error_line (error_text fmt d)"
  by (simp add: is_error_line_def error_text_def bcolors_color_def)

lemma apply_effect_tells:
  "filters_ok w \<Longrightarrow> \<exists>w'. apply_effect e w = Ret w' \<and> filters_ok w' \<and> tells w w'"
  by (cases e) (auto simp: Error_eq filters_ok_def tells_def error_text_line)

interpretation telling: effect_sink apply_effect filters_ok tells
  by unfold_locales (auto intro: apply_effect_tells tells_refl elim: tells_trans)

lemma run_chk_tells:
  assumes "filters_ok w"
  obtains w' where "run_chk m w = (snd m, w')" "filters_ok w'" "tells w w'"
proof -
  from telling.run_ok [OF assms, of "fst m"] obtain w' where
    w': "apply_effects (fst m) w = Ret w'" "filters_ok w'" "tells w w'"
    unfolding apply_effects_def by blast
  then have "run_chk m w = (snd m, w')" by (simp add: run_chk_def pbind_def perform_apply)
  with w' that show thesis by blast
qed

lemma write_err_tells:
  assumes "filters_ok w" "\<not> is_error_line s"
  obtains w' where "write_err s w = (Ret (), w')" "filters_ok w'" "tells w w'"
  using assms by (intro that [of "w\<lparr>err_out := err_out w @ [s]\<rparr>"])
    (simp_all add: write_err_def tells_def filters_ok_def)

lemma other_lines:
  "\<not> is_error_line (bcolors_color (u ''Skipping input @'' @ f @ m) bcolors_WARNING)"
  "\<not> is_error_line (bcolors_color (u ''Ignoring '' @ f @ m) [])"
  "\<not> is_error_line (bcolors_color (u ''Done processing '' @ f @ m) [])"
  by (simp_all add: is_error_line_def bcolors_color_def bcolors_FAIL_def bcolors_WARNING_def u_Cons uchar_of_def)

definition file_outcome :: "sys \<Rightarrow> int \<Rightarrow> ustr \<Rightarrow> ustr \<Rightarrow> unit outcome" where
  "file_outcome s verbose stdin filename =
     (case read_input s stdin filename of
        None \<Rightarrow> Ret ()
      | Some content \<Rightarrow>
          if linted filename then
            snd (ProcessFileData (env.truncate s) verbose filename (file_extension_of filename)
                  (map strip_cr (split_char 10 content)) [])
          else Ret ())"

lemma ProcessFile_step:
  assumes "filters_ok w"
  shows "\<exists>w'. ProcessFile s stdin f (verbose_level (cpplint_state w)) [] w
      = (file_outcome s (verbose_level (cpplint_state w)) stdin f, w') \<and> filters_ok w' \<and> tells w w'"
proof -
  let ?v = "verbose_level (cpplint_state w)"
  have same: "w\<lparr>cpplint_state := snd (SetVerboseLevel ?v (cpplint_state w))\<rparr> = w"
    by (simp add: SetVerboseLevel_def)
  show ?thesis
  proof (cases "read_input s stdin f")
    case None
    from write_err_tells [OF assms other_lines(1)] None show ?thesis
      by (simp add: ProcessFile_def Let_def pthen_def pbind_on_state same file_outcome_def) metis
  next
    case (Some content)
    let ?m = "ProcessFileData (env.truncate s) ?v f (file_extension_of f)
        (map strip_cr (split_char 10 content)) []"
    let ?c = "guard (list_ex (\<lambda>line. endswith line [13]) (split_char 10 content) \<and> s_linesep s \<noteq> [13, 10])
        (report_cr f)"
    show ?thesis
    proof (cases "linted f")
      case False
      obtain w1 where w1: "write_err (bcolors_color (u ''Ignoring '' @ f @ u ''; not a .c or .h file'' @ [10]) []) w = (Ret (), w1)"
        "filters_ok w1" "tells w w1" by (rule write_err_tells [OF assms other_lines(2)])
      obtain w2 where w2: "write_err (bcolors_color (u ''Done processing '' @ f @ [10]) []) w1 = (Ret (), w2)"
        "filters_ok w2" "tells w1 w2" by (rule write_err_tells [OF w1(2) other_lines(3)])
      from w1 w2 tells_trans [OF w1(3) w2(3)] False Some show ?thesis
        by (simp add: ProcessFile_def Let_def pthen_def pbind_on_state same file_outcome_def pbind_simps)
    next
      case True
      obtain w1 where w1: "run_chk ?m w = (snd ?m, w1)" "filters_ok w1" "tells w w1"
        by (rule run_chk_tells [OF assms])
      have c: "snd ?c = Ret ()" by (simp add: guard_def report_cr_def)
      obtain w2 where w2: "run_chk ?c w1 = (Ret (), w2)" "filters_ok w2" "tells w1 w2"
        using run_chk_tells [OF w1(2), of ?c] c by metis
      obtain w3 where w3: "write_err (bcolors_color (u ''Done processing '' @ f @ [10]) []) w2 = (Ret (), w3)"
        "filters_ok w3" "tells w2 w3" by (rule write_err_tells [OF w2(2) other_lines(3)])
      have t: "tells w w3" using w1(3) w2(3) w3(3) tells_trans by blast
      have o': "file_outcome s ?v stdin f = snd ?m" using True Some by (simp add: file_outcome_def)
      show ?thesis
      proof (cases "snd ?m")
        case (Ret x)
        with w1(1) w2(1) w3 t True Some o' show ?thesis
          by (simp add: ProcessFile_def Let_def pthen_def pbind_on_state same pbind_simps)
      next
        case (Raise x)
        with w1 True Some o' show ?thesis
          by (simp add: ProcessFile_def Let_def pthen_def pbind_on_state same pbind_simps)
      next
        case Diverge
        with w1 True Some o' show ?thesis
          by (simp add: ProcessFile_def Let_def pthen_def pbind_on_state same pbind_simps)
      qed
    qed
  qed
qed

end
