(* ===== verification/Tuner.thy ===== *)
theory Tuner
  imports Complex_Main Options "HOL-Library.AList" "HOL-Library.Multiset"
begin

text \<open>
  \<open>opentuner_run.py\<close>: reading the statistics that \<open>mdriver\<close> prints, the measurement of one
  configuration, and the best configuration the threads of the tuner share under a lock; and the
  parameters of \<open>opentuner_params.py\<close>. The programs the tuner calls are a parameter, and so is
  \<open>float\<close> of a string with its rendering.
\<close>

section \<open>Values\<close>

text \<open>A double is a rational number or one of the special values.\<close>

datatype flt = Finite rat | PosInf | NegInf | NaN

datatype pyval = VInt int | VFloat flt | VStr ustr

record floats =
  fl_parse :: "ustr \<Rightarrow> flt option"
  fl_show :: "flt \<Rightarrow> ustr"

definition try_num :: "floats \<Rightarrow> ustr \<Rightarrow> pyval" where
  "try_num fl s =
     (case py_int s of
        Some n \<Rightarrow> VInt n
      | None \<Rightarrow> (case fl_parse fl s of Some x \<Rightarrow> VFloat x | None \<Rightarrow> VStr s))"

text \<open>\<open>>\<close> of Python 2: numbers by value, strings by their bytes, any string above any number.\<close>

fun flt_of :: "pyval \<Rightarrow> flt option" where
  "flt_of (VInt n) = Some (Finite (of_int n))"
| "flt_of (VFloat x) = Some x"
| "flt_of (VStr s) = None"

fun flt_gt :: "flt \<Rightarrow> flt \<Rightarrow> bool" where
  "flt_gt (Finite a) (Finite b) \<longleftrightarrow> b < a"
| "flt_gt PosInf (Finite b) \<longleftrightarrow> True"
| "flt_gt PosInf NegInf \<longleftrightarrow> True"
| "flt_gt (Finite a) NegInf \<longleftrightarrow> True"
| "flt_gt _ _ \<longleftrightarrow> False"

fun str_gt :: "ustr \<Rightarrow> ustr \<Rightarrow> bool" where
  "str_gt [] t = False"
| "str_gt (c # s) [] = True"
| "str_gt (c # s) (d # t) = (d < c \<or> c = d \<and> str_gt s t)"

fun py_gt :: "pyval \<Rightarrow> pyval \<Rightarrow> bool" where
  "py_gt (VStr s) (VStr t) = str_gt s t"
| "py_gt (VStr s) _ = True"
| "py_gt _ (VStr t) = False"
| "py_gt a b = (case (flt_of a, flt_of b) of (Some x, Some y) \<Rightarrow> flt_gt x y | _ \<Rightarrow> False)"

section \<open>The output of mdriver\<close>

text \<open>\<open>splitlines\<close> of a byte string.\<close>

fun splitlines :: "ustr \<Rightarrow> ustr list" where
  "splitlines [] = []"
| "splitlines (c # s) =
     (if c = 10 then [] # splitlines s
      else if c = 13 then
        [] # (case s of [] \<Rightarrow> [] | d # r \<Rightarrow> if d = 10 then splitlines r else splitlines (d # r))
      else (case splitlines s of [] \<Rightarrow> [[c]] | l # ls \<Rightarrow> (c # l) # ls))"

text \<open>\<open>line.split(':', 1)\<close>, when it gives two parts.\<close>

definition key_value :: "ustr \<Rightarrow> (ustr \<times> ustr) option" where
  "key_value line =
     (if 58 \<in> set line
      then Some (takeWhile (\<lambda>c. c \<noteq> 58) line, tl (dropWhile (\<lambda>c. c \<noteq> 58) line)) else None)"

definition read_line :: "floats \<Rightarrow> ustr \<Rightarrow> (ustr \<times> pyval) list \<Rightarrow> (ustr \<times> pyval) list" where
  "read_line fl line result =
     (case key_value line of
        None \<Rightarrow> result
      | Some (key, val) \<Rightarrow> AList.update key (try_num fl val) result)"

definition parse_stdout :: "floats \<Rightarrow> ustr \<Rightarrow> (ustr \<times> pyval) list" where
  "parse_stdout fl stdout = fold (read_line fl) (splitlines stdout) []"

definition aws_chatter :: "ustr \<Rightarrow> bool" where
  "aws_chatter line \<longleftrightarrow> startswith line (u ''Submitting Job:'')
     \<or> startswith line (u ''Waiting for job to finish'')"

definition parse_awsrun_stdout :: "floats \<Rightarrow> ustr \<Rightarrow> (ustr \<times> pyval) list" where
  "parse_awsrun_stdout fl stdout =
     fold (\<lambda>line result. if aws_chatter line then result else read_line fl line result)
       (splitlines stdout) []"

section \<open>The measurement of a configuration\<close>

record tuner_args =
  trace_file :: "ustr option"
  trace_dir :: "ustr option"
  command_timeout :: int
  make_timeout :: int
  awsrun :: bool

record prog_result =
  returncode :: int
  timeout :: bool
  run_time :: pyval
  stdout :: ustr

record tuner =
  best_accuracy :: pyval
  best_make_cmd :: ustr
  best_bin_cmd :: ustr

definition tuner_init :: tuner where
  "tuner_init = \<lparr>best_accuracy = VInt 0, best_make_cmd = [], best_bin_cmd = []\<rparr>"

text \<open>The defaults of the command line.\<close>

definition default_args :: tuner_args where
  "default_args = \<lparr>trace_file = None, trace_dir = Some (u ''traces''), command_timeout = 60,
     make_timeout = 20, awsrun = False\<rparr>"

definition init_ok :: "tuner_args \<Rightarrow> unit outcome" where
  "init_ok args =
     (if trace_file args \<noteq> None \<or> trace_dir args \<noteq> None then Ret () else Raise (AssertionError []))"

definition mdriver_manipulator :: "(ustr \<times> int \<times> int) list" where
  "mdriver_manipulator = [(u ''LARGE_BIN_SEARCH_MAX'', 0, 32), (u ''EXTENSION_SIZE'', 8, 2000)]"

text \<open>\<open>cfg\<close> lists the configuration in the order in which the dictionary is iterated.\<close>

definition gcc_params :: "(ustr \<times> int) list \<Rightarrow> ustr" where
  "gcc_params cfg = concat (map (\<lambda>(key, val). u ''-D '' @ key @ u ''='' @ show_int val @ u '' '') cfg)"

definition make_cmd :: "tuner_args \<Rightarrow> (ustr \<times> int) list \<Rightarrow> ustr" where
  "make_cmd args cfg =
     (if awsrun args
      then u ''make partial_clean mdriver GETTIME=1 DEBUG=0 PARAMS=\"'' @ gcc_params cfg @ u ''\"''
      else u ''make partial_clean mdriver DEBUG=0 PARAMS=\"'' @ gcc_params cfg @ u ''\"'')"

definition trace_params :: "tuner_args \<Rightarrow> ustr outcome" where
  "trace_params args =
     (case trace_file args of
        Some f \<Rightarrow> Ret (u ''-f '' @ f)
      | None \<Rightarrow>
          (case trace_dir args of
             Some d \<Rightarrow> Ret (u ''-t '' @ d)
           | None \<Rightarrow> Raise (TypeError (u ''cannot concatenate str and NoneType objects''))))"

definition bin_cmd :: "tuner_args \<Rightarrow> ustr \<Rightarrow> ustr" where
  "bin_cmd args traces =
     (if awsrun args then u ''awsrun ./mdriver -g '' @ traces else u ''./mdriver -g '' @ traces)"

text \<open>\<open>time += v\<close> from zero: a number stays as it is, a string cannot be added.\<close>

definition add_to_zero :: "pyval \<Rightarrow> pyval outcome" where
  "add_to_zero v =
     (case v of VStr s \<Rightarrow> Raise (TypeError (u ''unsupported operand type(s) for +='')) | _ \<Rightarrow> Ret v)"

text \<open>The update under the lock: one step, whatever the other threads do.\<close>

definition update_best :: "pyval \<Rightarrow> ustr \<Rightarrow> ustr \<Rightarrow> tuner \<Rightarrow> tuner" where
  "update_best accuracy make_c bin_c st =
     (if py_gt accuracy (best_accuracy st)
      then \<lparr>best_accuracy = accuracy, best_make_cmd = make_c, best_bin_cmd = bin_c\<rparr> else st)"

text \<open>
  \<open>run\<close>: the accuracy and the time of the result, and the state after it. \<open>prog\<close> gives what a
  command with a time limit ends with.
\<close>

definition measure_cfg :: "floats \<Rightarrow> tuner_args \<Rightarrow> (ustr \<Rightarrow> int \<Rightarrow> prog_result) \<Rightarrow> (ustr \<times> int) list \<Rightarrow>
    (pyval \<times> pyval \<times> (pyval \<times> ustr \<times> ustr) option) outcome" where
  "measure_cfg fl args prog cfg =
     (let make_c = make_cmd args cfg in
      if returncode (prog make_c (make_timeout args)) \<noteq> 0 then Ret (VInt 0, VInt 0, None)
      else
        bind_out (trace_params args) (\<lambda>traces.
          let bin_c = bin_cmd args traces; r = prog bin_c (command_timeout args) in
          if awsrun args then
            (let result = parse_awsrun_stdout fl (stdout r) in
             if length result < 3 \<or> map_of result (u ''runtime'') = None then Ret (VInt 0, VInt 0, None)
             else
               bind_out (add_to_zero (the (map_of result (u ''runtime'')))) (\<lambda>time.
                 let accuracy = (case map_of result (u ''perfidx'') of Some a \<Rightarrow> a | None \<Rightarrow> VInt 0)
                 in Ret (accuracy, time, Some (accuracy, make_c, bin_c))))
          else
            bind_out (add_to_zero (run_time r)) (\<lambda>time.
              if timeout r \<or> returncode r \<noteq> 0 then Ret (VInt 0, time, None)
              else
                (let result = parse_stdout fl (stdout r);
                     accuracy = (case map_of result (u ''perfidx'') of Some a \<Rightarrow> a | None \<Rightarrow> VInt 0)
                 in Ret (accuracy, time, Some (accuracy, make_c, bin_c))))))"

definition run :: "floats \<Rightarrow> tuner_args \<Rightarrow> (ustr \<Rightarrow> int \<Rightarrow> prog_result) \<Rightarrow> (ustr \<times> int) list \<Rightarrow>
    tuner \<Rightarrow> (pyval \<times> pyval) outcome \<times> tuner" where
  "run fl args prog cfg st =
     (case measure_cfg fl args prog cfg of
        Ret (accuracy, time, None) \<Rightarrow> (Ret (accuracy, time), st)
      | Ret (accuracy, time, Some (a, m, b)) \<Rightarrow> (Ret (accuracy, time), update_best a m b st)
      | Raise e \<Rightarrow> (Raise e, st)
      | Diverge \<Rightarrow> (Diverge, st))"

fun py_str :: "floats \<Rightarrow> pyval \<Rightarrow> ustr" where
  "py_str fl (VInt n) = show_int n"
| "py_str fl (VFloat x) = fl_show fl x"
| "py_str fl (VStr s) = s"

text \<open>The lines printed at the end of the tuning.\<close>

definition save_final_config :: "floats \<Rightarrow> tuner_args \<Rightarrow> tuner \<Rightarrow> ustr list outcome" where
  "save_final_config fl args st =
     bind_out
       (case trace_file args of
          Some f \<Rightarrow> Ret (u ''trace_file: '' @ f)
        | None \<Rightarrow>
            (case trace_dir args of
               Some d \<Rightarrow> Ret (u ''trace_dir: '' @ d)
             | None \<Rightarrow> Raise (TypeError (u ''cannot concatenate str and NoneType objects''))))
       (\<lambda>traces. Ret
         [traces, u ''make_cmd: '' @ best_make_cmd st, u ''bin_cmd: '' @ best_bin_cmd st,
          u ''perfidx: '' @ py_str fl (best_accuracy st), []])"

section \<open>The best configuration\<close>

text \<open>What the order of Python 2 gives the tuner: a strict order in which ties can be exchanged.\<close>

lemma str_gt_irrefl: "\<not> str_gt s s"
  by (induction s) auto

lemma str_gt_trans: "str_gt s t \<Longrightarrow> str_gt t r \<Longrightarrow> str_gt s r"
proof (induction s t arbitrary: r rule: str_gt.induct)
  case (3 c s d t)
  then show ?case by (cases r) auto
qed auto

locale ranking =
  fixes above :: "'a \<Rightarrow> 'a \<Rightarrow> bool"
  assumes irrefl: "\<not> above x x"
    and trans: "above x y \<Longrightarrow> above y z \<Longrightarrow> above x z"
begin

definition keep :: "('a \<times> 'b) \<Rightarrow> ('a \<times> 'b) \<Rightarrow> ('a \<times> 'b)" where
  "keep new old = (if above (fst new) (fst old) then new else old)"

lemma keep_new: "above (fst x) (fst b) \<Longrightarrow> keep x b = x"
  and keep_old: "\<not> above (fst x) (fst b) \<Longrightarrow> keep x b = b"
  by (simp_all add: keep_def)

text \<open>A run of updates never goes down, and ends with a value no update of the run is above.\<close>

lemma keep_run_mono:
  "fst (fold keep xs b) = fst b \<or> above (fst (fold keep xs b)) (fst b)"
proof (induction xs arbitrary: b)
  case (Cons x xs)
  show ?case
  proof (cases "above (fst x) (fst b)")
    case True
    with Cons.IH [of x] trans [of "fst (fold keep xs x)" "fst x" "fst b"] show ?thesis
      by (auto simp: keep_new)
  next
    case False
    with Cons.IH [of b] show ?thesis by (simp add: keep_old)
  qed
qed simp

lemma keep_run_source: "fold keep xs b \<in> insert b (set xs)"
proof (induction xs arbitrary: b)
  case (Cons x xs)
  from Cons.IH [of "keep x b"] show ?case by (auto simp: keep_def split: if_splits)
qed simp

lemma keep_run_top: "x \<in> insert b (set xs) \<Longrightarrow> \<not> above (fst x) (fst (fold keep xs b))"
proof (induction xs arbitrary: x b)
  case Nil
  then show ?case using irrefl by simp
next
  case (Cons a xs)
  let ?r = "fst (fold keep xs (keep a b))"
  have old: "\<not> above (fst (keep a b)) ?r" using Cons.IH [of "keep a b" "keep a b"] by simp
  consider "x \<in> set xs" | "x = keep a b" | "x = b" "above (fst a) (fst b)" | "x = a" "\<not> above (fst a) (fst b)"
    using Cons.prems by (cases "above (fst a) (fst b)") (auto simp: keep_new keep_old)
  then show ?case
  proof cases
    case 1
    with Cons.IH show ?thesis by simp
  next
    case 2
    with old show ?thesis by simp
  next
    case 3
    with old trans [of "fst a" "fst b" ?r] show ?thesis by (auto simp: keep_new)
  next
    case 4
    then have k: "keep a b = b" by (simp add: keep_old)
    with keep_run_mono [of xs b] 4 trans [of "fst a" ?r "fst b"] show ?thesis by auto
  qed
qed

lemma keep_run_order:
  assumes "mset xs = mset ys"
  shows "\<not> above (fst (fold keep xs b)) (fst (fold keep ys b))"
proof (rule keep_run_top)
  have "set xs = set ys" using assms by (rule mset_eq_setD)
  with keep_run_source [of xs b] show "fold keep xs b \<in> insert b (set ys)" by simp
qed

end

lemma flt_gt_irrefl: "\<not> flt_gt x x"
  by (cases x) auto

lemma flt_gt_trans: "flt_gt x y \<Longrightarrow> flt_gt y z \<Longrightarrow> flt_gt x z"
  by (cases x; cases y; cases z) auto

lemma py_gt_irrefl: "\<not> py_gt x x"
  by (cases x) (auto simp: flt_gt_irrefl str_gt_irrefl)

lemma py_gt_trans: "py_gt x y \<Longrightarrow> py_gt y z \<Longrightarrow> py_gt x z"
  by (cases x; cases y; cases z) (auto simp del: flt_gt.simps intro: flt_gt_trans str_gt_trans)

interpretation rank: ranking py_gt
  by unfold_locales (auto simp: py_gt_irrefl intro: py_gt_trans)

section \<open>Runs of the tuner\<close>

text \<open>The threads take the lock one after the other: a sequence of configurations.\<close>

definition tune :: "floats \<Rightarrow> tuner_args \<Rightarrow> (ustr \<Rightarrow> int \<Rightarrow> prog_result) \<Rightarrow> (ustr \<times> int) list list \<Rightarrow> tuner \<Rightarrow> tuner" where
  "tune fl args prog cfgs st = fold (\<lambda>cfg st. snd (run fl args prog cfg st)) cfgs st"

definition entry :: "tuner \<Rightarrow> pyval \<times> ustr \<times> ustr" where
  "entry st = (best_accuracy st, best_make_cmd st, best_bin_cmd st)"

text \<open>What a configuration offers for the best: its accuracy with the commands.\<close>

definition offers :: "floats \<Rightarrow> tuner_args \<Rightarrow> (ustr \<Rightarrow> int \<Rightarrow> prog_result) \<Rightarrow> (ustr \<times> int) list \<Rightarrow>
    (pyval \<times> ustr \<times> ustr) list" where
  "offers fl args prog cfg =
     (case measure_cfg fl args prog cfg of Ret (_, _, Some e) \<Rightarrow> [e] | _ \<Rightarrow> [])"

lemma run_keeps: "entry (snd (run fl args prog cfg st)) = fold rank.keep (offers fl args prog cfg) (entry st)"
  by (auto simp: run_def offers_def entry_def rank.keep_def update_best_def
      split: outcome.split option.split prod.split)

lemma tune_keeps:
  "entry (tune fl args prog cfgs st) = fold rank.keep (concat (map (offers fl args prog) cfgs)) (entry st)"
  unfolding tune_def by (induction cfgs arbitrary: st) (simp_all add: run_keeps)

lemma bind_out_Ret_iff: "bind_out m f = Ret y \<longleftrightarrow> (\<exists>x. m = Ret x \<and> f x = Ret y)"
  by (cases m) auto

lemma measure_offer:
  assumes "measure_cfg fl args prog cfg = Ret (x, t, Some (a, m, b))"
  shows "m = make_cmd args cfg \<and> (\<exists>traces. trace_params args = Ret traces \<and> b = bin_cmd args traces)
     \<and> returncode (prog m (make_timeout args)) = 0"
proof -
  have built: "returncode (prog (make_cmd args cfg) (make_timeout args)) = 0"
    using assms unfolding measure_cfg_def Let_def by (simp split: if_splits)
  from assms have "m = make_cmd args cfg \<and> (\<exists>traces. trace_params args = Ret traces \<and> b = bin_cmd args traces)"
    unfolding measure_cfg_def Let_def if_not_P [of "_ \<noteq> _", unfolded not_not, OF built] bind_out_Ret_iff
    by (auto simp: bind_out_Ret_iff split: if_splits)
  with built show ?thesis by simp
qed

lemma offers_commands:
  "(a, m, b) \<in> set (offers fl args prog cfg) \<Longrightarrow>
     m = make_cmd args cfg \<and> (\<exists>traces. trace_params args = Ret traces \<and> b = bin_cmd args traces)
     \<and> returncode (prog m (make_timeout args)) = 0"
  unfolding offers_def
  by (rule measure_offer [of fl args prog cfg "fst (case measure_cfg fl args prog cfg of Ret r \<Rightarrow> r)"
        "fst (snd (case measure_cfg fl args prog cfg of Ret r \<Rightarrow> r))"])
    (auto split: outcome.splits option.splits)

definition example_prog :: "ustr \<Rightarrow> int \<Rightarrow> prog_result" where
  "example_prog cmd limit = \<lparr>returncode = 0, timeout = False, run_time = VInt 1, stdout = u ''perfidx:7''\<rparr>"

definition example_floats :: floats where
  "example_floats = \<lparr>fl_parse = (\<lambda>s. None), fl_show = (\<lambda>x. [])\<rparr>"


section \<open>Reading back what was printed\<close>

lemma digit_small: "n < 10 \<Longrightarrow> is_digit (48 + int n)"
  by (simp add: is_digit_def)

lemma digits_of_digits: "list_all is_digit (digits_of n)"
proof (induction n rule: digits_of.induct)
  case (1 n)
  then show ?case by (subst digits_of.simps) (simp add: digit_small)
qed

lemma fold_digits: "fold (\<lambda>d n. 10 * n + (d - 48)) (digits_of k) 0 = int k"
proof (induction k rule: digits_of.induct)
  case (1 n)
  show ?case
  proof (cases "n < 10")
    case True
    then show ?thesis by (subst digits_of.simps) simp
  next
    case False
    with 1 have "fold (\<lambda>d n. 10 * n + (d - 48)) (digits_of (n div 10)) 0 = int (n div 10)" by simp
    moreover have "10 * int (n div 10) + int (n mod 10) = int n" by presburger
    ultimately show ?thesis using False by (subst digits_of.simps) simp
  qed
qed

lemma strip_nothing:
  assumes "list_all (\<lambda>c. \<not> is_space c) s"
  shows "byte_strip s = s"
proof -
  have d: "dropWhile is_space t = t" if "set t = set s" for t
    using assms that by (cases t) (auto simp: list_all_iff)
  show ?thesis by (simp add: byte_strip_def lstrip_of_def rstrip_of_def d)
qed

lemma digit_facts: "is_digit c \<Longrightarrow> \<not> is_space c \<and> c \<noteq> 45 \<and> c \<noteq> 43 \<and> c \<noteq> 10 \<and> c \<noteq> 13"
  by (auto simp: is_digit_def is_space_def)

lemma dash_no_space: "\<not> is_space 45"
  by (simp add: is_space_def)

lemma show_int_chars: "list_all (\<lambda>c. is_digit c \<or> c = 45) (show_int n)"
  using digits_of_digits by (auto simp: show_int_def list_all_iff)

lemma py_int_show_int: "py_int (show_int n) = Some n"
proof -
  have "list_all (\<lambda>c. \<not> is_space c) (show_int n)"
    unfolding list_all_iff using show_int_chars [of n, unfolded list_all_iff] digit_facts dash_no_space by blast
  then have s: "byte_strip (show_int n) = show_int n" by (rule strip_nothing)
  have num: "int (number_of (digits_of k)) = int k" for k by (simp add: number_of_def fold_digits)
  show ?thesis
  proof (cases "n < 0")
    case True
    then show ?thesis
      unfolding py_int_def s using digits_of_digits by (simp add: show_int_def num)
  next
    case False
    obtain c cs where c: "digits_of (nat n) = c # cs" by (cases "digits_of (nat n)") auto
    with digits_of_digits [of "nat n"] have "is_digit c" by simp
    then have "c \<noteq> 45" "c \<noteq> 43" using digit_facts by auto
    with False c digits_of_digits [of "nat n"] num [of "nat n"] show ?thesis
      unfolding py_int_def s by (simp add: show_int_def)
  qed
qed

definition show_lines :: "(ustr \<times> int) list \<Rightarrow> ustr" where
  "show_lines kvs = concat (map (\<lambda>(k, n). k @ u '':'' @ show_int n @ [10]) kvs)"

lemma splitlines_line:
  "10 \<notin> set l \<Longrightarrow> 13 \<notin> set l \<Longrightarrow> splitlines (l @ 10 # s) = l # splitlines s"
  by (induction l) auto

lemma read_shown_line:
  assumes "58 \<notin> set k" "k \<notin> fst ` set al"
  shows "read_line fl (k @ 58 # show_int n) al = al @ [(k, VInt n)]"
proof -
  have "takeWhile (\<lambda>c. c \<noteq> 58) (k @ 58 # show_int n) = k"
    "dropWhile (\<lambda>c. c \<noteq> 58) (k @ 58 # show_int n) = 58 # show_int n"
    using assms(1) by (auto simp: takeWhile_append dropWhile_append)
  moreover have "AList.update k (VInt n) al = al @ [(k, VInt n)]"
    using assms(2) by (induction al) auto
  ultimately show ?thesis
    by (simp add: read_line_def key_value_def try_num_def py_int_show_int)
qed

definition key_ok :: "ustr \<Rightarrow> bool" where
  "key_ok k \<longleftrightarrow> 58 \<notin> set k \<and> 10 \<notin> set k \<and> 13 \<notin> set k"

lemma read_shown_lines:
  "distinct (map fst kvs) \<Longrightarrow> \<forall>k \<in> fst ` set kvs. key_ok k \<and> k \<notin> fst ` set al \<Longrightarrow>
     fold (read_line fl) (splitlines (show_lines kvs)) al = al @ map (\<lambda>(k, n). (k, VInt n)) kvs"
proof (induction kvs arbitrary: al)
  case Nil
  then show ?case by (simp add: show_lines_def)
next
  case (Cons kv kvs)
  obtain k n where kv: "kv = (k, n)" by (cases kv)
  from Cons.prems(2) kv have k: "key_ok k" "k \<notin> fst ` set al" by auto
  have "list_all (\<lambda>c. c \<noteq> 10 \<and> c \<noteq> 13) (show_int n)"
    using show_int_chars [of n] by (auto simp: list_all_iff is_digit_def)
  then have "10 \<notin> set (k @ 58 # show_int n)" "13 \<notin> set (k @ 58 # show_int n)"
    using k(1) by (auto simp: key_ok_def list_all_iff)
  then have "splitlines (show_lines (kv # kvs)) = (k @ 58 # show_int n) # splitlines (show_lines kvs)"
    using splitlines_line [of "k @ 58 # show_int n" "show_lines kvs"]
    by (simp add: kv show_lines_def u_Cons uchar_of_def)
  moreover have "read_line fl (k @ 58 # show_int n) al = al @ [(k, VInt n)]"
    using k by (intro read_shown_line) (simp_all add: key_ok_def)
  moreover have "\<forall>k' \<in> fst ` set kvs. key_ok k' \<and> k' \<notin> fst ` set (al @ [(k, VInt n)])"
    using Cons.prems unfolding kv by (simp add: image_iff) blast
  moreover have "distinct (map fst kvs)" using Cons.prems(1) by simp
  ultimately show ?case using Cons.IH [of "al @ [(k, VInt n)]"] by (simp add: kv)
qed



end
