(* ===== verification/Spec2Isabelle.thy ===== *)
theory Spec2Isabelle
  imports Trace Tuner Classes Functions FileChecks Includes Nolint
begin

section \<open>The whole run\<close>

text \<open>The text of standard input is used up by the first \<open>-\<close>.\<close>

fun files_outcome :: "sys \<Rightarrow> int \<Rightarrow> ustr \<Rightarrow> ustr list \<Rightarrow> unit outcome" where
  "files_outcome s verbose stdin [] = Ret ()"
| "files_outcome s verbose stdin (f # fs) =
     bind_out (file_outcome s verbose stdin f)
       (\<lambda>_. files_outcome s verbose (if f = u ''-'' then [] else stdin) fs)"

lemma process_files_outcome:
  "filters_ok w \<Longrightarrow> \<exists>w'. process_files s stdin fs w
     = (files_outcome s (verbose_level (cpplint_state w)) stdin fs, w') \<and> filters_ok w' \<and> tells w w'"
proof (induction fs arbitrary: stdin w)
  case Nil
  then show ?case by (simp add: pret_def tells_refl)
next
  case (Cons f fs)
  let ?v = "verbose_level (cpplint_state w)" and ?in = "if f = u ''-'' then [] else stdin"
  from ProcessFile_step [OF Cons.prems, of s stdin f] obtain w1 where
    w1: "ProcessFile s stdin f ?v [] w = (file_outcome s ?v stdin f, w1)" "filters_ok w1" "tells w w1" by blast
  have v: "verbose_level (cpplint_state w1) = ?v" using w1(3) by (simp add: tells_def)
  from Cons.IH [OF w1(2), of ?in] obtain w2 where
    w2: "process_files s ?in fs w1 = (files_outcome s ?v ?in fs, w2)" "filters_ok w2" "tells w1 w2"
    unfolding v by blast
  have "tells w w2" using w1(3) w2(3) by (rule tells_trans)
  with w1 w2 show ?case
    by (cases "file_outcome s ?v stdin f") (simp_all add: pbind_get_state pthen_def pbind_simps)
qed

lemma write_all_eq: "write_all ss w = (Ret (), w\<lparr>err_out := err_out w @ ss\<rparr>)"
  by (induction ss arbitrary: w) (simp_all add: pret_def pthen_def pbind_write_err)

definition reset :: "world \<Rightarrow> world" where
  "reset w = w\<lparr>cpplint_state := ResetErrorCounts (cpplint_state w)\<rparr>"

lemma main_program_steps:
  assumes "ParseArguments args w = (Ret filenames, w1)" "process_files s stdin filenames (reset w1) = (r, w2)"
  shows "main_program s stdin args w =
     (case r of
        Ret _ \<Rightarrow> (Raise (SystemExit (Code (if 0 < error_count (cpplint_state w2) then 1 else 0))),
                  w2\<lparr>err_out := err_out w2 @ PrintErrorCounts (s_items s (errors_by_category (cpplint_state w2)))
                       (cpplint_state w2)\<rparr>)
      | Raise e \<Rightarrow> (Raise e, w2) | Diverge \<Rightarrow> (Diverge, w2))"
  using assms
  by (cases r) (simp_all add: main_program_def pbind_simps pthen_def pbind_on_state reset_def
      print_error_counts_def pbind_get_state write_all_eq praise_def)

lemma parsed_arguments_ok:
  assumes "ParseArguments args w = (Ret filenames, w1)"
  shows "filters_ok (reset w1)" "err_out w1 = err_out w" "filenames \<noteq> []"
  using ParseArguments_cases [of args w]
  by (simp_all add: assms parsed_ok_def reset_def filters_ok_def ResetErrorCounts_def)

text \<open>A machine on which every file can be read and is empty, and a run on one file.\<close>

definition example_sys :: sys where
  "example_sys = env.extend (example_env [])
     (sys.fields (\<lambda>f. Some []) [10] (\<lambda>m. []))"

lemma example_parsed:
  obtains w1 where "ParseArguments [u ''x.txt''] world_init = (Ret [u ''x.txt''], w1)"
proof -
  have "fst (ParseArguments [u ''x.txt''] world_init) = Ret [u ''x.txt'']" by code_simp
  then show thesis using that [of "snd (ParseArguments [u ''x.txt''] world_init)"] by (metis prod.collapse)
qed

lemma example_not_linted: "\<not> linted (u ''x.txt'')"
  by code_simp

lemma example_parsed_header:
  obtains w1 where "ParseArguments [u ''x.h''] world_init = (Ret [u ''x.h''], w1)"
proof -
  have "fst (ParseArguments [u ''x.h''] world_init) = Ret [u ''x.h'']" by code_simp
  then show thesis using that [of "snd (ParseArguments [u ''x.h''] world_init)"] by (metis prod.collapse)
qed

lemma example_header_outcome:
  "file_outcome example_sys v [] (u ''x.h'') = Raise (UnboundLocalError (u ''cppvar''))"
proof -
  have "read_input example_sys [] (u ''x.h'') = Some []" "linted (u ''x.h'')"
    "file_extension_of (u ''x.h'') = u ''h''" "map strip_cr (split_char 10 []) = [[]]"
    by code_simp+
  then show ?thesis by (simp add: file_outcome_def example_header)
qed

text \<open>C37: Once the command line has been read, the program ends as the checks of its files let it.
  When they all return, it prints the counts and exits with status 1 if some line of the error
  handler was printed and with 0 otherwise, and the count it ends with is the number of those
  lines. Otherwise it ends with the exception, or the loop, of the first file whose checks do not
  return: what was printed before stays, and no counts are printed.\<close>

theorem main_program_outcome:
  assumes "ParseArguments args w = (Ret filenames, w1)"
  shows "\<exists>w' new. err_out w' = err_out w @ new
    \<and> error_count (cpplint_state w') = length (filter is_error_line new)
    \<and> main_program s stdin args w =
       (case files_outcome s (verbose_level (cpplint_state w1)) stdin filenames of
          Ret _ \<Rightarrow> (Raise (SystemExit (Code (if list_ex is_error_line new then 1 else 0))),
                   w'\<lparr>err_out := err_out w' @ PrintErrorCounts (s_items s (errors_by_category (cpplint_state w')))
                        (cpplint_state w')\<rparr>)
        | Raise e \<Rightarrow> (Raise e, w')
        | Diverge \<Rightarrow> (Diverge, w'))"
proof -
  let ?o = "files_outcome s (verbose_level (cpplint_state w1)) stdin filenames"
  note start = parsed_arguments_ok [OF assms]
  have v: "verbose_level (cpplint_state (reset w1)) = verbose_level (cpplint_state w1)"
    by (simp add: reset_def ResetErrorCounts_def)
  from process_files_outcome [OF start(1), of s stdin filenames] obtain w2 where
    w2: "process_files s stdin filenames (reset w1) = (?o, w2)" "tells (reset w1) w2"
    unfolding v by blast
  then obtain new where new: "err_out w2 = err_out w @ new"
    "error_count (cpplint_state w2) = length (filter is_error_line new)"
    using start(2) by (auto simp: tells_def reset_def ResetErrorCounts_def)
  have pos: "0 < error_count (cpplint_state w2) \<longleftrightarrow> list_ex is_error_line new"
    unfolding new(2) by (induction new) auto
  from main_program_steps [OF assms w2(1)] new show ?thesis
    unfolding pos by (intro exI [of _ w2] exI [of _ new]) (simp split: outcome.splits)
qed

text \<open>A file that is not linted, and a header file that makes the check of its guard fail.\<close>

theorem main_program_outcome_witness:
  "(\<exists>c. fst (main_program example_sys [] [u ''x.txt''] world_init) = Raise (SystemExit (Code c)))
   \<and> (\<exists>w'. main_program example_sys [] [u ''x.h''] world_init = (Raise (UnboundLocalError (u ''cppvar'')), w')
        \<and> error_count (cpplint_state w') = length (filter is_error_line (err_out w')))"
proof
  obtain w1 where w1: "ParseArguments [u ''x.txt''] world_init = (Ret [u ''x.txt''], w1)"
    by (rule example_parsed)
  have "files_outcome example_sys v [] [u ''x.txt''] = Ret ()" for v
    by (simp add: file_outcome_def example_not_linted split: option.split)
  with main_program_outcome [OF w1, of example_sys "[]"]
  show "\<exists>c. fst (main_program example_sys [] [u ''x.txt''] world_init) = Raise (SystemExit (Code c))" by auto
next
  obtain w1 where w1: "ParseArguments [u ''x.h''] world_init = (Ret [u ''x.h''], w1)"
    by (rule example_parsed_header)
  have "files_outcome example_sys v [] [u ''x.h''] = Raise (UnboundLocalError (u ''cppvar''))" for v
    by (simp add: example_header_outcome)
  with main_program_outcome [OF w1, of example_sys "[]"]
  show "\<exists>w'. main_program example_sys [] [u ''x.h''] world_init = (Raise (UnboundLocalError (u ''cppvar'')), w')
        \<and> error_count (cpplint_state w') = length (filter is_error_line (err_out w'))"
    by (auto simp: world_init_def)
qed

lemma split_at_first:
  "(\<exists>b f a. g # gs = b @ f # a \<and> Q b f) \<longleftrightarrow> Q [] g \<or> (\<exists>b f a. gs = b @ f # a \<and> Q (g # b) f)"
  by (auto simp: Cons_eq_append_conv)

lemma files_hang_iff:
  "files_outcome s v inp fs = Diverge \<longleftrightarrow>
     (\<exists>before f after. fs = before @ f # after \<and> files_outcome s v inp before = Ret ()
        \<and> file_outcome s v (if u ''-'' \<in> set before then [] else inp) f = Diverge)"
proof (induction fs arbitrary: inp)
  case (Cons g gs)
  let ?in = "if g = u ''-'' then [] else inp"
  have "files_outcome s v inp (g # b) = Ret () \<and>
      file_outcome s v (if u ''-'' \<in> set (g # b) then [] else inp) f = Diverge \<longleftrightarrow>
      file_outcome s v inp g = Ret () \<and> files_outcome s v ?in b = Ret ()
      \<and> file_outcome s v (if u ''-'' \<in> set b then [] else ?in) f = Diverge" for b f
    by (cases "file_outcome s v inp g") simp_all
  then show ?case
    unfolding split_at_first using Cons.IH [of ?in]
    by (cases "file_outcome s v inp g") auto
qed simp

text \<open>C38: The run never hangs by itself: it fails to end exactly when the checks of some file the
  program lints fail to return, all files before it having been gone through. A file that cannot be
  read or has another extension never stops it.\<close>

theorem main_program_hangs_iff:
  assumes "ParseArguments args w = (Ret filenames, w1)"
  shows "fst (main_program s stdin args w) = Diverge \<longleftrightarrow>
    (\<exists>before f after content. filenames = before @ f # after \<and> linted f
      \<and> files_outcome s (verbose_level (cpplint_state w1)) stdin before = Ret ()
      \<and> read_input s (if u ''-'' \<in> set before then [] else stdin) f = Some content
      \<and> snd (ProcessFileData (env.truncate s) (verbose_level (cpplint_state w1)) f (file_extension_of f)
               (map strip_cr (split_char 10 content)) []) = Diverge)"
proof -
  let ?v = "verbose_level (cpplint_state w1)"
  have one: "file_outcome s ?v inp f = Diverge \<longleftrightarrow>
      (\<exists>content. linted f \<and> read_input s inp f = Some content
        \<and> snd (ProcessFileData (env.truncate s) ?v f (file_extension_of f)
               (map strip_cr (split_char 10 content)) []) = Diverge)" for inp f
    by (simp add: file_outcome_def split: option.split)
  have v: "verbose_level (cpplint_state (reset w1)) = ?v"
    by (simp add: reset_def ResetErrorCounts_def)
  from process_files_outcome [OF parsed_arguments_ok(1) [OF assms], of s stdin filenames] obtain w2 where
    w2: "process_files s stdin filenames (reset w1) = (files_outcome s ?v stdin filenames, w2)"
    unfolding v by blast
  have "fst (main_program s stdin args w) = Diverge \<longleftrightarrow> files_outcome s ?v stdin filenames = Diverge"
    unfolding main_program_steps [OF assms w2] by (simp split: outcome.split)
  then show ?thesis unfolding files_hang_iff [of s ?v] one by blast
qed

theorem main_program_hangs_iff_witness:
  "fst (main_program example_sys [] [u ''x.txt''] world_init) \<noteq> Diverge"
proof -
  obtain w1 where w1: "ParseArguments [u ''x.txt''] world_init = (Ret [u ''x.txt''], w1)"
    by (rule example_parsed)
  show ?thesis
    unfolding main_program_hangs_iff [OF w1] using example_not_linted
    by (auto simp: Cons_eq_append_conv)
qed

end
